(* ===== verification/Go_Prelude.thy ===== *)
theory Go_Prelude
  imports Main "HOL-Library.AList"
begin

text \<open>
  Shared vocabulary of the development: the Go values every component uses (64-bit
  integers, time and durations, maps, errors, the metrics registry), the collections of
  rewrite rules the component proofs draw on, and two interfaces stated as locales: finite
  maps and machines that keep an invariant over every sequence of operations.

  \<^item> Go's \<open>int\<close> and \<open>int64\<close> are \<open>int\<close> with the wrap-around written out
    (\<open>wrap64\<close>) wherever the code adds or multiplies without a bound of its own.
  \<^item> \<open>time.Time\<close> is the number of nanoseconds since Go's zero time, so that the zero
    value is \<open>0\<close>; \<open>time.Duration\<close> is a number of nanoseconds, and the difference of
    two times saturates as \<open>Time.Sub\<close> does.
  \<^item> A Go map is an association list with distinct keys. Its order is one of the orders
    in which \<open>range\<close> may visit it; results that depend on the order take it as a
    parameter.
  \<^item> Go errors are values of \<open>go_error\<close>; \<open>Wrapped\<close> is \<open>fmt.Errorf\<close> with
    \<open>%w\<close>, so that \<open>errors.Is\<close> and \<open>errors.As\<close> walk the same chain.
  \<^item> Counters and gauges of the Prometheus client are cells of a registry, addressed by
    metric name and label values. Log output is not modelled.
\<close>

section \<open>Integers, time and durations\<close>

type_synonym time = int
type_synonym duration = int

definition wrap64 :: "int \<Rightarrow> int" where
  "wrap64 x = (x + 2 ^ 63) mod 2 ^ 64 - 2 ^ 63"

definition is_int64 :: "int \<Rightarrow> bool" where
  "is_int64 x \<longleftrightarrow> - (2 ^ 63) \<le> x \<and> x < 2 ^ 63"

definition zero_time :: time where
  "zero_time = 0"

definition time_IsZero :: "time \<Rightarrow> bool" where
  "time_IsZero t \<longleftrightarrow> t = zero_time"

definition minDuration :: duration where
  "minDuration = - (2 ^ 63)"

definition maxDuration :: duration where
  "maxDuration = 2 ^ 63 - 1"

definition time_Sub :: "time \<Rightarrow> time \<Rightarrow> duration" where
  "time_Sub t u =
     (if t - u < minDuration then minDuration
      else if maxDuration < t - u then maxDuration
      else t - u)"

definition millisecond :: duration where
  "millisecond = 1000000"

definition second :: duration where
  "second = 1000000000"

definition minute :: duration where
  "minute = 60000000000"

section \<open>Maps\<close>

type_synonym ('k, 'v) gomap = "('k \<times> 'v) list"

definition gm_wf :: "('k, 'v) gomap \<Rightarrow> bool" where
  "gm_wf m \<longleftrightarrow> distinct (map fst m)"

definition gm_get :: "('k, 'v) gomap \<Rightarrow> 'k \<Rightarrow> 'v option" where
  "gm_get m k = map_of m k"

definition gm_put :: "'k \<Rightarrow> 'v \<Rightarrow> ('k, 'v) gomap \<Rightarrow> ('k, 'v) gomap" where
  "gm_put k v m = AList.update k v m"

definition gm_del :: "'k \<Rightarrow> ('k, 'v) gomap \<Rightarrow> ('k, 'v) gomap" where
  "gm_del k m = AList.delete k m"

text \<open>Membership in a \<open>map[string]bool\<close>: a missing key reads as \<open>false\<close>.\<close>

definition gm_true :: "('k, bool) gomap \<Rightarrow> 'k \<Rightarrow> bool" where
  "gm_true m k = (case gm_get m k of None \<Rightarrow> False | Some b \<Rightarrow> b)"

section \<open>Errors\<close>

datatype go_error =
    ErrorString string
  | Wrapped string go_error string
  | Canceled
  | DeadlineExceeded
  | RedisNil
  | ErrNoRows
  | ErrCircuitOpen
  | ValidationErr (ve_Field: string) (ve_Value: string) (ve_Message: string)
  | ProviderErr (pe_Provider: string) (pe_StatusCode: int) (pe_Message: string)
      (pe_Err: "go_error option") (pe_RateLimited: bool) (pe_Transient: bool) (pe_Permanent: bool)

text \<open>\<open>errors.Unwrap\<close>: the next error of the chain.\<close>

fun errors_Unwrap :: "go_error \<Rightarrow> go_error option" where
  "errors_Unwrap (Wrapped p e s) = Some e"
| "errors_Unwrap (ProviderErr n c m e r t p) = e"
| "errors_Unwrap _ = None"

text \<open>\<open>errors.Is\<close> against a sentinel: some error of the chain equals it.\<close>

fun errors_Is :: "go_error \<Rightarrow> go_error \<Rightarrow> bool" where
  "errors_Is (Wrapped p e s) t = (Wrapped p e s = t \<or> errors_Is e t)"
| "errors_Is (ProviderErr n c m (Some e) r tr p) t =
     (ProviderErr n c m (Some e) r tr p = t \<or> errors_Is e t)"
| "errors_Is e t = (e = t)"

text \<open>\<open>errors.As\<close> against \<open>*ProviderError\<close>: the first one of the chain.\<close>

fun errors_As_ProviderError :: "go_error \<Rightarrow> go_error option" where
  "errors_As_ProviderError (Wrapped p e s) = errors_As_ProviderError e"
| "errors_As_ProviderError (ProviderErr n c m e r t p) = Some (ProviderErr n c m e r t p)"
| "errors_As_ProviderError _ = None"

section \<open>Metrics registry\<close>

type_synonym metrics = "string \<times> string list \<Rightarrow> int"

definition m_empty :: metrics where
  "m_empty = (\<lambda>_. 0)"

definition m_inc :: "string \<Rightarrow> string list \<Rightarrow> metrics \<Rightarrow> metrics" where
  "m_inc name labels m = m((name, labels) := m (name, labels) + 1)"

definition m_set :: "string \<Rightarrow> string list \<Rightarrow> int \<Rightarrow> metrics \<Rightarrow> metrics" where
  "m_set name labels v m = m((name, labels) := v)"

section \<open>Rewrite collections\<close>

named_theorems time_defs \<open>durations and clock arithmetic\<close>
named_theorems gm_simps \<open>lookup laws of Go maps\<close>
named_theorems metric_simps \<open>reading the registry after an update\<close>

declare time_Sub_def [time_defs] minDuration_def [time_defs] maxDuration_def [time_defs]
  millisecond_def [time_defs] second_def [time_defs] minute_def [time_defs]

section \<open>Interfaces\<close>

text \<open>A finite map: what a client may assume of lookup after an update or a deletion.\<close>

locale finite_map =
  fixes get :: "'m \<Rightarrow> 'k \<Rightarrow> 'v option"
    and put :: "'k \<Rightarrow> 'v \<Rightarrow> 'm \<Rightarrow> 'm"
    and del :: "'k \<Rightarrow> 'm \<Rightarrow> 'm"
    and wf :: "'m \<Rightarrow> bool"
  assumes get_put: "get (put k v m) k' = (if k' = k then Some v else get m k')"
    and get_del: "get (del k m) k' = (if k' = k then None else get m k')"
    and wf_put: "wf m \<Longrightarrow> wf (put k v m)"
    and wf_del: "wf m \<Longrightarrow> wf (del k m)"
begin

lemma get_put_same: "get (put k v m) k = Some v"
  by (simp add: get_put)

lemma get_put_other: "k' \<noteq> k \<Longrightarrow> get (put k v m) k' = get m k'"
  by (simp add: get_put)

lemma get_put_put: "get (put k v (put k u m)) = get (put k v m)"
  by (rule ext) (simp add: get_put)

lemma get_del_put: "get (del k (put k v m)) = get (del k m)"
  by (rule ext) (simp add: get_del get_put)

lemma puts_other: "k \<notin> fst ` set kvs \<Longrightarrow> get (fold (\<lambda>(a, b). put a b) kvs m) k = get m k"
  by (induction kvs arbitrary: m) (auto simp: get_put)

lemma wf_puts: "wf m \<Longrightarrow> wf (fold (\<lambda>(a, b). put a b) kvs m)"
  by (induction kvs arbitrary: m) (auto intro: wf_put)

end

text \<open>
  A machine: operations that act on a state, and an invariant every operation keeps. A run
  is a list of operations, in any order; with each lock-protected section of the code as
  one operation, a run is an interleaving of goroutines.
\<close>

locale machine =
  fixes step :: "'op \<Rightarrow> 's \<Rightarrow> 's"
    and init :: "'s \<Rightarrow> bool"
    and inv :: "'s \<Rightarrow> bool"
  assumes init_inv: "init s \<Longrightarrow> inv s"
    and step_inv: "inv s \<Longrightarrow> inv (step x s)"
begin

lemma run_inv: "inv s \<Longrightarrow> inv (fold step xs s)"
  by (induction xs arbitrary: s) (auto intro: step_inv)

lemma reachable_inv: "init s \<Longrightarrow> inv (fold step xs s)"
  by (blast intro: init_inv run_inv)

lemma run_frame:
  assumes "\<And>x s. f (step x s) = f s"
  shows "f (fold step xs s) = f s"
  by (induction xs arbitrary: s) (simp_all add: assms)

end

text \<open>Functional refinement: an abstraction that commutes with every step commutes with runs.\<close>

locale refined_machine = machine step init inv
  for step :: "'op \<Rightarrow> 's \<Rightarrow> 's" and init :: "'s \<Rightarrow> bool" and inv :: "'s \<Rightarrow> bool" +
  fixes abs :: "'s \<Rightarrow> 'a"
    and astep :: "'op \<Rightarrow> 'a \<Rightarrow> 'a"
  assumes step_refines: "inv s \<Longrightarrow> abs (step x s) = astep x (abs s)"
begin

lemma run_refines: "inv s \<Longrightarrow> abs (fold step xs s) = fold astep xs (abs s)"
proof (induction xs arbitrary: s)
  case Nil
  then show ?case by simp
next
  case (Cons x xs)
  then show ?case by (simp add: step_inv step_refines)
qed

lemma reachable_refines: "init s \<Longrightarrow> abs (fold step xs s) = fold astep xs (abs s)"
  by (simp add: init_inv run_refines)

end

section \<open>Laws of the Go values\<close>

lemma wrap64_id [simp]: "is_int64 x \<Longrightarrow> wrap64 x = x"
  by (simp add: is_int64_def wrap64_def)

lemma wrap64_is_int64: "is_int64 (wrap64 x)"
proof -
  have "0 \<le> (x + 2 ^ 63) mod (2 ^ 64 :: int)" "(x + 2 ^ 63) mod 2 ^ 64 < (2 ^ 64 :: int)"
    by simp_all
  then show ?thesis
    unfolding wrap64_def is_int64_def by (simp add: algebra_simps)
qed

lemma time_Sub_is_int64: "is_int64 (time_Sub t u)"
  by (simp add: time_defs is_int64_def)

lemma time_Sub_mono: "t \<le> t' \<Longrightarrow> time_Sub t u \<le> time_Sub t' u"
  by (simp add: time_defs)

lemma time_Sub_self [simp]: "time_Sub t t = 0"
  by (simp add: time_defs)

lemma time_Sub_exact: "is_int64 (t - u) \<Longrightarrow> time_Sub t u = t - u"
  by (simp add: time_defs is_int64_def)

lemma time_Sub_ge: "d \<le> maxDuration \<Longrightarrow> u + d \<le> t \<Longrightarrow> d \<le> time_Sub t u"
  by (simp add: time_defs)

lemma time_Sub_less: "minDuration < d \<Longrightarrow> t < u + d \<Longrightarrow> time_Sub t u < d"
  by (simp add: time_defs)

lemma gm_wf_Nil [simp]: "gm_wf []"
  by (simp add: gm_wf_def)

lemma gm_get_Nil [simp]: "gm_get [] k = None"
  by (simp add: gm_get_def)

lemma gm_get_put [gm_simps]: "gm_get (gm_put k v m) k' = (if k' = k then Some v else gm_get m k')"
  by (simp add: gm_get_def gm_put_def update_conv')

lemma gm_get_del [gm_simps]: "gm_get (gm_del k m) k' = (if k' = k then None else gm_get m k')"
  by (simp add: gm_get_def gm_del_def delete_conv')

lemma gm_wf_put [simp]: "gm_wf m \<Longrightarrow> gm_wf (gm_put k v m)"
  by (simp add: gm_wf_def gm_put_def distinct_update)

lemma gm_wf_del [simp]: "gm_wf m \<Longrightarrow> gm_wf (gm_del k m)"
  by (simp add: gm_wf_def gm_del_def distinct_delete)

interpretation gm: finite_map gm_get gm_put gm_del gm_wf
  by unfold_locales (simp_all add: gm_simps)

lemma gm_get_Some_iff: "gm_wf m \<Longrightarrow> gm_get m k = Some v \<longleftrightarrow> (k, v) \<in> set m"
  by (simp add: gm_get_def gm_wf_def)

lemma gm_get_in_set: "gm_get m k = Some v \<Longrightarrow> (k, v) \<in> set m"
  by (simp add: gm_get_def map_of_SomeD)

lemma gm_get_None_iff: "gm_get m k = None \<longleftrightarrow> k \<notin> fst ` set m"
  by (simp add: gm_get_def map_of_eq_None_iff)

lemma gm_keys_put: "fst ` set (gm_put k v m) = insert k (fst ` set m)"
  by (simp add: gm_put_def dom_update)

lemma gm_keys_del: "fst ` set (gm_del k m) = fst ` set m - {k}"
  by (auto simp: gm_del_def AList.delete_eq)

lemma gm_length_put:
  "length (gm_put k v m) = (if gm_get m k = None then Suc (length m) else length m)"
  by (induction m) (auto simp: gm_put_def gm_get_def)

lemma gm_set_put_subset: "set (gm_put k v m) \<subseteq> insert (k, v) (set m)"
  by (induction m) (auto simp: gm_put_def)

lemma gm_set_del_subset: "set (gm_del k m) \<subseteq> set m"
  by (auto simp: gm_del_def AList.delete_eq)

lemma m_inc_apply [metric_simps]:
  "m_inc n l m c = (if c = (n, l) then m c + 1 else m c)"
  by (simp add: m_inc_def)

lemma m_set_apply [metric_simps]:
  "m_set n l v m c = (if c = (n, l) then v else m c)"
  by (simp add: m_set_def)

lemma errors_Is_refl [simp]: "errors_Is e e"
  by (cases "(e, e)" rule: errors_Is.cases) auto

lemma errors_Is_sentinel_wrapped:
  "t \<noteq> Wrapped p e s \<Longrightarrow> errors_Is (Wrapped p e s) t = errors_Is e t"
  by auto

end
