(* ===== verification/Go_Strings.thy ===== *)
theory Go_Strings
  imports Go_Prelude
begin

text \<open>
  The functions of Go's \<open>strings\<close> and \<open>strconv\<close> packages the program calls. A Go string
  is a sequence of bytes, as a HOL string is.

  \<^item> \<open>strings.Split\<close>, \<open>SplitN\<close> (at most two parts), \<open>Join\<close>, \<open>TrimRight\<close> and
    \<open>TrimSpace\<close>; \<open>TrimSpace\<close> strips the UTF-8 encodings of every code point that
    \<open>unicode.IsSpace\<close> accepts.
  \<^item> \<open>strings.ToUpper\<close> maps ASCII strings byte by byte; for other strings the Unicode
    case tables are a parameter.
  \<^item> \<open>strconv.Atoi\<close> and \<open>strconv.Itoa\<close> on 64-bit integers.
  \<^item> \<open>url.QueryEscape\<close> and \<open>url.Values.Encode\<close> for values set once per key.
\<close>

section \<open>Characters\<close>

definition is_ascii :: "char \<Rightarrow> bool" where
  "is_ascii c \<longleftrightarrow> (of_char c :: nat) < 128"

definition is_digit :: "char \<Rightarrow> bool" where
  "is_digit c \<longleftrightarrow> 48 \<le> (of_char c :: nat) \<and> (of_char c :: nat) \<le> 57"

definition digit_val :: "char \<Rightarrow> int" where
  "digit_val c = int (of_char c) - 48"

definition digit_char :: "nat \<Rightarrow> char" where
  "digit_char d = char_of (48 + d)"

definition char_upper :: "char \<Rightarrow> char" where
  "char_upper c =
     (if 97 \<le> (of_char c :: nat) \<and> (of_char c :: nat) \<le> 122 then char_of ((of_char c :: nat) - 32) else c)"

definition char_lower :: "char \<Rightarrow> char" where
  "char_lower c =
     (if 65 \<le> (of_char c :: nat) \<and> (of_char c :: nat) \<le> 90 then char_of ((of_char c :: nat) + 32) else c)"

section \<open>Package strings\<close>

fun strings_Split :: "char \<Rightarrow> string \<Rightarrow> string list" where
  "strings_Split sep [] = [[]]"
| "strings_Split sep (c # s) =
     (if c = sep then [] # strings_Split sep s
      else case strings_Split sep s of p # ps \<Rightarrow> (c # p) # ps | [] \<Rightarrow> [[c]])"

text \<open>\<open>strings.SplitN(s, sep, 2)\<close>.\<close>

definition strings_SplitN2 :: "char \<Rightarrow> string \<Rightarrow> string list" where
  "strings_SplitN2 sep s =
     (case dropWhile (\<lambda>c. c \<noteq> sep) s of
        [] \<Rightarrow> [s]
      | _ # rest \<Rightarrow> [takeWhile (\<lambda>c. c \<noteq> sep) s, rest])"

fun strings_Join :: "string list \<Rightarrow> string \<Rightarrow> string" where
  "strings_Join [] sep = []"
| "strings_Join [p] sep = p"
| "strings_Join (p # q # ps) sep = p @ sep @ strings_Join (q # ps) sep"

text \<open>\<open>strings.TrimRight(s, cutset)\<close> for a cutset of one character.\<close>

definition strings_TrimRight :: "string \<Rightarrow> char \<Rightarrow> string" where
  "strings_TrimRight s c = rev (dropWhile (\<lambda>x. x = c) (rev s))"

definition space_encodings :: "string list" where
  "space_encodings =
     map (map char_of)
       ([[9], [10], [11], [12], [13], [32], [194, 133], [194, 160], [225, 154, 128],
         [226, 128, 168], [226, 128, 169], [226, 128, 175], [226, 129, 159], [227, 128, 128]]
        @ map (\<lambda>n. [226, 128, n]) [128..<139] :: nat list list)"

definition strip_first :: "string list \<Rightarrow> string \<Rightarrow> string option" where
  "strip_first ps s =
     (case filter (\<lambda>p. take (length p) s = p) ps of
        [] \<Rightarrow> None
      | p # _ \<Rightarrow> Some (drop (length p) s))"

fun trim_prefixes :: "nat \<Rightarrow> string list \<Rightarrow> string \<Rightarrow> string" where
  "trim_prefixes 0 ps s = s"
| "trim_prefixes (Suc n) ps s =
     (case strip_first ps s of None \<Rightarrow> s | Some r \<Rightarrow> trim_prefixes n ps r)"

text \<open>Each round strips at least one byte, so as many rounds as there are bytes are enough.\<close>

definition strings_TrimSpace :: "string \<Rightarrow> string" where
  "strings_TrimSpace s =
     (let l = trim_prefixes (length s) space_encodings s
      in rev (trim_prefixes (length l) (map rev space_encodings) (rev l)))"

definition strings_ToUpper :: "(string \<Rightarrow> string) \<Rightarrow> string \<Rightarrow> string" where
  "strings_ToUpper unicode s =
     (if list_all is_ascii s then map char_upper s else unicode s)"

text \<open>ASCII case mapping and folding, exact for comparison with ASCII words free of \<open>k\<close> and \<open>s\<close>.\<close>

definition ascii_lower :: "string \<Rightarrow> string" where
  "ascii_lower s = map char_lower s"

section \<open>Package unicode/utf8\<close>

definition byte_in :: "nat \<Rightarrow> nat \<Rightarrow> char \<Rightarrow> bool" where
  "byte_in lo hi c \<longleftrightarrow> lo \<le> (of_char c :: nat) \<and> (of_char c :: nat) \<le> hi"

abbreviation utf8_cont :: "char \<Rightarrow> bool" where
  "utf8_cont \<equiv> byte_in 128 191"

text \<open>
  The number of bytes of the well-formed encoding a string starts with: no overlong form, no
  surrogate, nothing above U+10FFFF; 0 when it starts with none.
\<close>

fun rune_len :: "string \<Rightarrow> nat" where
  "rune_len [] = 0"
| "rune_len (c # s) =
     (if byte_in 0 127 c then 1
      else if byte_in 194 223 c then (case s of c1 # _ \<Rightarrow> if utf8_cont c1 then 2 else 0 | _ \<Rightarrow> 0)
      else if byte_in 224 239 c then
        (case s of
           c1 # c2 # _ \<Rightarrow>
             if utf8_cont c1 \<and> utf8_cont c2
                \<and> (byte_in 224 224 c \<longrightarrow> byte_in 160 191 c1) \<and> (byte_in 237 237 c \<longrightarrow> byte_in 128 159 c1)
             then 3 else 0
         | _ \<Rightarrow> 0)
      else if byte_in 240 244 c then
        (case s of
           c1 # c2 # c3 # _ \<Rightarrow>
             if utf8_cont c1 \<and> utf8_cont c2 \<and> utf8_cont c3
                \<and> (byte_in 240 240 c \<longrightarrow> byte_in 144 191 c1) \<and> (byte_in 244 244 c \<longrightarrow> byte_in 128 143 c1)
             then 4 else 0
         | _ \<Rightarrow> 0)
      else 0)"

function utf8_ValidString :: "string \<Rightarrow> bool" where
  "utf8_ValidString s =
     (if rune_len s = 0 then s = [] else utf8_ValidString (drop (rune_len s) s))"
  by pat_completeness auto
termination by (relation "measure length") (auto simp: gr0_conv_Suc neq_Nil_conv, case_tac s, auto)

declare utf8_ValidString.simps [simp del]

section \<open>Package strconv\<close>

fun digits_value :: "int \<Rightarrow> string \<Rightarrow> int option" where
  "digits_value acc [] = Some acc"
| "digits_value acc (c # s) =
     (if is_digit c then digits_value (10 * acc + digit_val c) s else None)"

text \<open>\<open>None\<close> is a syntax or range error.\<close>

definition strconv_Atoi :: "string \<Rightarrow> int option" where
  "strconv_Atoi s =
     (let neg = (take 1 s = ''-'');
          ds = (if take 1 s = ''-'' \<or> take 1 s = ''+'' then drop 1 s else s)
      in if ds = [] then None
         else case digits_value 0 ds of
                None \<Rightarrow> None
              | Some n \<Rightarrow> (let v = (if neg then - n else n) in if is_int64 v then Some v else None))"

fun dec_digits :: "nat \<Rightarrow> string" where
  "dec_digits n =
     (if n < 10 then [digit_char n] else dec_digits (n div 10) @ [digit_char (n mod 10)])"

declare dec_digits.simps [simp del]

definition strconv_Itoa :: "int \<Rightarrow> string" where
  "strconv_Itoa i = (if i < 0 then CHR ''-'' # dec_digits (nat (- i)) else dec_digits (nat i))"

section \<open>Package net/url\<close>

definition hex_digit :: "nat \<Rightarrow> char" where
  "hex_digit d = (if d < 10 then digit_char d else char_of (55 + d))"

definition query_unreserved :: "char \<Rightarrow> bool" where
  "query_unreserved c \<longleftrightarrow>
     is_digit c \<or>
     (65 \<le> (of_char c :: nat) \<and> (of_char c :: nat) \<le> 90) \<or>
     (97 \<le> (of_char c :: nat) \<and> (of_char c :: nat) \<le> 122) \<or> c \<in> set ''-_.~''"

definition QueryEscape :: "string \<Rightarrow> string" where
  "QueryEscape s =
     concat (map (\<lambda>c. if query_unreserved c then [c]
                      else if c = CHR '' '' then ''+''
                      else [CHR ''%'', hex_digit (of_char c div 16), hex_digit (of_char c mod 16)]) s)"

definition hex_value :: "char \<Rightarrow> nat option" where
  "hex_value c =
     (if byte_in 48 57 c then Some (of_char c - 48)
      else if byte_in 97 102 c then Some (of_char c - 87)
      else if byte_in 65 70 c then Some (of_char c - 55)
      else None)"

text \<open>\<open>None\<close> is an invalid escape.\<close>

fun QueryUnescape :: "string \<Rightarrow> string option" where
  "QueryUnescape [] = Some []"
| "QueryUnescape (c # s) =
     (if c = CHR ''%'' then
        (case s of
           a # b # r \<Rightarrow>
             (case (hex_value a, hex_value b) of
                (Some i, Some j) \<Rightarrow> map_option (\<lambda>t. char_of (i * 16 + j) # t) (QueryUnescape r)
              | _ \<Rightarrow> None)
         | _ \<Rightarrow> None)
      else map_option (\<lambda>t. (if c = CHR ''+'' then CHR '' '' else c) # t) (QueryUnescape s))"

text \<open>\<open>strings.Cut\<close>: what is before and after the first separator.\<close>

definition strings_Cut :: "char \<Rightarrow> string \<Rightarrow> string \<times> string" where
  "strings_Cut sep s =
     (takeWhile (\<lambda>c. c \<noteq> sep) s, drop 1 (dropWhile (\<lambda>c. c \<noteq> sep) s))"

definition query_pair :: "string \<Rightarrow> (string \<times> string) option" where
  "query_pair p =
     (if p = [] \<or> CHR '';'' \<in> set p then None
      else case strings_Cut (CHR ''='') p of
             (k, v) \<Rightarrow>
               (case (QueryUnescape k, QueryUnescape v) of
                  (Some k', Some v') \<Rightarrow> Some (k', v')
                | _ \<Rightarrow> None))"

text \<open>\<open>URL.Query\<close>: the pairs that are well formed, in order; \<open>Get\<close> is the first value of a key.\<close>

definition url_Query :: "string \<Rightarrow> (string \<times> string) list" where
  "url_Query raw = List.map_filter query_pair (strings_Split (CHR ''&'') raw)"

definition Values_Get :: "(string \<times> string) list \<Rightarrow> string \<Rightarrow> string" where
  "Values_Get vs k = (case map_of vs k of None \<Rightarrow> '''' | Some v \<Rightarrow> v)"

text \<open>The order of Go strings: byte by byte.\<close>

fun string_le :: "string \<Rightarrow> string \<Rightarrow> bool" where
  "string_le [] t = True"
| "string_le (c # s) [] = False"
| "string_le (c # s) (d # t) =
     ((of_char c :: nat) < of_char d \<or> c = d \<and> string_le s t)"

fun insert_key :: "string \<times> 'v \<Rightarrow> (string \<times> 'v) list \<Rightarrow> (string \<times> 'v) list" where
  "insert_key kv [] = [kv]"
| "insert_key kv (x # xs) =
     (if string_le (fst kv) (fst x) then kv # x # xs else x # insert_key kv xs)"

definition sort_keys :: "(string \<times> 'v) list \<Rightarrow> (string \<times> 'v) list" where
  "sort_keys kvs = foldr insert_key kvs []"

definition url_Encode :: "(string, string) gomap \<Rightarrow> string" where
  "url_Encode vs =
     strings_Join (map (\<lambda>(k, v). QueryEscape k @ ''='' @ QueryEscape v) (sort_keys vs)) ''&''"

section \<open>Laws\<close>

lemma utf8_ValidString_Nil [simp]: "utf8_ValidString []"
  by (simp add: utf8_ValidString.simps)

lemma rune_len_ascii: "is_ascii c \<Longrightarrow> rune_len (c # s) = 1"
  by (simp add: is_ascii_def byte_in_def)

lemma utf8_ValidString_ascii: "list_all is_ascii s \<Longrightarrow> utf8_ValidString s"
proof (induction s)
  case (Cons c s)
  then show ?case
    using rune_len_ascii [of c s] by (subst utf8_ValidString.simps) simp
qed simp

lemma is_digit_digit_char: "d < 10 \<Longrightarrow> is_digit (digit_char d)"
  by (simp add: is_digit_def digit_char_def)

lemma digit_val_digit_char: "d < 10 \<Longrightarrow> digit_val (digit_char d) = int d"
  by (simp add: digit_val_def digit_char_def)

lemma digits_value_append:
  "digits_value acc (s @ t) = Option.bind (digits_value acc s) (\<lambda>a. digits_value a t)"
  by (induction acc s rule: digits_value.induct) auto

lemma digits_value_dec_digits: "digits_value 0 (dec_digits n) = Some (int n)"
proof (induction n rule: dec_digits.induct)
  case (1 n)
  show ?case
  proof (cases "n < 10")
    case True
    then show ?thesis
      by (simp add: dec_digits.simps [of n] is_digit_digit_char digit_val_digit_char)
  next
    case False
    have "10 * int (n div 10) + int (n mod 10) = int n" by presburger
    with False 1 show ?thesis
      by (subst dec_digits.simps)
        (simp add: digits_value_append is_digit_digit_char digit_val_digit_char)
  qed
qed

lemma dec_digits_not_Nil [simp]: "dec_digits n \<noteq> []"
  by (subst dec_digits.simps) simp

lemma dec_digits_are_digits: "list_all is_digit (dec_digits n)"
proof (induction n rule: dec_digits.induct)
  case (1 n)
  then show ?case
    by (subst dec_digits.simps) (simp add: is_digit_digit_char)
qed

lemma dec_digits_inj: "dec_digits m = dec_digits n \<Longrightarrow> m = n"
  by (metis digits_value_dec_digits of_nat_eq_iff option.inject)

lemma is_digit_not_sign: "is_digit c \<Longrightarrow> c \<noteq> CHR ''-'' \<and> c \<noteq> CHR ''+''"
  by (auto simp: is_digit_def)

lemma dec_digits_no_sign: "take 1 (dec_digits n) \<noteq> ''-''" "take 1 (dec_digits n) \<noteq> ''+''"
  using dec_digits_are_digits [of n] is_digit_not_sign
  by (cases "dec_digits n"; auto)+

lemma Atoi_Itoa: "is_int64 i \<Longrightarrow> strconv_Atoi (strconv_Itoa i) = Some i"
  using dec_digits_no_sign
  by (auto simp: strconv_Atoi_def strconv_Itoa_def digits_value_dec_digits Let_def)

lemma Atoi_int64: "strconv_Atoi s = Some n \<Longrightarrow> is_int64 n"
  by (auto simp: strconv_Atoi_def Let_def split: option.splits if_splits)

lemma strings_Split_not_Nil [simp]: "strings_Split c s \<noteq> []"
  by (induction s) (auto split: list.splits)

lemma strings_Split_no_sep: "p \<in> set (strings_Split c s) \<Longrightarrow> c \<notin> set p"
  by (induction s arbitrary: p) (auto split: list.splits if_splits)

lemma strings_Join_Split: "strings_Join (strings_Split c s) [c] = s"
proof (induction s)
  case (Cons x s)
  then show ?case
    by (cases "strings_Split c s"; cases "tl (strings_Split c s)")
      (auto simp: neq_Nil_conv)
qed simp

lemma strings_Split_no_char: "c \<notin> set s \<Longrightarrow> strings_Split c s = [s]"
  by (induction s) auto

lemma strings_Split_append:
  "c \<notin> set p \<Longrightarrow> strings_Split c (p @ c # s) = p # strings_Split c s"
  by (induction p) auto

lemma SplitN2_append:
  "c \<notin> set p \<Longrightarrow> strings_SplitN2 c (p @ c # s) = [p, s]"
  by (auto simp: strings_SplitN2_def dropWhile_append takeWhile_append)

end
