(* ===== verification/Float64.thy ===== *)
theory Float64
  imports Go_Prelude "HOL-Library.Log_Nat"
begin

text \<open>
  Go's \<open>float64\<close>: a finite value is a rational number, and the result of an arithmetic
  operation is the exact result rounded to the nearest IEEE 754 double, ties to even
  (\<open>fl\<close>), with overflow to an infinity. NaN and the infinities are values of their own, and
  every comparison with NaN is false. The sign of a zero is not kept here: it shows only in
  formatted numbers, which carry it beside them (\<open>Strconv_Format\<close>).
\<close>

datatype float64 = NaN | PosInf | NegInf | Fin rat

section \<open>Rounding\<close>

definition pow2 :: "int \<Rightarrow> rat" where
  "pow2 e = (if 0 \<le> e then 2 ^ nat e else 1 / 2 ^ nat (- e))"

text \<open>The integer part of the binary logarithm of a positive number.\<close>

definition ilog2 :: "rat \<Rightarrow> int" where
  "ilog2 x =
     (case quotient_of x of
        (p, q) \<Rightarrow> (let k = bitlen p - bitlen q in if pow2 k \<le> x then k else k - 1))"

text \<open>The exponent of the last bit of a 53-bit significand, bounded by the subnormals.\<close>

definition ulp_exp :: "rat \<Rightarrow> int" where
  "ulp_exp x = max (-1074) (ilog2 x - 52)"

definition round_even :: "rat \<Rightarrow> int" where
  "round_even x =
     (let f = \<lfloor>x\<rfloor>; d = x - of_int f
      in if d < 1 / 2 then f else if 1 / 2 < d then f + 1 else if even f then f else f + 1)"

definition round_mag :: "rat \<Rightarrow> rat" where
  "round_mag x =
     (if x \<le> 0 then 0 else of_int (round_even (x / pow2 (ulp_exp x))) * pow2 (ulp_exp x))"

definition fl :: "rat \<Rightarrow> float64" where
  "fl x =
     (let r = round_mag \<bar>x\<bar>
      in if pow2 1024 \<le> r then (if x < 0 then NegInf else PosInf)
         else Fin (if x < 0 then - r else r))"

text \<open>The non-negative doubles (with no bound on the exponent from above).\<close>

definition is_double :: "rat \<Rightarrow> bool" where
  "is_double z \<longleftrightarrow> (\<exists>n e. z = of_int n * pow2 e \<and> 0 \<le> n \<and> n < 2 ^ 53 \<and> -1074 \<le> e)"

section \<open>Operations\<close>

definition f_of_int :: "int \<Rightarrow> float64" where
  "f_of_int n = fl (of_int n)"

fun f_neg :: "float64 \<Rightarrow> float64" where
  "f_neg NaN = NaN"
| "f_neg PosInf = NegInf"
| "f_neg NegInf = PosInf"
| "f_neg (Fin x) = Fin (- x)"

fun f_add :: "float64 \<Rightarrow> float64 \<Rightarrow> float64" where
  "f_add NaN _ = NaN"
| "f_add _ NaN = NaN"
| "f_add PosInf NegInf = NaN"
| "f_add NegInf PosInf = NaN"
| "f_add PosInf _ = PosInf"
| "f_add _ PosInf = PosInf"
| "f_add NegInf _ = NegInf"
| "f_add _ NegInf = NegInf"
| "f_add (Fin x) (Fin y) = fl (x + y)"

definition f_sub :: "float64 \<Rightarrow> float64 \<Rightarrow> float64" where
  "f_sub x y = f_add x (f_neg y)"

text \<open>The infinity with the sign of a number; infinity times zero is NaN.\<close>

definition inf_times :: "bool \<Rightarrow> rat \<Rightarrow> float64" where
  "inf_times pos x = (if x = 0 then NaN else if (0 < x) = pos then PosInf else NegInf)"

fun f_mul :: "float64 \<Rightarrow> float64 \<Rightarrow> float64" where
  "f_mul NaN _ = NaN"
| "f_mul _ NaN = NaN"
| "f_mul PosInf PosInf = PosInf"
| "f_mul PosInf NegInf = NegInf"
| "f_mul NegInf PosInf = NegInf"
| "f_mul NegInf NegInf = PosInf"
| "f_mul PosInf (Fin x) = inf_times True x"
| "f_mul NegInf (Fin x) = inf_times False x"
| "f_mul (Fin x) PosInf = inf_times True x"
| "f_mul (Fin x) NegInf = inf_times False x"
| "f_mul (Fin x) (Fin y) = fl (x * y)"

text \<open>Division; the program divides by positive numbers only, where no zero sign matters.\<close>

fun f_div :: "float64 \<Rightarrow> float64 \<Rightarrow> float64" where
  "f_div NaN _ = NaN"
| "f_div _ NaN = NaN"
| "f_div (Fin x) (Fin y) =
     (if y = 0 then (if x = 0 then NaN else if 0 < x then PosInf else NegInf) else fl (x / y))"
| "f_div (Fin x) _ = Fin 0"
| "f_div PosInf (Fin y) = (if 0 \<le> y then PosInf else NegInf)"
| "f_div NegInf (Fin y) = (if 0 \<le> y then NegInf else PosInf)"
| "f_div _ _ = NaN"

fun f_less :: "float64 \<Rightarrow> float64 \<Rightarrow> bool" where
  "f_less NaN _ = False"
| "f_less _ NaN = False"
| "f_less NegInf y = (y \<noteq> NegInf)"
| "f_less x PosInf = (x \<noteq> PosInf)"
| "f_less (Fin x) (Fin y) = (x < y)"
| "f_less _ _ = False"

fun f_eq :: "float64 \<Rightarrow> float64 \<Rightarrow> bool" where
  "f_eq NaN _ = False"
| "f_eq x y = (x = y)"

definition f_le :: "float64 \<Rightarrow> float64 \<Rightarrow> bool" where
  "f_le x y \<longleftrightarrow> f_less x y \<or> f_eq x y"

text \<open>
  Conversion to \<open>int64\<close> truncates towards zero. Out of range the language leaves the result
  to the implementation; the model takes the value of the amd64 compiler.
\<close>

fun int64_of :: "float64 \<Rightarrow> int" where
  "int64_of (Fin x) =
     (let n = (if 0 \<le> x then \<lfloor>x\<rfloor> else \<lceil>x\<rceil>) in if is_int64 n then n else - (2 ^ 63))"
| "int64_of _ = - (2 ^ 63)"

text \<open>\<open>Duration.Seconds\<close>: whole seconds and the fraction, added as floats; division truncates.\<close>

definition dur_Seconds :: "duration \<Rightarrow> float64" where
  "dur_Seconds d =
     (let sec = sgn d * (\<bar>d\<bar> div second); nsec = sgn d * (\<bar>d\<bar> mod second)
      in f_add (f_of_int sec) (f_div (f_of_int nsec) (Fin 1000000000)))"

section \<open>Powers of two\<close>

lemma pow2_pos [simp]: "0 < pow2 e"
  by (simp add: pow2_def)

lemma pow2_nonneg [simp]: "0 \<le> pow2 e" "pow2 e \<noteq> 0"
  using pow2_pos [of e] by linarith+

lemma pow2_Suc: "pow2 (e + 1) = 2 * pow2 e"
proof (cases "0 \<le> e")
  case True
  then show ?thesis by (simp add: pow2_def nat_add_distrib)
next
  case False
  then have "nat (- e) = Suc (nat (- (e + 1)))" by simp
  with False show ?thesis
    by (cases "e = -1") (simp_all add: pow2_def)
qed

lemma pow2_add: "pow2 (a + b) = pow2 a * pow2 b"
proof (induction b rule: int_induct [where k = 0])
  case base
  then show ?case by (simp add: pow2_def)
next
  case (step1 i)
  then show ?case using pow2_Suc [of "a + i"] pow2_Suc [of i] by (simp add: add.assoc)
next
  case (step2 i)
  then show ?case using pow2_Suc [of "a + i - 1"] pow2_Suc [of "i - 1"] by (simp add: algebra_simps)
qed

lemma pow2_mono: "a \<le> b \<Longrightarrow> pow2 a \<le> pow2 b"
proof -
  assume "a \<le> b"
  then have "pow2 b = pow2 a * 2 ^ nat (b - a)"
    using pow2_add [of a "b - a"] by (simp add: pow2_def)
  moreover have "pow2 a * 1 \<le> pow2 a * 2 ^ nat (b - a)"
    by (intro mult_left_mono) (simp_all add: one_le_power)
  ultimately show ?thesis by simp
qed

lemma pow2_less_cancel: "pow2 a < pow2 b \<Longrightarrow> a < b"
  using pow2_mono [of b a] by (meson linorder_not_le)

lemma pow2_of_nat: "0 \<le> e \<Longrightarrow> pow2 e = of_int (2 ^ nat e)"
  by (simp add: pow2_def)

lemma pow2_diff: "pow2 (a - b) = pow2 a / pow2 b"
  using pow2_add [of "a - b" b] by (simp add: field_simps)

section \<open>The binary logarithm\<close>

lemma bitlen_pow2_bounds:
  assumes "0 < n"
  shows "pow2 (bitlen n - 1) \<le> of_int n" "of_int n < pow2 (bitlen n)"
proof -
  have "1 \<le> bitlen n"
    using assms bitlen_nonneg [of n] bitlen_eq_zero_iff [of n] by linarith
  then have "pow2 (bitlen n - 1) = of_int (2 ^ nat (bitlen n - 1))"
    "pow2 (bitlen n) = of_int (2 ^ nat (bitlen n))"
    by (simp_all add: pow2_of_nat)
  then show "pow2 (bitlen n - 1) \<le> of_int n" "of_int n < pow2 (bitlen n)"
    using bitlen_bounds [OF assms] by (simp_all only: of_int_le_iff of_int_less_iff)
qed

lemma ilog2_bounds:
  assumes "0 < x"
  shows "pow2 (ilog2 x) \<le> x \<and> x < pow2 (ilog2 x + 1)"
proof -
  obtain p q where pq: "quotient_of x = (p, q)" by (cases "quotient_of x")
  then have q: "0 < q" and x: "x = of_int p / of_int q"
    using quotient_of_denom_pos quotient_of_div by blast+
  with assms have p: "0 < p" by (simp add: zero_less_divide_iff)
  let ?k = "bitlen p - bitlen q"
  have "x < pow2 (bitlen p) / pow2 (bitlen q - 1)"
    unfolding x using bitlen_pow2_bounds [OF p] bitlen_pow2_bounds [OF q] p
    by (intro frac_less) auto
  then have upper: "x < pow2 (?k + 1)" by (simp add: pow2_diff [symmetric] algebra_simps)
  have "pow2 (bitlen p - 1) / pow2 (bitlen q) \<le> x"
    unfolding x using bitlen_pow2_bounds [OF p] bitlen_pow2_bounds [OF q] p q
    by (intro frac_le) auto
  then have lower: "pow2 (?k - 1) \<le> x" by (simp add: pow2_diff [symmetric] algebra_simps)
  show ?thesis
    using upper lower by (auto simp: ilog2_def pq Let_def)
qed

lemma ilog2_less:
  assumes "0 < x" and "x < pow2 e"
  shows "ilog2 x < e"
  using ilog2_bounds [OF assms(1)] assms(2) by (meson le_less_trans pow2_less_cancel)

lemma ilog2_mono:
  assumes "0 < x" and "x \<le> y"
  shows "ilog2 x \<le> ilog2 y"
proof -
  have "0 < y" using assms by linarith
  then have "x < pow2 (ilog2 y + 1)"
    using assms(2) ilog2_bounds [of y] by linarith
  from ilog2_less [OF assms(1) this] show ?thesis by simp
qed

section \<open>Rounding is monotone and exact on doubles\<close>

lemma round_even_bounds: "\<lfloor>x\<rfloor> \<le> round_even x" "round_even x \<le> \<lfloor>x\<rfloor> + 1"
  by (simp_all add: round_even_def Let_def)

lemma round_even_of_int [simp]: "round_even (of_int n) = n"
  by (simp add: round_even_def)

lemma round_even_mono:
  assumes "x \<le> y"
  shows "round_even x \<le> round_even y"
proof (cases "\<lfloor>x\<rfloor> = \<lfloor>y\<rfloor>")
  case True
  with assms show ?thesis by (auto simp: round_even_def Let_def)
next
  case False
  with assms have "\<lfloor>x\<rfloor> + 1 \<le> \<lfloor>y\<rfloor>" using floor_mono [of x y] by linarith
  then show ?thesis using round_even_bounds [of x] round_even_bounds [of y] by linarith
qed

lemma round_even_le_int: "x \<le> of_int n \<Longrightarrow> round_even x \<le> n"
  using round_even_mono [of x "of_int n"] by simp

lemma round_even_ge_int: "of_int n \<le> x \<Longrightarrow> n \<le> round_even x"
  using round_even_mono [of "of_int n" x] by simp

lemma is_double_on_grid:
  assumes "is_double z" and "0 < z" and "ulp_exp x \<le> ulp_exp z"
  shows "\<exists>n. z = of_int n * pow2 (ulp_exp x)"
proof -
  obtain n e where z: "z = of_int n * pow2 e" "0 \<le> n" "n < 2 ^ 53" "-1074 \<le> e"
    using assms(1) by (auto simp: is_double_def)
  have "of_int n < (2 ^ 53 :: rat)"
    using z(3) by (metis of_int_less_iff of_int_numeral of_int_power)
  then have "z < 2 ^ 53 * pow2 e" using z(1) by simp
  also have "\<dots> = pow2 (53 + e)" by (simp add: pow2_add) (simp add: pow2_def)
  finally have "ilog2 z < 53 + e" by (rule ilog2_less [OF assms(2)])
  then have le: "ulp_exp x \<le> e" using assms(3) z(4) by (simp add: ulp_exp_def)
  then have "pow2 e = of_int (2 ^ nat (e - ulp_exp x)) * pow2 (ulp_exp x)"
    using pow2_add [of "e - ulp_exp x" "ulp_exp x"] by (simp add: pow2_of_nat)
  then have "z = of_int (n * 2 ^ nat (e - ulp_exp x)) * pow2 (ulp_exp x)"
    using z(1) by simp
  then show ?thesis by blast
qed

lemma round_mag_0 [simp]: "round_mag 0 = 0"
  by (simp add: round_mag_def)

lemma round_mag_le_double:
  assumes "is_double z" and "0 < x" and "x \<le> z"
  shows "round_mag x \<le> z"
proof -
  have z: "0 < z" using assms by linarith
  have "ulp_exp x \<le> ulp_exp z"
    using ilog2_mono [OF assms(2,3)] by (simp add: ulp_exp_def)
  with is_double_on_grid [OF assms(1) z] obtain n where n: "z = of_int n * pow2 (ulp_exp x)"
    by blast
  then have "x / pow2 (ulp_exp x) \<le> of_int n"
    using assms(3) by (simp add: pos_divide_le_eq)
  then have "round_even (x / pow2 (ulp_exp x)) \<le> n" by (rule round_even_le_int)
  then show ?thesis using assms(2) n by (simp add: round_mag_def)
qed

lemma round_mag_double:
  assumes "is_double z"
  shows "round_mag z = z"
proof (cases "0 < z")
  case True
  then obtain n where "z = of_int n * pow2 (ulp_exp z)"
    using is_double_on_grid [OF assms, of z] by blast
  then have "z / pow2 (ulp_exp z) = of_int n" by (metis nonzero_mult_div_cancel_right pow2_nonneg(2))
  then show ?thesis using True \<open>z = of_int n * _\<close> by (simp add: round_mag_def)
next
  case False
  with assms show ?thesis by (auto simp: is_double_def round_mag_def zero_less_mult_iff)
qed

lemma round_mag_is_double: "is_double (round_mag x)"
proof (cases "0 < x")
  case True
  let ?e = "ulp_exp x"
  let ?n = "round_even (x / pow2 ?e)"
  have "x < pow2 (ilog2 x + 1)" using ilog2_bounds [OF True] by blast
  also have "\<dots> \<le> pow2 (53 + ?e)" by (rule pow2_mono) (simp add: ulp_exp_def)
  also have "\<dots> = of_int (2 ^ 53) * pow2 ?e" by (simp add: pow2_add) (simp add: pow2_def)
  finally have "x / pow2 ?e \<le> of_int (2 ^ 53)" by (simp add: pos_divide_le_eq)
  then have n: "?n \<le> 2 ^ 53" by (rule round_even_le_int)
  have n0: "0 \<le> ?n" using True by (intro round_even_ge_int) simp
  have r: "round_mag x = of_int ?n * pow2 ?e" using True by (simp add: round_mag_def)
  show ?thesis
  proof (cases "?n = 2 ^ 53")
    case True
    have "of_int ?n * pow2 ?e = of_int (2 ^ 52) * pow2 (?e + 1)"
      unfolding True by (simp add: pow2_Suc)
    then show ?thesis unfolding r is_double_def
      by (intro exI [of _ "2 ^ 52"] exI [of _ "?e + 1"]) (simp add: ulp_exp_def)
  next
    case False
    with n n0 show ?thesis unfolding r is_double_def
      by (intro exI [of _ ?n] exI [of _ ?e]) (simp add: ulp_exp_def)
  qed
next
  case False
  then show ?thesis by (auto simp: is_double_def round_mag_def intro!: exI [of _ 0])
qed

lemma round_mag_nonneg [simp]: "0 \<le> round_mag x"
  using round_mag_is_double [of x] by (auto simp: is_double_def)

lemma round_mag_mono:
  assumes "x \<le> y"
  shows "round_mag x \<le> round_mag y"
proof (cases "0 < x")
  case True
  then have y: "0 < y" using assms by linarith
  have le: "ulp_exp x \<le> ulp_exp y" using ilog2_mono [OF True assms] by (simp add: ulp_exp_def)
  show ?thesis
  proof (cases "ulp_exp x = ulp_exp y")
    case eq: True
    have "x / pow2 (ulp_exp y) \<le> y / pow2 (ulp_exp y)" using assms by (simp add: divide_right_mono)
    then show ?thesis using True y eq by (simp add: round_mag_def round_even_mono mult_right_mono)
  next
    case False
    let ?z = "pow2 (ilog2 y)"
    have ey: "ulp_exp y = ilog2 y - 52" and lt: "ilog2 x < ilog2 y"
      using False le by (auto simp: ulp_exp_def)
    have z: "?z = of_int (2 ^ 52) * pow2 (ulp_exp y)"
      using pow2_add [of 52 "ulp_exp y"] by (simp add: ey) (simp add: pow2_def)
    then have "is_double ?z"
      unfolding is_double_def by (intro exI [of _ "2 ^ 52"] exI [of _ "ulp_exp y"]) (simp add: ulp_exp_def)
    moreover have "x \<le> ?z"
      using ilog2_bounds [OF True] pow2_mono [of "ilog2 x + 1" "ilog2 y"] lt by linarith
    ultimately have "round_mag x \<le> ?z" using True by (intro round_mag_le_double)
    also have "\<dots> \<le> round_mag y"
    proof -
      have "of_int (2 ^ 52) \<le> y / pow2 (ulp_exp y)"
        using ilog2_bounds [OF y] z by (simp add: pos_le_divide_eq)
      then have "2 ^ 52 \<le> round_even (y / pow2 (ulp_exp y))" by (rule round_even_ge_int)
      then have "(of_int (2 ^ 52) :: rat) \<le> of_int (round_even (y / pow2 (ulp_exp y)))"
        by (simp only: of_int_le_iff)
      then show ?thesis using y z by (simp add: round_mag_def mult_right_mono)
    qed
    finally show ?thesis .
  qed
next
  case False
  then show ?thesis by (simp add: round_mag_def [of x])
qed

lemma is_double_of_int:
  assumes "0 \<le> n" and "n \<le> 2 ^ 53"
  shows "is_double (of_int n)"
proof (cases "n = 2 ^ 53")
  case True
  then have "of_int n = of_int (2 ^ 52) * pow2 1" by (simp add: pow2_def)
  then show ?thesis unfolding is_double_def
    by (intro exI [of _ "2 ^ 52"] exI [of _ 1]) simp
next
  case False
  with assms show ?thesis unfolding is_double_def
    by (intro exI [of _ n] exI [of _ 0]) (simp add: pow2_def)
qed

lemma fl_is_double: "0 \<le> z \<Longrightarrow> is_double z \<Longrightarrow> z < pow2 1024 \<Longrightarrow> fl z = Fin z"
  by (simp add: fl_def round_mag_double)

lemma fl_le_double:
  assumes "0 \<le> x" and "x \<le> z" and "is_double z" and "z < pow2 1024"
  shows "\<exists>v. fl x = Fin v \<and> 0 \<le> v \<and> v \<le> z"
proof -
  have "round_mag x \<le> z"
    using round_mag_mono [OF assms(2)] round_mag_double [OF assms(3)] by simp
  then show ?thesis using assms by (simp add: fl_def)
qed

lemma f_of_int_exact:
  assumes "0 \<le> n" and "n \<le> 2 ^ 53"
  shows "f_of_int n = Fin (of_int n)"
proof -
  have "(of_int n :: rat) \<le> of_int (2 ^ 53)" using assms(2) by (simp only: of_int_le_iff)
  also have "\<dots> = pow2 53" by (simp add: pow2_def)
  also have "\<dots> < pow2 1024" by (simp add: pow2_def)
  finally show ?thesis
    using assms is_double_of_int [OF assms] by (simp add: f_of_int_def fl_is_double)
qed

lemma fl_Fin_double: "fl x = Fin v \<Longrightarrow> is_double \<bar>v\<bar> \<and> \<bar>v\<bar> < pow2 1024"
  using round_mag_is_double [of "\<bar>x\<bar>"] by (auto simp: fl_def Let_def split: if_splits)

lemma fl_Fin_mono:
  assumes "0 \<le> x" and "x \<le> y" and "fl x = Fin a" and "fl y = Fin b"
  shows "a \<le> b"
  using assms round_mag_mono [OF assms(2)] by (auto simp: fl_def Let_def split: if_splits)

text \<open>Rounding a number between two doubles stays between them.\<close>

lemma fl_between:
  assumes "is_double a" and "0 \<le> a" and "a \<le> x" and "x \<le> b" and "is_double b" and "b < pow2 1024"
  shows "\<exists>v. fl x = Fin v \<and> a \<le> v \<and> v \<le> b"
proof -
  obtain v where v: "fl x = Fin v" "v \<le> b"
    using fl_le_double [of x b] assms by auto
  have "fl a = Fin a" using assms by (intro fl_is_double) auto
  with fl_Fin_mono [OF assms(2,3) _ v(1)] v show ?thesis by blast
qed

lemma int_below_pow2_1024: "n \<le> 2 ^ 53 \<Longrightarrow> of_int n < pow2 1024"
proof -
  assume "n \<le> 2 ^ 53"
  then have "(of_int n :: rat) \<le> of_int (2 ^ 53)" by (simp only: of_int_le_iff)
  also have "\<dots> < pow2 1024" by (simp add: pow2_def)
  finally show ?thesis .
qed

lemma fl_Fin_nonneg: "0 \<le> x \<Longrightarrow> fl x = Fin v \<Longrightarrow> v = round_mag x"
  by (auto simp: fl_def Let_def split: if_splits)

text \<open>The seconds of a duration: two roundings, of the fraction and of the sum.\<close>

lemma dur_Seconds_parts:
  assumes "0 \<le> d" and "is_int64 d"
  defines "u \<equiv> round_mag (of_int (d mod second) / 1000000000)"
  shows "dur_Seconds d = fl (of_int (d div second) + u)" "0 \<le> u" "u \<le> 1"
    "0 \<le> d div second" "d div second \<le> 2 ^ 34"
proof -
  let ?sec = "d div second" and ?ns = "d mod second"
  have sgn: "sgn d * (\<bar>d\<bar> div second) = ?sec" "sgn d * (\<bar>d\<bar> mod second) = ?ns"
    using assms(1) by (auto simp: sgn_if)
  show sec0: "0 \<le> ?sec" using assms(1) by (simp add: second_def pos_imp_zdiv_nonneg_iff)
  have "?sec \<le> 2 ^ 63 div second"
    using assms(2) by (intro zdiv_mono1) (simp_all add: is_int64_def second_def)
  also have "\<dots> \<le> 2 ^ 34" by (simp add: second_def)
  finally show sec: "?sec \<le> 2 ^ 34" .
  have ns: "0 \<le> ?ns" "?ns < 1000000000" by (simp_all add: second_def)
  have one: "is_double 1" using is_double_of_int [of 1] by simp
  have "(of_int ?ns :: rat) < of_int 1000000000" using ns(2) by (simp only: of_int_less_iff)
  then have "(of_int ?ns :: rat) / 1000000000 \<le> 1" by simp
  then obtain v where v: "fl (of_int ?ns / 1000000000) = Fin v" "0 \<le> v" "v \<le> 1"
    using fl_le_double [of "of_int ?ns / 1000000000" 1] one ns(1) int_below_pow2_1024 [of 1] by auto
  then have u: "v = u" unfolding u_def using ns(1) by (intro fl_Fin_nonneg) simp
  with v show "0 \<le> u" "u \<le> 1" by simp_all
  have "f_of_int ?sec = Fin (of_int ?sec)" "f_of_int ?ns = Fin (of_int ?ns)"
    using sec0 sec ns by (auto intro!: f_of_int_exact)
  then show "dur_Seconds d = fl (of_int ?sec + u)"
    using v(1) u by (simp add: dur_Seconds_def sgn Let_def)
qed

lemma dur_Seconds_bounds:
  assumes "0 \<le> d" and "is_int64 d"
  shows "\<exists>v. dur_Seconds d = Fin v \<and> of_int (d div second) \<le> v \<and> v \<le> of_int (d div second + 1)"
proof -
  note p = dur_Seconds_parts [OF assms]
  have "is_double (of_int (d div second))" "is_double (of_int (d div second + 1))"
    by (rule is_double_of_int; use p in simp)+
  then show ?thesis
    unfolding p(1) using fl_between [of "of_int (d div second)" _ "of_int (d div second + 1)"] p(2-5)
      int_below_pow2_1024 [of "d div second + 1"] by auto
qed

lemma dur_Seconds_zero [simp]: "dur_Seconds 0 = Fin 0"
  by (simp add: dur_Seconds_def f_of_int_def fl_def round_mag_def not_le)

section \<open>The rounding error\<close>

lemma round_even_error: "of_int (round_even x) \<le> x + 1 / 2"
  by (simp add: round_even_def Let_def) linarith

lemma round_mag_error:
  assumes "0 \<le> x"
  shows "round_mag x \<le> x + x / 2 ^ 53 + 1 / 2 ^ 1075"
proof (cases "x = 0")
  case False
  with assms have x: "0 < x" by simp
  let ?e = "ulp_exp x"
  have "of_int (round_even (x / pow2 ?e)) * pow2 ?e \<le> (x / pow2 ?e + 1 / 2) * pow2 ?e"
    by (intro mult_right_mono round_even_error) simp
  then have le: "round_mag x \<le> x + pow2 ?e / 2" using x by (simp add: round_mag_def algebra_simps)
  show ?thesis
  proof (cases "?e = -1074")
    case True
    have "pow2 (-1074) / 2 = 1 / (2 :: rat) ^ 1075" by (simp add: pow2_def)
    moreover have "0 \<le> x / 2 ^ 53" using x by simp
    ultimately show ?thesis using le unfolding True by linarith
  next
    case False
    then have "?e = ilog2 x - 52" by (auto simp: ulp_exp_def max_def split: if_splits)
    then have "pow2 ?e = pow2 (ilog2 x) / pow2 52" by (simp add: pow2_diff)
    also have "\<dots> \<le> x / pow2 52" using ilog2_bounds [OF x] by (simp add: divide_right_mono)
    also have "\<dots> = x / 2 ^ 52" by (simp add: pow2_def)
    finally have "pow2 ?e / 2 \<le> x / 2 ^ 53" by simp
    moreover have "0 \<le> 1 / (2 :: rat) ^ 1075" by simp
    ultimately show ?thesis using le by linarith
  qed
qed (simp add: round_mag_def)

text \<open>The largest value rounding can make of a number up to \<open>x\<close>.\<close>

definition grow :: "rat \<Rightarrow> rat" where
  "grow x = x + x / 2 ^ 53 + 1 / 2 ^ 1075"

lemma grow_mono: "x \<le> y \<Longrightarrow> grow x \<le> grow y"
  by (simp add: grow_def divide_right_mono add_mono)

lemma round_mag_grow: "0 \<le> x \<Longrightarrow> x \<le> y \<Longrightarrow> round_mag x \<le> grow y"
  using round_mag_error [of x] grow_mono [of x y] by (simp add: grow_def)

lemma grow_nonneg: "0 \<le> x \<Longrightarrow> 0 \<le> grow x"
  by (simp add: grow_def)

lemma dur_Seconds_grow:
  assumes "0 \<le> d" and "is_int64 d" and "dur_Seconds d = Fin p"
  shows "p \<le> grow (grow (of_int d / 1000000000))"
proof -
  let ?sec = "d div second" and ?ns = "d mod second"
  note q = dur_Seconds_parts [OF assms(1,2)]
  have "?sec * 1000000000 + ?ns = d" using div_mult_mod_eq [of d second] by (simp add: second_def)
  then have "(of_int (?sec * 1000000000 + ?ns) :: rat) = of_int d" by (simp only:)
  then have A: "of_int d / 1000000000 = (of_int ?sec :: rat) + of_int ?ns / 1000000000"
    by (simp add: field_simps)
  have "round_mag (of_int ?ns / 1000000000) \<le> grow (of_int ?ns / 1000000000)"
    by (intro round_mag_grow) (simp_all add: second_def)
  then have "of_int ?sec + round_mag (of_int ?ns / 1000000000) \<le> grow (of_int d / 1000000000)"
    unfolding A using q(4) by (simp add: grow_def add_divide_distrib)
  moreover have "p = round_mag (of_int ?sec + round_mag (of_int ?ns / 1000000000))"
    using q assms(3) by (intro fl_Fin_nonneg) auto
  ultimately show ?thesis using q(2,4) by (auto intro: round_mag_grow)
qed

end
