(* ===== verification/Strconv_Float.thy ===== *)
theory Strconv_Float
  imports Go_Strings Float64
begin

text \<open>
  \<open>strconv.ParseFloat(s, 64)\<close> as the source calls it: the special values in any case, the
  decimal and hexadecimal grammar with the rule for underscores, correct rounding, and an
  error for bad syntax or for a value out of range. \<open>None\<close> is the error.
\<close>

definition rpow :: "rat \<Rightarrow> int \<Rightarrow> rat" where
  "rpow b e = (if 0 \<le> e then b ^ nat e else 1 / b ^ nat (- e))"

definition hex_letter :: "char \<Rightarrow> bool" where
  "hex_letter c \<longleftrightarrow> 97 \<le> (of_char (char_lower c) :: nat) \<and> (of_char (char_lower c) :: nat) \<le> 102"

definition strip_sign :: "string \<Rightarrow> string" where
  "strip_sign s = (if take 1 s = ''-'' \<or> take 1 s = ''+'' then drop 1 s else s)"

definition float_special :: "string \<Rightarrow> float64 option" where
  "float_special s =
     (let t = ascii_lower (strip_sign s)
      in if t = ''inf'' \<or> t = ''infinity''
         then Some (if take 1 s = ''-'' then NegInf else PosInf)
         else if ascii_lower s = ''nan'' then Some NaN else None)"

text \<open>The digits of the mantissa: digit seen, underscore seen, value, fraction digits, rest.\<close>

fun float_mantissa ::
    "int \<Rightarrow> bool \<Rightarrow> bool \<Rightarrow> bool \<Rightarrow> int \<Rightarrow> int \<Rightarrow> string \<Rightarrow> bool \<times> bool \<times> int \<times> int \<times> string" where
  "float_mantissa base dot dig us m fr [] = (dig, us, m, fr, [])"
| "float_mantissa base dot dig us m fr (c # s) =
     (if c = CHR ''_'' then float_mantissa base dot dig True m fr s
      else if c = CHR ''.'' then
        (if dot then (dig, us, m, fr, c # s) else float_mantissa base True dig us m fr s)
      else if is_digit c then
        float_mantissa base dot True us (base * m + digit_val c) (if dot then fr + 1 else fr) s
      else if base = 16 \<and> hex_letter c then
        float_mantissa base dot True us
          (base * m + (int (of_char (char_lower c)) - 87)) (if dot then fr + 1 else fr) s
      else (dig, us, m, fr, c # s))"

fun float_exp_digits :: "bool \<Rightarrow> int \<Rightarrow> string \<Rightarrow> bool \<times> int \<times> string" where
  "float_exp_digits us e [] = (us, e, [])"
| "float_exp_digits us e (c # s) =
     (if c = CHR ''_'' then float_exp_digits True e s
      else if is_digit c then float_exp_digits us (if e < 10000 then 10 * e + digit_val c else e) s
      else (us, e, c # s))"

text \<open>Exponent part, if any: underscore seen, whether present, its value, the rest.\<close>

definition float_exponent :: "char \<Rightarrow> bool \<Rightarrow> string \<Rightarrow> (bool \<times> bool \<times> int \<times> string) option" where
  "float_exponent expChar us s =
     (case s of
        [] \<Rightarrow> Some (us, False, 0, [])
      | c # t \<Rightarrow>
          if char_lower c = expChar then
            (let esign = (if take 1 t = ''-'' then -1 else 1); u = strip_sign t
             in case u of
                  [] \<Rightarrow> None
                | d # _ \<Rightarrow>
                    if is_digit d
                    then (case float_exp_digits us 0 u of
                            (us', e, rest) \<Rightarrow> Some (us', True, esign * e, rest))
                    else None)
          else Some (us, False, 0, s))"

datatype prev_char = PStart | PDigit | PUnder | POther

fun underscore_scan :: "bool \<Rightarrow> prev_char \<Rightarrow> string \<Rightarrow> bool" where
  "underscore_scan hex p [] = (p \<noteq> PUnder)"
| "underscore_scan hex p (c # s) =
     (if is_digit c \<or> (hex \<and> hex_letter c) then underscore_scan hex PDigit s
      else if c = CHR ''_'' then (p = PDigit \<and> underscore_scan hex PUnder s)
      else p \<noteq> PUnder \<and> underscore_scan hex POther s)"

definition underscoreOK :: "string \<Rightarrow> bool" where
  "underscoreOK s =
     (let t = strip_sign s
      in case t of
           z # b # r \<Rightarrow>
             if z = CHR ''0'' \<and> char_lower b \<in> {CHR ''b'', CHR ''o'', CHR ''x''}
             then underscore_scan (char_lower b = CHR ''x'') PDigit r
             else underscore_scan False PStart t
         | _ \<Rightarrow> underscore_scan False PStart t)"

text \<open>The number and its sign; the whole string must be used up.\<close>

definition readFloat :: "string \<Rightarrow> (bool \<times> rat) option" where
  "readFloat s =
     (let neg = (take 1 s = ''-''); t = strip_sign s;
          hex = (2 < length t \<and> t ! 0 = CHR ''0'' \<and> char_lower (t ! 1) = CHR ''x'');
          base = (if hex then 16 else 10);
          expChar = (if hex then CHR ''p'' else CHR ''e'')
      in case float_mantissa base False False False 0 0 (if hex then drop 2 t else t) of
           (dig, us, m, fr, rest) \<Rightarrow>
             if \<not> dig then None
             else case float_exponent expChar us rest of
                    None \<Rightarrow> None
                  | Some (us', present, e, rest') \<Rightarrow>
                      if hex \<and> \<not> present then None
                      else if us' \<and> \<not> underscoreOK s then None
                      else if rest' \<noteq> [] then None
                      else Some (neg, if hex then of_int m * rpow 2 (e - 4 * fr)
                                      else of_int m * rpow 10 (e - fr)))"

definition strconv_ParseFloat :: "string \<Rightarrow> float64 option" where
  "strconv_ParseFloat s =
     (case float_special s of
        Some v \<Rightarrow> Some v
      | None \<Rightarrow>
          (case readFloat s of
             None \<Rightarrow> None
           | Some (neg, x) \<Rightarrow>
               (let v = fl x
                in if v = PosInf then None else Some (if neg then f_neg v else v))))"

section \<open>Lemmas\<close>

lemma ParseFloat_empty [simp]: "strconv_ParseFloat '''' = None"
  by (simp add: strconv_ParseFloat_def float_special_def readFloat_def strip_sign_def
      ascii_lower_def Let_def)

lemma ParseFloat_NaN: "strconv_ParseFloat ''NaN'' = Some NaN"
  by code_simp

lemma ParseFloat_Inf: "strconv_ParseFloat ''+Inf'' = Some PosInf"
  by code_simp

end
