(* ===== verification/Market_Model.thy ===== *)
theory Market_Model
  imports Strconv_Float
begin

text \<open>
  \<open>internal/market/models.go\<close> and \<open>internal/market/validate.go\<close>: the domain types and
  the validation of a provider's answer. Prices are strings, as in the code; \<open>Validate\<close>
  parses them with \<open>strconv.ParseFloat\<close>. The wording of an error message is kept up to the
  text \<open>ParseFloat\<close> contributes to it, which is the parameter \<open>parse_err\<close>, and the
  text of a timestamp, the parameter \<open>show_time\<close>.
\<close>

record Coin =
  coin_ID :: int
  coin_Symbol :: string
  coin_Name :: string
  coin_ProviderSymbol :: string
  coin_IsActive :: bool
  coin_CreatedAt :: time
  coin_UpdatedAt :: time

record PriceSnapshot =
  ps_ID :: int
  ps_CoinID :: int
  ps_PriceUSD :: string
  ps_MarketCap :: string
  ps_Volume24h :: string
  ps_Change24h :: string
  ps_Provider :: string
  ps_CapturedAt :: time

record ProviderSyncLog =
  psl_ID :: int
  psl_Provider :: string
  psl_RequestDurationMs :: int
  psl_Status :: string
  psl_ErrorMessage :: "string option"
  psl_StartedAt :: time
  psl_FinishedAt :: "time option"

record MarketData =
  md_Symbol :: string
  md_PriceUSD :: string
  md_MarketCap :: string
  md_Volume24h :: string
  md_Change24h :: string
  md_Provider :: string
  md_FetchedAt :: time

record LatestMarketData =
  lmd_Symbol :: string
  lmd_Name :: string
  lmd_PriceUSD :: string
  lmd_MarketCap :: string
  lmd_Volume24h :: string
  lmd_Change24h :: string
  lmd_Provider :: string
  lmd_CapturedAt :: time

record ProviderStatus =
  pst_Provider :: string
  pst_LastSyncAt :: "time option"
  pst_LastDurationMs :: "int option"
  pst_LastStatus :: string
  pst_RecentFailures :: int

section \<open>Validation\<close>

definition maxFutureTimestamp :: duration where
  "maxFutureTimestamp = 5 * minute"

text \<open>
  A failed check returns the error and counts it under the provider and the field. The result
  of a check is the error, if any, and the registry.
\<close>

definition validation_failure ::
    "string \<Rightarrow> string \<Rightarrow> string \<Rightarrow> string \<Rightarrow> metrics \<Rightarrow> go_error option \<times> metrics" where
  "validation_failure provider field val msg m =
     (Some (ValidationErr field val msg), m_inc ''data_validation_failures_total'' [provider, field] m)"

definition validatePriceUSD ::
    "(string \<Rightarrow> string) \<Rightarrow> MarketData \<Rightarrow> metrics \<Rightarrow> go_error option \<times> metrics" where
  "validatePriceUSD parse_err d m =
     (if md_PriceUSD d = ''''
      then validation_failure (md_Provider d) ''price_usd'' (md_PriceUSD d)
             (''price_usd is required for '' @ md_Symbol d) m
      else case strconv_ParseFloat (md_PriceUSD d) of
             None \<Rightarrow>
               validation_failure (md_Provider d) ''price_usd'' (md_PriceUSD d)
                 (''invalid price_usd for '' @ md_Symbol d @ '': '' @ parse_err (md_PriceUSD d)) m
           | Some price \<Rightarrow>
               if f_le price (Fin 0)
               then validation_failure (md_Provider d) ''price_usd'' (md_PriceUSD d)
                      (''price must be greater than zero for '' @ md_Symbol d) m
               else (None, m))"

definition validateNonNegative ::
    "(string \<Rightarrow> string) \<Rightarrow> string \<Rightarrow> string \<Rightarrow> MarketData \<Rightarrow> metrics \<Rightarrow> go_error option \<times> metrics" where
  "validateNonNegative parse_err field val d m =
     (if val = '''' then (None, m)
      else case strconv_ParseFloat val of
             None \<Rightarrow>
               validation_failure (md_Provider d) field val
                 (''invalid '' @ field @ '' for '' @ md_Symbol d @ '': '' @ parse_err val) m
           | Some v \<Rightarrow>
               if f_less v (Fin 0)
               then validation_failure (md_Provider d) field val
                      (field @ '' cannot be negative for '' @ md_Symbol d) m
               else (None, m))"

definition validateOptionalMetrics ::
    "(string \<Rightarrow> string) \<Rightarrow> MarketData \<Rightarrow> metrics \<Rightarrow> go_error option \<times> metrics" where
  "validateOptionalMetrics parse_err d m =
     (case validateNonNegative parse_err ''market_cap'' (md_MarketCap d) d m of
        (Some e, m1) \<Rightarrow> (Some e, m1)
      | (None, m1) \<Rightarrow>
          (case validateNonNegative parse_err ''volume_24h'' (md_Volume24h d) d m1 of
             (Some e, m2) \<Rightarrow> (Some e, m2)
           | (None, m2) \<Rightarrow>
               if md_Change24h d \<noteq> '''' \<and> strconv_ParseFloat (md_Change24h d) = None
               then validation_failure (md_Provider d) ''change_24h'' (md_Change24h d)
                      (''invalid change_24h for '' @ md_Symbol d @ '': '' @ parse_err (md_Change24h d)) m2
               else (None, m2)))"

definition validateTimestamp ::
    "(time \<Rightarrow> string) \<Rightarrow> time \<Rightarrow> MarketData \<Rightarrow> metrics \<Rightarrow> go_error option \<times> metrics" where
  "validateTimestamp show_time now d m =
     (if \<not> time_IsZero (md_FetchedAt d) \<and> now + maxFutureTimestamp < md_FetchedAt d
      then validation_failure (md_Provider d) ''fetched_at'' (show_time (md_FetchedAt d))
             (''timestamp is too far in the future for '' @ md_Symbol d) m
      else (None, m))"

definition MarketData_Validate ::
    "(string \<Rightarrow> string) \<Rightarrow> (time \<Rightarrow> string) \<Rightarrow> time \<Rightarrow> MarketData \<Rightarrow> metrics
       \<Rightarrow> go_error option \<times> metrics" where
  "MarketData_Validate parse_err show_time now d m =
     (if md_Symbol d = ''''
      then validation_failure (md_Provider d) ''symbol'' (md_Symbol d) ''symbol is required'' m
      else case validatePriceUSD parse_err d m of
             (Some e, m1) \<Rightarrow> (Some e, m1)
           | (None, m1) \<Rightarrow>
               (case validateOptionalMetrics parse_err d m1 of
                  (Some e, m2) \<Rightarrow> (Some e, m2)
                | (None, m2) \<Rightarrow>
                    if md_Provider d = ''''
                    then validation_failure ''unknown'' ''provider'' (md_Provider d)
                           (''provider is required for '' @ md_Symbol d) m2
                    else validateTimestamp show_time now d m2))"

section \<open>Specification\<close>

text \<open>What a record that passes validation satisfies, with no reference to the order of the checks.\<close>

definition optional_number :: "(float64 \<Rightarrow> bool) \<Rightarrow> string \<Rightarrow> bool" where
  "optional_number P s \<longleftrightarrow>
     s = '''' \<or> (case strconv_ParseFloat s of None \<Rightarrow> False | Some v \<Rightarrow> P v)"

definition valid_market_data :: "time \<Rightarrow> MarketData \<Rightarrow> bool" where
  "valid_market_data now d \<longleftrightarrow>
     md_Symbol d \<noteq> '''' \<and> md_Provider d \<noteq> '''' \<and>
     (case strconv_ParseFloat (md_PriceUSD d) of None \<Rightarrow> False | Some p \<Rightarrow> \<not> f_le p (Fin 0)) \<and>
     optional_number (\<lambda>v. \<not> f_less v (Fin 0)) (md_MarketCap d) \<and>
     optional_number (\<lambda>v. \<not> f_less v (Fin 0)) (md_Volume24h d) \<and>
     optional_number (\<lambda>_. True) (md_Change24h d) \<and>
     (md_FetchedAt d = zero_time \<or> md_FetchedAt d \<le> now + maxFutureTimestamp)"

text \<open>A check counts its failure, once, under the provider and the field at fault.\<close>

definition counted_result :: "MarketData \<Rightarrow> metrics \<Rightarrow> go_error option \<times> metrics \<Rightarrow> bool" where
  "counted_result d m r \<longleftrightarrow>
     snd r = (case fst r of
                None \<Rightarrow> m
              | Some e \<Rightarrow> m_inc ''data_validation_failures_total''
                   [if ve_Field e = ''provider'' then ''unknown'' else md_Provider d, ve_Field e] m)"

text \<open>A sample record.\<close>

definition btc_data :: "string \<Rightarrow> MarketData" where
  "btc_data price =
     \<lparr>md_Symbol = ''BTC'', md_PriceUSD = price, md_MarketCap = '''', md_Volume24h = '''',
      md_Change24h = '''', md_Provider = ''coingecko'', md_FetchedAt = zero_time\<rparr>"

section \<open>Lemmas\<close>

named_theorems validate_defs \<open>the checks of MarketData.Validate\<close>

declare MarketData_Validate_def [validate_defs] validatePriceUSD_def [validate_defs]
  validateOptionalMetrics_def [validate_defs] validateNonNegative_def [validate_defs]
  validateTimestamp_def [validate_defs] validation_failure_def [validate_defs]

lemma validatePriceUSD_None:
  "fst (validatePriceUSD pe d m) = None \<longleftrightarrow>
     (case strconv_ParseFloat (md_PriceUSD d) of None \<Rightarrow> False | Some p \<Rightarrow> \<not> f_le p (Fin 0))"
  by (auto simp: validate_defs split: option.splits)

lemma validateNonNegative_None:
  "fst (validateNonNegative pe f v d m) = None \<longleftrightarrow> optional_number (\<lambda>v. \<not> f_less v (Fin 0)) v"
  by (auto simp: validate_defs optional_number_def split: option.splits)

lemma counted_validatePriceUSD: "counted_result d m (validatePriceUSD pe d m)"
  by (cases "strconv_ParseFloat (md_PriceUSD d)") (simp_all add: counted_result_def validate_defs)

lemma counted_validateNonNegative:
  "f \<noteq> ''provider'' \<Longrightarrow> counted_result d m (validateNonNegative pe f v d m)"
  by (cases "strconv_ParseFloat v") (simp_all add: counted_result_def validate_defs)

lemma counted_validateTimestamp: "counted_result d m (validateTimestamp st now d m)"
  by (simp add: counted_result_def validate_defs)

lemma counted_bind:
  assumes "counted_result d m r" and "fst r = None \<Longrightarrow> counted_result d m (g m)"
  shows "counted_result d m (case r of (Some e, m1) \<Rightarrow> (Some e, m1) | (None, m1) \<Rightarrow> g m1)"
  using assms by (cases r; cases "fst r") (auto simp: counted_result_def)

lemma bind_None:
  assumes "counted_result d m r"
  shows "fst (case r of (Some e, m1) \<Rightarrow> (Some e, m1) | (None, m1) \<Rightarrow> g m1) = None
           \<longleftrightarrow> fst r = None \<and> fst (g m) = None"
  using assms by (cases r; cases "fst r") (auto simp: counted_result_def)

lemma counted_market_cap: "counted_result d m (validateNonNegative pe ''market_cap'' v d m)"
  and counted_volume: "counted_result d m (validateNonNegative pe ''volume_24h'' v d m)"
  by (simp_all add: counted_validateNonNegative)

lemma counted_validateOptionalMetrics: "counted_result d m (validateOptionalMetrics pe d m)"
  unfolding validateOptionalMetrics_def
  by (intro counted_bind counted_market_cap counted_volume)
    (simp add: counted_result_def validation_failure_def)

lemma counted_MarketData_Validate: "counted_result d m (MarketData_Validate pe st now d m)"
proof (cases "md_Symbol d = ''''")
  case True
  then show ?thesis
    by (simp add: MarketData_Validate_def validation_failure_def counted_result_def)
next
  case False
  have "counted_result d m (if md_Provider d = ''''
      then validation_failure ''unknown'' ''provider'' (md_Provider d) msg m
      else validateTimestamp st now d m)" for msg
    by (simp add: counted_validateTimestamp) (simp add: counted_result_def validation_failure_def)
  with False show ?thesis
    unfolding MarketData_Validate_def
    by (simp only: if_False) (intro counted_bind counted_validatePriceUSD counted_validateOptionalMetrics)
qed

lemma validateOptionalMetrics_None:
  "fst (validateOptionalMetrics pe d m) = None \<longleftrightarrow>
     optional_number (\<lambda>v. \<not> f_less v (Fin 0)) (md_MarketCap d) \<and>
     optional_number (\<lambda>v. \<not> f_less v (Fin 0)) (md_Volume24h d) \<and>
     optional_number (\<lambda>_. True) (md_Change24h d)"
  unfolding validateOptionalMetrics_def bind_None [OF counted_market_cap] bind_None [OF counted_volume]
    validateNonNegative_None
  by (auto simp: validation_failure_def optional_number_def [of "\<lambda>_. True"] split: option.splits)

lemma validateTimestamp_None:
  "fst (validateTimestamp st now d m) = None \<longleftrightarrow>
     md_FetchedAt d = zero_time \<or> md_FetchedAt d \<le> now + maxFutureTimestamp"
  by (auto simp: validate_defs time_IsZero_def)

lemma MarketData_Validate_None:
  "fst (MarketData_Validate pe st now d m) = None \<longleftrightarrow> valid_market_data now d"
proof (cases "md_Symbol d = ''''")
  case True
  then show ?thesis
    by (simp add: MarketData_Validate_def valid_market_data_def validation_failure_def)
next
  case False
  have rest: "fst (if md_Provider d = ''''
      then validation_failure ''unknown'' ''provider'' (md_Provider d) msg m
      else validateTimestamp st now d m) = None \<longleftrightarrow> md_Provider d \<noteq> '''' \<and>
      (md_FetchedAt d = zero_time \<or> md_FetchedAt d \<le> now + maxFutureTimestamp)" for msg
    by (simp add: validateTimestamp_None) (simp add: validation_failure_def)
  from False show ?thesis
    unfolding MarketData_Validate_def valid_market_data_def
    by (simp only: if_False bind_None [OF counted_validatePriceUSD]
        bind_None [OF counted_validateOptionalMetrics] rest validatePriceUSD_None
        validateOptionalMetrics_None) blast
qed

section \<open>Properties\<close>


text \<open>
  The check that the price is positive does not stop a price that is not a number:
  \<open>NaN\<close> and \<open>+Inf\<close> parse, no comparison with zero rejects them, and the record is
  accepted as valid market data.
\<close>

theorem Validate_accepts_NaN_price:
  "fst (MarketData_Validate parse_err show_time now (btc_data ''NaN'') m) = None \<and>
   fst (MarketData_Validate parse_err show_time now (btc_data ''+Inf'') m) = None"
  by (simp add: MarketData_Validate_None valid_market_data_def btc_data_def optional_number_def
      ParseFloat_NaN ParseFloat_Inf f_le_def)

end
