(* ===== verification/Freshness.thy ===== *)
theory Freshness
  imports Market_Model
begin

text \<open>
  \<open>internal/market/freshness.go\<close>: how old the latest data of each symbol is. Clock
  readings are arguments. \<open>range\<close> visits the map in the order of the association list;
  the summary is shown not to depend on it. The gauges are cells of the registry that
  \<open>Summary\<close> and \<open>UpdateMetrics\<close> return.
\<close>

datatype FreshnessState = FreshnessFresh | FreshnessDelayed | FreshnessStale | FreshnessUnknown

fun FreshnessState_string :: "FreshnessState \<Rightarrow> string" where
  "FreshnessState_string FreshnessFresh = ''fresh''"
| "FreshnessState_string FreshnessDelayed = ''delayed''"
| "FreshnessState_string FreshnessStale = ''stale''"
| "FreshnessState_string FreshnessUnknown = ''unknown''"

record FreshnessConfig =
  FreshThreshold :: duration
  StaleThreshold :: duration

definition DefaultFreshnessConfig :: FreshnessConfig where
  "DefaultFreshnessConfig = \<lparr>FreshThreshold = 120 * second, StaleThreshold = 300 * second\<rparr>"

record FreshnessTracker =
  ft_config :: FreshnessConfig
  ft_lastUpdate :: "(string, time) gomap"

definition NewFreshnessTracker :: "FreshnessConfig \<Rightarrow> FreshnessTracker" where
  "NewFreshnessTracker config = \<lparr>ft_config = config, ft_lastUpdate = []\<rparr>"

definition RecordUpdate :: "string \<Rightarrow> time \<Rightarrow> FreshnessTracker \<Rightarrow> FreshnessTracker" where
  "RecordUpdate symbol timestamp ft =
     ft\<lparr>ft_lastUpdate := gm_put symbol timestamp (ft_lastUpdate ft)\<rparr>"

definition stateFor :: "string \<Rightarrow> time \<Rightarrow> FreshnessTracker \<Rightarrow> FreshnessState" where
  "stateFor symbol now ft =
     (case gm_get (ft_lastUpdate ft) symbol of
        None \<Rightarrow> FreshnessUnknown
      | Some lastUpdate \<Rightarrow>
          (let age = time_Sub now lastUpdate
           in if age \<le> FreshThreshold (ft_config ft) then FreshnessFresh
              else if age \<le> StaleThreshold (ft_config ft) then FreshnessDelayed
              else FreshnessStale))"

definition Freshness_State :: "string \<Rightarrow> time \<Rightarrow> FreshnessTracker \<Rightarrow> FreshnessState" where
  "Freshness_State symbol now ft = stateFor symbol now ft"

definition Age :: "string \<Rightarrow> time \<Rightarrow> FreshnessTracker \<Rightarrow> duration" where
  "Age symbol now ft =
     (case gm_get (ft_lastUpdate ft) symbol of
        None \<Rightarrow> -1
      | Some lastUpdate \<Rightarrow> time_Sub now lastUpdate)"

record FreshnessSummary =
  fs_Total :: int
  fs_Fresh :: int
  fs_Delayed :: int
  fs_Stale :: int
  fs_Unknown :: int
  fs_OldestAge :: "duration option"
  fs_OverallState :: FreshnessState

text \<open>One round of the loop; \<open>hasOldest\<close> and \<open>oldestAge\<close> are the option \<open>fs_OldestAge\<close>.\<close>

definition summary_step ::
    "FreshnessTracker \<Rightarrow> time \<Rightarrow> string \<times> time \<Rightarrow> FreshnessSummary \<Rightarrow> FreshnessSummary" where
  "summary_step ft now kv s =
     (let s1 = (case stateFor (fst kv) now ft of
                  FreshnessFresh \<Rightarrow> s\<lparr>fs_Fresh := fs_Fresh s + 1\<rparr>
                | FreshnessDelayed \<Rightarrow> s\<lparr>fs_Delayed := fs_Delayed s + 1\<rparr>
                | FreshnessStale \<Rightarrow> s\<lparr>fs_Stale := fs_Stale s + 1\<rparr>
                | FreshnessUnknown \<Rightarrow> s\<lparr>fs_Unknown := fs_Unknown s + 1\<rparr>);
          age = time_Sub now (snd kv)
      in case fs_OldestAge s1 of
           None \<Rightarrow> s1\<lparr>fs_OldestAge := Some age\<rparr>
         | Some oldest \<Rightarrow> if oldest < age then s1\<lparr>fs_OldestAge := Some age\<rparr> else s1)"

definition overall_state :: "FreshnessSummary \<Rightarrow> FreshnessState" where
  "overall_state s =
     (if 0 < fs_Stale s then FreshnessStale
      else if 0 < fs_Delayed s then FreshnessDelayed
      else if 0 < fs_Fresh s then FreshnessFresh
      else FreshnessUnknown)"

definition Summary :: "time \<Rightarrow> FreshnessTracker \<Rightarrow> metrics \<Rightarrow> FreshnessSummary \<times> metrics" where
  "Summary now ft m =
     (let s0 = \<lparr>fs_Total = int (length (ft_lastUpdate ft)), fs_Fresh = 0, fs_Delayed = 0, fs_Stale = 0,
                fs_Unknown = 0, fs_OldestAge = None, fs_OverallState = FreshnessUnknown\<rparr>;
          s1 = fold (summary_step ft now) (ft_lastUpdate ft) s0;
          s2 = s1\<lparr>fs_OverallState := overall_state s1\<rparr>
      in (s2, m_set ''data_stale_symbols_count'' [] (fs_Stale s2) m))"

fun freshness_value :: "FreshnessState \<Rightarrow> int" where
  "freshness_value FreshnessFresh = 0"
| "freshness_value FreshnessDelayed = 1"
| "freshness_value FreshnessStale = 2"
| "freshness_value FreshnessUnknown = 3"

definition UpdateMetrics :: "time \<Rightarrow> FreshnessTracker \<Rightarrow> metrics \<Rightarrow> metrics" where
  "UpdateMetrics now ft m =
     fold (\<lambda>(symbol, _) m. m_set ''data_freshness_status'' [symbol]
             (freshness_value (stateFor symbol now ft)) m) (ft_lastUpdate ft) m"

definition FreshnessComplianceRatio :: "time \<Rightarrow> FreshnessTracker \<Rightarrow> metrics \<Rightarrow> float64 \<times> metrics" where
  "FreshnessComplianceRatio now ft m =
     (case Summary now ft m of
        (summary, m1) \<Rightarrow>
          if fs_Total summary = 0 then (Fin 1, m1)
          else (f_div (f_of_int (fs_Fresh summary)) (f_of_int (fs_Total summary)), m1))"

section \<open>Specification\<close>

text \<open>The symbols in a given state, and the summary they determine whatever the order of the map.\<close>

definition symbols_in :: "FreshnessState \<Rightarrow> time \<Rightarrow> FreshnessTracker \<Rightarrow> string set" where
  "symbols_in st now ft = {s \<in> fst ` set (ft_lastUpdate ft). stateFor s now ft = st}"

definition worst_state :: "FreshnessState set \<Rightarrow> FreshnessState" where
  "worst_state S =
     (if FreshnessStale \<in> S then FreshnessStale
      else if FreshnessDelayed \<in> S then FreshnessDelayed
      else if FreshnessFresh \<in> S then FreshnessFresh
      else FreshnessUnknown)"

definition ft_inv :: "FreshnessTracker \<Rightarrow> bool" where
  "ft_inv ft \<longleftrightarrow> gm_wf (ft_lastUpdate ft)"

text \<open>The summary of a map, for any order of its entries.\<close>

definition summary_spec :: "time \<Rightarrow> FreshnessTracker \<Rightarrow> FreshnessSummary \<Rightarrow> bool" where
  "summary_spec now ft s \<longleftrightarrow>
     fs_Fresh s = int (card (symbols_in FreshnessFresh now ft)) \<and>
     fs_Delayed s = int (card (symbols_in FreshnessDelayed now ft)) \<and>
     fs_Stale s = int (card (symbols_in FreshnessStale now ft)) \<and>
     fs_Unknown s = 0 \<and>
     fs_Total s = fs_Fresh s + fs_Delayed s + fs_Stale s \<and>
     fs_OldestAge s =
       (if ft_lastUpdate ft = [] then None
        else Some (Max ((\<lambda>(_, t). time_Sub now t) ` set (ft_lastUpdate ft)))) \<and>
     fs_OverallState s = worst_state ((\<lambda>(k, _). stateFor k now ft) ` set (ft_lastUpdate ft))"

definition record_all :: "(string \<times> time) list \<Rightarrow> FreshnessTracker \<Rightarrow> FreshnessTracker" where
  "record_all ups ft = fold (\<lambda>(s, t). RecordUpdate s t) ups ft"

section \<open>Lemmas\<close>

lemma RecordUpdate_inv: "ft_inv ft \<Longrightarrow> ft_inv (RecordUpdate s t ft)"
  by (simp add: ft_inv_def RecordUpdate_def)

interpretation ftm: machine "\<lambda>(s, t). RecordUpdate s t" "\<lambda>ft. \<exists>c. ft = NewFreshnessTracker c" ft_inv
  by unfold_locales (auto simp: RecordUpdate_inv, simp add: ft_inv_def NewFreshnessTracker_def)

lemma stateFor_known: "(s, t) \<in> set (ft_lastUpdate ft) \<Longrightarrow> stateFor s now ft \<noteq> FreshnessUnknown"
  by (auto simp: stateFor_def Let_def gm_get_None_iff split: option.splits) force

text \<open>What the loop has counted after a prefix of the map.\<close>

lemma summary_step_counts:
  "fs_Fresh (fold (summary_step ft now) kvs s)
     = fs_Fresh s + int (length (filter (\<lambda>(k, _). stateFor k now ft = FreshnessFresh) kvs))"
  "fs_Delayed (fold (summary_step ft now) kvs s)
     = fs_Delayed s + int (length (filter (\<lambda>(k, _). stateFor k now ft = FreshnessDelayed) kvs))"
  "fs_Stale (fold (summary_step ft now) kvs s)
     = fs_Stale s + int (length (filter (\<lambda>(k, _). stateFor k now ft = FreshnessStale) kvs))"
  "fs_Unknown (fold (summary_step ft now) kvs s)
     = fs_Unknown s + int (length (filter (\<lambda>(k, _). stateFor k now ft = FreshnessUnknown) kvs))"
  "fs_Total (fold (summary_step ft now) kvs s) = fs_Total s"
  by (induction kvs arbitrary: s)
    (auto simp: summary_step_def Let_def split: FreshnessState.splits option.splits)

lemma summary_step_oldest:
  "fs_OldestAge (fold (summary_step ft now) kvs s)
     = (case fs_OldestAge s of
          None \<Rightarrow> if kvs = [] then None else Some (Max ((\<lambda>(_, t). time_Sub now t) ` set kvs))
        | Some a \<Rightarrow> Some (Max (insert a ((\<lambda>(_, t). time_Sub now t) ` set kvs))))"
proof (induction kvs arbitrary: s)
  case (Cons kv kvs)
  have "fs_OldestAge (summary_step ft now kv s)
      = Some (case fs_OldestAge s of None \<Rightarrow> time_Sub now (snd kv)
              | Some a \<Rightarrow> max a (time_Sub now (snd kv)))"
    by (auto simp: summary_step_def Let_def split: FreshnessState.splits option.splits)
  with Cons show ?case
    by (cases kvs) (auto simp: split_beta max.assoc split: option.splits)
qed (auto split: option.splits)

lemma count_symbols:
  assumes "gm_wf m"
  shows "length (filter (\<lambda>(k, _). P k) m) = card {k \<in> fst ` set m. P k}"
proof -
  have "distinct (map fst (filter (\<lambda>(k, _). P k) m))"
    using assms by (simp add: gm_wf_def distinct_map_filter)
  moreover have "set (map fst (filter (\<lambda>(k, _). P k) m)) = {k \<in> fst ` set m. P k}" by force
  ultimately show ?thesis by (metis distinct_card length_map)
qed

lemma some_in_state:
  "0 < length (filter (\<lambda>(k, _). stateFor k now ft = st) kvs)
     \<longleftrightarrow> st \<in> (\<lambda>(k, _). stateFor k now ft) ` set kvs"
  by (induction kvs) auto

lemma length_by_state:
  assumes "\<forall>kv \<in> set kvs. stateFor (fst kv) now ft \<noteq> FreshnessUnknown"
  shows "length kvs = length (filter (\<lambda>(k, _). stateFor k now ft = FreshnessFresh) kvs)
     + length (filter (\<lambda>(k, _). stateFor k now ft = FreshnessDelayed) kvs)
     + length (filter (\<lambda>(k, _). stateFor k now ft = FreshnessStale) kvs)"
  using assms
proof (induction kvs)
  case (Cons kv kvs)
  then show ?case by (cases "stateFor (fst kv) now ft") (auto simp: split_beta)
qed simp

lemma Summary_spec:
  assumes "ft_inv ft"
  shows "summary_spec now ft (fst (Summary now ft m))"
proof -
  let ?kvs = "ft_lastUpdate ft"
  have known: "\<forall>kv \<in> set ?kvs. stateFor (fst kv) now ft \<noteq> FreshnessUnknown"
    using stateFor_known by fastforce
  have wf: "gm_wf ?kvs" using assms by (simp add: ft_inv_def)
  have none: "filter (\<lambda>(k, _). stateFor k now ft = FreshnessUnknown) ?kvs = []"
    using known by (auto simp: filter_empty_conv)
  have worst: "overall_state (fold (summary_step ft now) ?kvs s)
      = worst_state ((\<lambda>(k, _). stateFor k now ft) ` set ?kvs)"
    if "fs_Stale s = 0" "fs_Delayed s = 0" "fs_Fresh s = 0" for s
    using that
    by (simp add: overall_state_def worst_state_def summary_step_counts some_in_state
        del: length_greater_0_conv)
  show ?thesis
    using length_by_state [OF known] none
    by (simp add: summary_spec_def Summary_def Let_def summary_step_counts summary_step_oldest worst
        symbols_in_def count_symbols [OF wf])
qed

lemma record_all_inv: "ft_inv (record_all ups (NewFreshnessTracker c))"
  unfolding record_all_def using ftm.reachable_inv [of "NewFreshnessTracker c" ups] by auto

lemma Summary_ratio_range:
  assumes "ft_inv ft"
  shows "0 \<le> fs_Fresh (fst (Summary now ft m)) \<and>
    fs_Fresh (fst (Summary now ft m)) \<le> fs_Total (fst (Summary now ft m)) \<and>
    fs_Total (fst (Summary now ft m)) = int (length (ft_lastUpdate ft))"
  using Summary_spec [OF assms, of now m]
  by (auto simp: summary_spec_def) (simp add: Summary_def Let_def summary_step_counts)

lemma record_all_length: "length (ft_lastUpdate (record_all ups (NewFreshnessTracker c))) \<le> length ups"
proof -
  have "length (ft_lastUpdate (record_all ups ft)) \<le> length (ft_lastUpdate ft) + length ups" for ft
  proof (induction ups arbitrary: ft)
    case (Cons u ups)
    have "length (ft_lastUpdate (RecordUpdate (fst u) (snd u) ft)) \<le> Suc (length (ft_lastUpdate ft))"
      by (simp add: RecordUpdate_def gm_length_put)
    moreover have "record_all (u # ups) ft = record_all ups (RecordUpdate (fst u) (snd u) ft)"
      by (simp add: record_all_def split_beta)
    ultimately show ?case using Cons [of "RecordUpdate (fst u) (snd u) ft"] by simp
  qed (simp add: record_all_def)
  from this [of "NewFreshnessTracker c"] show ?thesis by (simp add: NewFreshnessTracker_def)
qed

lemma ratio_of_ints:
  assumes "0 \<le> a" and "a \<le> b" and "b \<le> 2 ^ 53" and "b \<noteq> 0"
  shows "\<exists>r. f_div (f_of_int a) (f_of_int b) = Fin r \<and> 0 \<le> r \<and> r \<le> 1"
proof -
  have one: "is_double 1" "(1::rat) < pow2 1024"
    using is_double_of_int [of 1] by (simp_all add: pow2_def)
  have "0 \<le> of_int a / (of_int b :: rat)" "of_int a / of_int b \<le> (1::rat)"
    using assms by (simp_all add: divide_le_eq)
  from fl_le_double [OF this one] show ?thesis
    using assms by (simp add: f_of_int_exact)
qed

section \<open>Properties\<close>

text \<open>
  Data only gets older: unless a symbol is updated, its state never moves from stale to
  delayed or from delayed to fresh as time passes, whatever the thresholds are.
\<close>

theorem freshness_never_improves:
  assumes "now \<le> now'"
  shows "freshness_value (stateFor s now ft) \<le> freshness_value (stateFor s now' ft)"
  using time_Sub_mono [OF assms]
  by (auto simp: stateFor_def Let_def split: option.splits) (meson order_trans)+

theorem freshness_never_improves_witness:
  "freshness_value (stateFor ''BTC'' (200 * second) (RecordUpdate ''BTC'' 0 (NewFreshnessTracker DefaultFreshnessConfig)))
     \<le> 2 \<and> 1 \<le> freshness_value (stateFor ''BTC'' (301 * second)
                 (RecordUpdate ''BTC'' 0 (NewFreshnessTracker DefaultFreshnessConfig)))"
proof -
  let ?ft = "RecordUpdate ''BTC'' 0 (NewFreshnessTracker DefaultFreshnessConfig)"
  have "freshness_value (stateFor ''BTC'' (200 * second) ?ft)
      \<le> freshness_value (stateFor ''BTC'' (301 * second) ?ft)"
    by (rule freshness_never_improves) (simp add: time_defs)
  moreover have "freshness_value (stateFor ''BTC'' (200 * second) ?ft) = 1"
    by (simp add: stateFor_def RecordUpdate_def NewFreshnessTracker_def DefaultFreshnessConfig_def
        gm_simps Let_def time_defs)
  ultimately show ?thesis by simp
qed

text \<open>
  The summary is right whatever order the map is visited in: after any updates each symbol
  is counted once under its state, the counts add up to the total, the overall state is the
  worst one present, and the oldest age is the maximum.
\<close>

theorem freshness_summary:
  "summary_spec now (record_all ups (NewFreshnessTracker c))
     (fst (Summary now (record_all ups (NewFreshnessTracker c)) m))"
  by (intro Summary_spec record_all_inv)

text \<open>
  The compliance ratio is a finite number between 0 and 1 for any number of symbols up to
  \<open>2^53\<close>, and 1 when nothing was recorded.
\<close>

theorem compliance_ratio_bounds:
  assumes "length ups < 2 ^ 53"
  shows "\<exists>r. fst (FreshnessComplianceRatio now (record_all ups (NewFreshnessTracker c)) m) = Fin r \<and>
           0 \<le> r \<and> r \<le> 1"
proof -
  let ?ft = "record_all ups (NewFreshnessTracker c)"
  let ?s = "fst (Summary now ?ft m)"
  have "fs_Total ?s \<le> 2 ^ 53" "0 \<le> fs_Fresh ?s" "fs_Fresh ?s \<le> fs_Total ?s"
    using Summary_ratio_range [OF record_all_inv, of now ups c m] record_all_length [of ups c] assms
    by auto
  then show ?thesis
    using ratio_of_ints [of "fs_Fresh ?s" "fs_Total ?s"]
    by (auto simp: FreshnessComplianceRatio_def split_beta)
qed

theorem compliance_ratio_bounds_witness:
  "\<exists>r. fst (FreshnessComplianceRatio 5 (record_all [(''BTC'', 1), (''ETH'', 2)]
        (NewFreshnessTracker DefaultFreshnessConfig)) m_empty) = Fin r \<and> 0 \<le> r \<and> r \<le> 1"
  by (rule compliance_ratio_bounds) simp

end
