(* ===== verification/Anomaly.thy ===== *)
theory Anomaly
  imports Market_Model
begin

text \<open>
  \<open>internal/market/anomaly.go\<close>: the anomaly detector. Every method runs under the
  detector's lock (\<open>CheckMissingAssets\<close> takes none) and is one operation; clock readings
  are arguments in the order the code makes them, read or not. Prices are \<open>float64\<close> with
  rounding. The counter cells are the field \<open>ad_metrics\<close>. \<open>consecutiveCount\<close> is part
  of the state but no method touches it.
\<close>

datatype AnomalyType =
    AnomalyPriceDivergence
  | AnomalyTimestampRegression
  | AnomalyUnchangedPrice
  | AnomalyMissingAssets
  | AnomalyHighLatency
  | AnomalySustainedFallback

fun AnomalyType_string :: "AnomalyType \<Rightarrow> string" where
  "AnomalyType_string AnomalyPriceDivergence = ''price_divergence''"
| "AnomalyType_string AnomalyTimestampRegression = ''timestamp_regression''"
| "AnomalyType_string AnomalyUnchangedPrice = ''unchanged_price''"
| "AnomalyType_string AnomalyMissingAssets = ''missing_assets''"
| "AnomalyType_string AnomalyHighLatency = ''high_latency''"
| "AnomalyType_string AnomalySustainedFallback = ''sustained_fallback''"

record AnomalyConfig =
  PriceDivergenceThreshold :: float64
  UnchangedPriceDuration :: duration
  HighLatencyThreshold :: duration
  SustainedFallbackDuration :: duration
  ConsecutiveEventThreshold :: int

definition DefaultAnomalyConfig :: AnomalyConfig where
  "DefaultAnomalyConfig =
     \<lparr>PriceDivergenceThreshold = Fin 5, UnchangedPriceDuration = 10 * minute,
      HighLatencyThreshold = 5 * second, SustainedFallbackDuration = 5 * minute,
      ConsecutiveEventThreshold = 3\<rparr>"

record Anomaly =
  an_Type :: AnomalyType
  an_Provider :: string
  an_Symbol :: string
  an_Message :: string
  an_DetectedAt :: time
  an_Value :: float64

record priceRecord =
  pr_price :: float64
  pr_provider :: string
  pr_timestamp :: time

record AnomalyDetector =
  ad_config :: AnomalyConfig
  ad_lastPrices :: "(string, priceRecord) gomap"
  ad_lastTimestamps :: "(string, time) gomap"
  ad_fallbackStart :: time
  ad_consecutiveCount :: "(string, int) gomap"
  ad_recentAnomalies :: "Anomaly list"
  ad_metrics :: metrics

definition NewAnomalyDetector :: "AnomalyConfig \<Rightarrow> AnomalyDetector" where
  "NewAnomalyDetector config =
     \<lparr>ad_config = config, ad_lastPrices = [], ad_lastTimestamps = [], ad_fallbackStart = zero_time,
      ad_consecutiveCount = [], ad_recentAnomalies = [], ad_metrics = m_empty\<rparr>"

section \<open>Helpers\<close>

definition f_abs :: "float64 \<Rightarrow> float64" where
  "f_abs x = (if f_less x (Fin 0) then f_neg x else x)"

definition recordAnomaly :: "Anomaly \<Rightarrow> AnomalyDetector \<Rightarrow> AnomalyDetector" where
  "recordAnomaly anomaly ad =
     (let recent = ad_recentAnomalies ad @ [anomaly];
          recent' = (if 100 < length recent then drop (length recent - 100) recent else recent)
      in ad\<lparr>ad_metrics := m_inc ''anomaly_detected_total''
                            [AnomalyType_string (an_Type anomaly), an_Provider anomaly] (ad_metrics ad),
            ad_recentAnomalies := recent'\<rparr>)"

definition report :: "Anomaly \<Rightarrow> AnomalyDetector \<Rightarrow> Anomaly option \<times> AnomalyDetector" where
  "report anomaly ad = (Some anomaly, recordAnomaly anomaly ad)"

section \<open>Checks\<close>

definition divergence :: "float64 \<Rightarrow> float64 \<Rightarrow> float64" where
  "divergence price lastPrice =
     f_mul (f_div (f_abs (f_sub price lastPrice)) (f_div (f_add price lastPrice) (Fin 2))) (Fin 100)"

definition CheckPriceDivergence ::
    "string \<Rightarrow> string \<Rightarrow> float64 \<Rightarrow> time \<Rightarrow> AnomalyDetector \<Rightarrow> Anomaly option \<times> AnomalyDetector" where
  "CheckPriceDivergence symbol provider price now ad =
     (let key = symbol;
          update = ad\<lparr>ad_lastPrices :=
            gm_put key \<lparr>pr_price = price, pr_provider = provider, pr_timestamp = now\<rparr> (ad_lastPrices ad)\<rparr>
      in case gm_get (ad_lastPrices ad) key of
           None \<Rightarrow> (None, update)
         | Some lastRecord \<Rightarrow>
             if pr_provider lastRecord \<noteq> provider \<and>
                f_less (Fin 0) (f_div (f_add price (pr_price lastRecord)) (Fin 2)) \<and>
                f_less (PriceDivergenceThreshold (ad_config ad)) (divergence price (pr_price lastRecord))
             then report
                    \<lparr>an_Type = AnomalyPriceDivergence, an_Provider = provider, an_Symbol = symbol,
                     an_Message = ''Price divergence between providers exceeds threshold'',
                     an_DetectedAt = now, an_Value = divergence price (pr_price lastRecord)\<rparr> ad
             else (None, update))"

definition CheckTimestampRegression ::
    "string \<Rightarrow> string \<Rightarrow> time \<Rightarrow> time \<Rightarrow> AnomalyDetector \<Rightarrow> Anomaly option \<times> AnomalyDetector" where
  "CheckTimestampRegression symbol provider timestamp now ad =
     (let key = symbol @ '':'' @ provider;
          regressed = (case gm_get (ad_lastTimestamps ad) key of
                         None \<Rightarrow> False | Some lastTs \<Rightarrow> timestamp < lastTs)
      in if regressed
         then (case report
                      \<lparr>an_Type = AnomalyTimestampRegression, an_Provider = provider, an_Symbol = symbol,
                       an_Message = ''Timestamp regression detected'', an_DetectedAt = now,
                       an_Value = Fin 0\<rparr> ad of
                 (a, ad1) \<Rightarrow>
                   (a, ad1\<lparr>ad_lastTimestamps := gm_put key timestamp (ad_lastTimestamps ad1)\<rparr>))
         else (None, ad\<lparr>ad_lastTimestamps := gm_put key timestamp (ad_lastTimestamps ad)\<rparr>))"

definition CheckUnchangedPrice ::
    "string \<Rightarrow> string \<Rightarrow> float64 \<Rightarrow> time \<Rightarrow> time \<Rightarrow> AnomalyDetector
       \<Rightarrow> Anomaly option \<times> AnomalyDetector" where
  "CheckUnchangedPrice symbol provider price now1 now2 ad =
     (let key = symbol @ '':'' @ provider
      in case gm_get (ad_lastPrices ad) key of
           None \<Rightarrow> (None, ad)
         | Some lastRecord \<Rightarrow>
             if f_eq (pr_price lastRecord) price \<and> pr_provider lastRecord = provider \<and>
                UnchangedPriceDuration (ad_config ad) < time_Sub now1 (pr_timestamp lastRecord)
             then report
                    \<lparr>an_Type = AnomalyUnchangedPrice, an_Provider = provider, an_Symbol = symbol,
                     an_Message = ''Price unchanged for unusually long duration'',
                     an_DetectedAt = now2,
                     an_Value = dur_Seconds (time_Sub now1 (pr_timestamp lastRecord))\<rparr> ad
             else (None, ad))"

definition missing_assets :: "string list \<Rightarrow> string list \<Rightarrow> string list" where
  "missing_assets expectedSymbols receivedSymbols =
     (let received = fold (\<lambda>s m. gm_put s True m) receivedSymbols []
      in filter (\<lambda>s. \<not> gm_true received s) expectedSymbols)"

definition CheckMissingAssets ::
    "string \<Rightarrow> string list \<Rightarrow> string list \<Rightarrow> time \<Rightarrow> AnomalyDetector
       \<Rightarrow> Anomaly option \<times> AnomalyDetector" where
  "CheckMissingAssets provider expectedSymbols receivedSymbols now ad =
     (let missing = missing_assets expectedSymbols receivedSymbols
      in if 0 < length missing
         then report
                \<lparr>an_Type = AnomalyMissingAssets, an_Provider = provider, an_Symbol = '''',
                 an_Message = ''Missing assets from provider response'', an_DetectedAt = now,
                 an_Value = f_of_int (int (length missing))\<rparr> ad
         else (None, ad))"

definition CheckHighLatency ::
    "string \<Rightarrow> duration \<Rightarrow> time \<Rightarrow> AnomalyDetector \<Rightarrow> Anomaly option \<times> AnomalyDetector" where
  "CheckHighLatency provider latency now ad =
     (if HighLatencyThreshold (ad_config ad) < latency
      then report
             \<lparr>an_Type = AnomalyHighLatency, an_Provider = provider, an_Symbol = '''',
              an_Message = ''Provider response latency above threshold'', an_DetectedAt = now,
              an_Value = dur_Seconds latency\<rparr> ad
      else (None, ad))"

definition RecordFallbackStart :: "time \<Rightarrow> AnomalyDetector \<Rightarrow> AnomalyDetector" where
  "RecordFallbackStart now ad =
     (if time_IsZero (ad_fallbackStart ad) then ad\<lparr>ad_fallbackStart := now\<rparr> else ad)"

definition RecordFallbackEnd :: "AnomalyDetector \<Rightarrow> AnomalyDetector" where
  "RecordFallbackEnd ad = ad\<lparr>ad_fallbackStart := zero_time\<rparr>"

definition CheckSustainedFallback ::
    "string \<Rightarrow> time \<Rightarrow> time \<Rightarrow> AnomalyDetector \<Rightarrow> Anomaly option \<times> AnomalyDetector" where
  "CheckSustainedFallback activeProvider now1 now2 ad =
     (if \<not> time_IsZero (ad_fallbackStart ad) \<and>
         SustainedFallbackDuration (ad_config ad) < time_Sub now1 (ad_fallbackStart ad)
      then report
             \<lparr>an_Type = AnomalySustainedFallback, an_Provider = activeProvider, an_Symbol = '''',
              an_Message = ''Sustained fallback usage detected'', an_DetectedAt = now2,
              an_Value = dur_Seconds (time_Sub now1 (ad_fallbackStart ad))\<rparr> ad
      else (None, ad))"

definition RecentAnomalies :: "int \<Rightarrow> AnomalyDetector \<Rightarrow> Anomaly list" where
  "RecentAnomalies limit ad =
     (let n = int (length (ad_recentAnomalies ad));
          limit' = (if limit \<le> 0 \<or> n < limit then n else limit);
          start = n - limit'
      in take (nat limit') (drop (nat start) (ad_recentAnomalies ad)))"

section \<open>Runs\<close>

datatype ad_op =
    DivergenceOp string string float64 time
  | RegressionOp string string time time
  | UnchangedOp string string float64 time time
  | MissingOp string "string list" "string list" time
  | LatencyOp string duration time
  | FallbackStartOp time
  | FallbackEndOp
  | SustainedOp string time time

fun ad_step :: "ad_op \<Rightarrow> AnomalyDetector \<Rightarrow> Anomaly option \<times> AnomalyDetector" where
  "ad_step (DivergenceOp s p x t) ad = CheckPriceDivergence s p x t ad"
| "ad_step (RegressionOp s p ts t) ad = CheckTimestampRegression s p ts t ad"
| "ad_step (UnchangedOp s p x t1 t2) ad = CheckUnchangedPrice s p x t1 t2 ad"
| "ad_step (MissingOp p es rs t) ad = CheckMissingAssets p es rs t ad"
| "ad_step (LatencyOp p d t) ad = CheckHighLatency p d t ad"
| "ad_step (FallbackStartOp t) ad = (None, RecordFallbackStart t ad)"
| "ad_step FallbackEndOp ad = (None, RecordFallbackEnd ad)"
| "ad_step (SustainedOp p t1 t2) ad = CheckSustainedFallback p t1 t2 ad"

text \<open>A run with the anomalies it reported, in order.\<close>

fun ad_run :: "ad_op list \<Rightarrow> AnomalyDetector \<Rightarrow> Anomaly list \<times> AnomalyDetector" where
  "ad_run [] ad = ([], ad)"
| "ad_run (x # xs) ad =
     (case ad_step x ad of
        (a, ad1) \<Rightarrow> (case ad_run xs ad1 of (as, ad2) \<Rightarrow> (case a of None \<Rightarrow> as | Some y \<Rightarrow> y # as, ad2)))"

definition last_n :: "nat \<Rightarrow> 'a list \<Rightarrow> 'a list" where
  "last_n n xs = rev (take n (rev xs))"

text \<open>The symbol an operation is about.\<close>

fun ad_op_symbol :: "ad_op \<Rightarrow> string" where
  "ad_op_symbol (DivergenceOp s p x t) = s"
| "ad_op_symbol (UnchangedOp s p x t1 t2) = s"
| "ad_op_symbol _ = ''''"

section \<open>Lemmas\<close>

named_theorems check_defs \<open>the checks of the detector\<close>

declare CheckPriceDivergence_def [check_defs] CheckTimestampRegression_def [check_defs]
  CheckUnchangedPrice_def [check_defs] CheckMissingAssets_def [check_defs]
  CheckHighLatency_def [check_defs] CheckSustainedFallback_def [check_defs]
  RecordFallbackStart_def [check_defs] RecordFallbackEnd_def [check_defs] report_def [check_defs]

lemma last_n_drop: "last_n n xs = drop (length xs - n) xs"
  by (simp add: last_n_def rev_take)

lemma last_n_length: "length (last_n n xs) \<le> n"
  by (simp add: last_n_def)

lemma recordAnomaly_recent:
  "ad_recentAnomalies (recordAnomaly a ad) = last_n 100 (ad_recentAnomalies ad @ [a])"
  by (simp add: recordAnomaly_def last_n_drop Let_def)

lemma recordAnomaly_other [simp]:
  "ad_config (recordAnomaly a ad) = ad_config ad"
  "ad_lastPrices (recordAnomaly a ad) = ad_lastPrices ad"
  "ad_lastTimestamps (recordAnomaly a ad) = ad_lastTimestamps ad"
  "ad_fallbackStart (recordAnomaly a ad) = ad_fallbackStart ad"
  by (simp_all add: recordAnomaly_def Let_def)

lemma last_n_last_n: "last_n n (last_n n xs @ ys) = last_n n (xs @ ys)"
  by (simp add: last_n_def)

lemma last_n_short: "length xs \<le> n \<Longrightarrow> last_n n xs = xs"
  by (simp add: last_n_def)

lemma ad_step_recent:
  "ad_recentAnomalies (snd (ad_step x ad))
     = (case fst (ad_step x ad) of
          None \<Rightarrow> ad_recentAnomalies ad
        | Some a \<Rightarrow> last_n 100 (ad_recentAnomalies ad @ [a]))"
  by (cases x) (auto simp: check_defs Let_def recordAnomaly_recent split: option.splits)

lemma ad_run_recent:
  assumes "length (ad_recentAnomalies ad) \<le> 100"
  shows "ad_recentAnomalies (snd (ad_run xs ad)) = last_n 100 (ad_recentAnomalies ad @ fst (ad_run xs ad))"
  using assms
proof (induction xs arbitrary: ad)
  case Nil
  then show ?case by (simp add: last_n_short)
next
  case (Cons x xs)
  let ?ad = "snd (ad_step x ad)"
  have "length (ad_recentAnomalies ?ad) \<le> 100"
    using Cons.prems last_n_length by (simp only: ad_step_recent split: option.split) blast
  from Cons.IH [OF this] show ?case
    by (simp add: split_beta ad_step_recent last_n_last_n split: option.split)
qed

lemma RecentAnomalies_last_n:
  "RecentAnomalies limit ad
     = (if limit \<le> 0 then ad_recentAnomalies ad else last_n (nat limit) (ad_recentAnomalies ad))"
  by (auto simp: RecentAnomalies_def last_n_drop Let_def nat_diff_distrib')

lemma last_n_min: "last_n m (last_n n xs) = last_n (min m n) xs"
  by (simp add: last_n_def)

text \<open>Every price is stored under a symbol of a divergence check.\<close>

lemma ad_step_prices:
  "fst ` set (ad_lastPrices (snd (ad_step x ad)))
     \<subseteq> insert (ad_op_symbol x) (fst ` set (ad_lastPrices ad))"
  by (cases x) (auto simp: check_defs Let_def gm_keys_put split: option.splits)

lemma ad_run_prices:
  "fst ` set (ad_lastPrices (snd (ad_run xs ad))) \<subseteq> ad_op_symbol ` set xs \<union> fst ` set (ad_lastPrices ad)"
proof (induction xs arbitrary: ad)
  case (Cons x xs)
  show ?case
    using Cons.IH [of "snd (ad_step x ad)"] ad_step_prices [of x ad] by (auto simp: split_beta)
qed simp

lemma fl_minus: "fl (- x) = f_neg (fl x)"
  using pow2_pos [of 1024] by (auto simp: fl_def Let_def round_mag_def simp del: pow2_pos)

lemma f_abs_neg [simp]: "f_abs (f_neg x) = f_abs x"
  by (cases x) (auto simp: f_abs_def)

lemma f_neg_neg [simp]: "f_neg (f_neg x) = x"
  by (cases x) auto

lemma f_add_commute: "f_add x y = f_add y x"
  by (cases x; cases y) (simp_all add: add.commute)

lemma f_sub_swap: "f_sub y x = f_neg (f_sub x y)"
  by (cases x; cases y) (auto simp: f_sub_def fl_minus [symmetric])

lemma divergence_commute: "divergence x y = divergence y x"
  by (simp add: divergence_def f_sub_swap [of y x] f_add_commute [of y x])

lemma ad_step_fallback:
  assumes "ad_fallbackStart ad = t0" and "t0 \<noteq> 0" and "x \<noteq> FallbackEndOp"
  shows "ad_fallbackStart (snd (ad_step x ad)) = t0"
  using assms
  by (cases x) (auto simp: check_defs Let_def time_IsZero_def zero_time_def split: option.splits)

lemma ad_run_fallback:
  assumes "ad_fallbackStart ad = t0" and "t0 \<noteq> 0" and "FallbackEndOp \<notin> set xs"
  shows "ad_fallbackStart (snd (ad_run xs ad)) = t0"
  using assms
proof (induction xs arbitrary: ad)
  case (Cons x xs)
  then have "ad_fallbackStart (snd (ad_step x ad)) = t0" by (intro ad_step_fallback) auto
  then show ?case using Cons.IH Cons.prems by (simp add: split_beta)
qed simp

lemma ad_step_config: "ad_config (snd (ad_step x ad)) = ad_config ad"
  by (cases x) (auto simp: check_defs Let_def split: option.splits)

lemma ad_run_config: "ad_config (snd (ad_run xs ad)) = ad_config ad"
  by (induction xs arbitrary: ad) (auto simp: split_beta ad_step_config)

section \<open>Properties\<close>

text \<open>
  Every anomaly a check reports is recorded, in order, and nothing else is: after any
  sequence of checks on a new detector the log holds the last 100 reported anomalies, and
  \<open>RecentAnomalies\<close> returns the last \<open>limit\<close> of them (all of them for a limit that is not
  positive).
\<close>

theorem recent_anomalies_log:
  "ad_recentAnomalies (snd (ad_run ops (NewAnomalyDetector c)))
     = last_n 100 (fst (ad_run ops (NewAnomalyDetector c))) \<and>
   RecentAnomalies limit (snd (ad_run ops (NewAnomalyDetector c)))
     = last_n (if limit \<le> 0 then 100 else min (nat limit) 100)
         (fst (ad_run ops (NewAnomalyDetector c)))"
  using ad_run_recent [of "NewAnomalyDetector c" ops]
  by (simp add: RecentAnomalies_last_n last_n_min NewAnomalyDetector_def)

text \<open>
  An unchanged price is never reported: prices are stored under the bare symbol and looked up
  under \<open>symbol:provider\<close>, so for symbols without a colon no sequence of checks makes
  \<open>CheckUnchangedPrice\<close> report anything.
\<close>

theorem unchanged_price_never_reported:
  assumes "\<forall>x \<in> set ops. CHR '':'' \<notin> set (ad_op_symbol x)" 
  shows "fst (CheckUnchangedPrice symbol provider price now1 now2
           (snd (ad_run ops (NewAnomalyDetector c)))) = None"
proof -
  have "fst ` set (ad_lastPrices (snd (ad_run ops (NewAnomalyDetector c)))) \<subseteq> ad_op_symbol ` set ops"
    using ad_run_prices [of ops "NewAnomalyDetector c"] by (simp add: NewAnomalyDetector_def)
  moreover have "symbol @ '':'' @ provider \<notin> ad_op_symbol ` set ops"
  proof
    assume "symbol @ '':'' @ provider \<in> ad_op_symbol ` set ops"
    then obtain x where "x \<in> set ops" "ad_op_symbol x = symbol @ '':'' @ provider" by auto
    with assms show False by fastforce
  qed
  ultimately have "symbol @ '':'' @ provider
      \<notin> fst ` set (ad_lastPrices (snd (ad_run ops (NewAnomalyDetector c))))" by blast
  then show ?thesis by (simp add: CheckUnchangedPrice_def Let_def gm_get_None_iff [symmetric])
qed

theorem unchanged_price_never_reported_witness:
  "fst (CheckUnchangedPrice ''BTC'' ''coincap'' (Fin 1) (60 * minute) (60 * minute)
     (snd (ad_run [DivergenceOp ''BTC'' ''coincap'' (Fin 1) 0] (NewAnomalyDetector DefaultAnomalyConfig))))
     = None"
  by (rule unchanged_price_never_reported) simp

text \<open>
  Price divergence does not depend on which of two providers reported first: the rounded
  percentage is symmetric in the two prices, so the check of either price against the other
  reports in both cases or in neither, with the same value.
\<close>

theorem divergence_symmetric:
  assumes "p \<noteq> q"
  shows "map_option an_Value (fst (CheckPriceDivergence s q y t2
             (snd (CheckPriceDivergence s p x t1 (NewAnomalyDetector c)))))
       = map_option an_Value (fst (CheckPriceDivergence s p x t4
             (snd (CheckPriceDivergence s q y t3 (NewAnomalyDetector c)))))"
  using assms
  by (auto simp: check_defs NewAnomalyDetector_def Let_def gm_simps divergence_commute [of y x]
      f_add_commute [of y x])

theorem divergence_symmetric_witness:
  "map_option an_Value (fst (CheckPriceDivergence ''BTC'' ''coincap'' (Fin 90) 2
             (snd (CheckPriceDivergence ''BTC'' ''coingecko'' (Fin 100) 1 (NewAnomalyDetector DefaultAnomalyConfig)))))
   = map_option an_Value (fst (CheckPriceDivergence ''BTC'' ''coingecko'' (Fin 100) 4
             (snd (CheckPriceDivergence ''BTC'' ''coincap'' (Fin 90) 3 (NewAnomalyDetector DefaultAnomalyConfig)))))"
  by (rule divergence_symmetric) simp

text \<open>
  Fallback is timed from its first start: after a start at \<open>t0\<close> and any checks and further
  starts but no end, sustained fallback is reported exactly when more than the configured
  duration has passed since \<open>t0\<close>.
\<close>

theorem sustained_fallback_timing:
  assumes "ad_fallbackStart ad = zero_time" and "t0 \<noteq> zero_time" and "FallbackEndOp \<notin> set ops"
  shows "fst (CheckSustainedFallback p now1 now2 (snd (ad_run ops (RecordFallbackStart t0 ad)))) \<noteq> None
           \<longleftrightarrow> SustainedFallbackDuration (ad_config ad) < time_Sub now1 t0"
  using assms ad_run_fallback [of "RecordFallbackStart t0 ad" t0 ops]
    ad_run_config [of ops "RecordFallbackStart t0 ad"]
  by (simp add: check_defs time_IsZero_def zero_time_def)

theorem sustained_fallback_timing_witness:
  "fst (CheckSustainedFallback ''coincap'' (1 + 6 * minute) 0
     (snd (ad_run [LatencyOp ''coincap'' (9 * second) 3, FallbackStartOp (4 * minute)]
        (RecordFallbackStart 1 (NewAnomalyDetector DefaultAnomalyConfig))))) \<noteq> None"
  by (subst sustained_fallback_timing)
    (simp_all add: NewAnomalyDetector_def DefaultAnomalyConfig_def time_defs zero_time_def)

end
