(* ===== verification/Circuit_Breaker.thy ===== *)
theory Circuit_Breaker
  imports Go_Prelude
begin

text \<open>
  \<open>internal/resilience/circuitbreaker.go\<close>: the breaker itself and the \<open>Manager\<close>
  that keeps one breaker per provider.

  \<^item> \<open>nowFunc\<close> is read at most twice per operation; every reading is an argument, in
    the order the code reads the clock.
  \<^item> Each section the code runs under \<open>cb.mu\<close> is one operation. \<open>Execute\<close> holds the
    lock twice, before and after the call of \<open>fn\<close>: its two sections are
    \<open>Execute_begin\<close> and \<open>Execute_end\<close>, and \<open>Execute\<close> is the whole method with
    no other goroutine in between. A run over \<open>cb_op\<close> is any interleaving.
  \<^item> The Prometheus cells with this breaker's name label are the field \<open>cb_metrics\<close>.
\<close>

section \<open>States and configuration\<close>

datatype CircuitState = StateClosed | StateOpen | StateHalfOpen

fun CircuitState_String :: "CircuitState \<Rightarrow> string" where
  "CircuitState_String StateClosed = ''closed''"
| "CircuitState_String StateOpen = ''open''"
| "CircuitState_String StateHalfOpen = ''half-open''"

text \<open>The numeric value of the \<open>iota\<close> constants, written to the state gauge.\<close>

fun CircuitState_code :: "CircuitState \<Rightarrow> int" where
  "CircuitState_code StateClosed = 0"
| "CircuitState_code StateOpen = 1"
| "CircuitState_code StateHalfOpen = 2"

record CircuitBreakerConfig =
  FailureThreshold :: int
  OpenDuration :: duration
  SuccessThreshold :: int
  cbc_Name :: string

definition DefaultCircuitBreakerConfig :: "string \<Rightarrow> CircuitBreakerConfig" where
  "DefaultCircuitBreakerConfig name =
     \<lparr>FailureThreshold = 5, OpenDuration = 30 * second, SuccessThreshold = 2, cbc_Name = name\<rparr>"

record CircuitBreaker =
  cb_config :: CircuitBreakerConfig
  cb_state :: CircuitState
  cb_failures :: int
  cb_successes :: int
  cb_lastFailure :: time
  cb_openedAt :: time
  cb_metrics :: metrics

section \<open>Operations\<close>

definition NewCircuitBreaker :: "CircuitBreakerConfig \<Rightarrow> CircuitBreaker" where
  "NewCircuitBreaker config =
     \<lparr>cb_config = config, cb_state = StateClosed, cb_failures = 0, cb_successes = 0,
      cb_lastFailure = zero_time, cb_openedAt = zero_time,
      cb_metrics = m_set ''circuit_breaker_state'' [cbc_Name config] 0 m_empty\<rparr>"

definition transitionTo :: "CircuitState \<Rightarrow> time \<Rightarrow> CircuitBreaker \<Rightarrow> CircuitBreaker" where
  "transitionTo newState now cb =
     (if cb_state cb = newState then cb
      else
        let name = cbc_Name (cb_config cb);
            from = CircuitState_String (cb_state cb);
            to = CircuitState_String newState;
            cb1 = cb\<lparr>cb_state := newState,
                     cb_metrics :=
                       m_inc ''circuit_breaker_transitions_total'' [name, from, to]
                         (m_set ''circuit_breaker_state'' [name] (CircuitState_code newState)
                           (cb_metrics cb))\<rparr>
        in case newState of
             StateClosed \<Rightarrow> cb1\<lparr>cb_failures := 0, cb_successes := 0\<rparr>
           | StateOpen \<Rightarrow> cb1\<lparr>cb_openedAt := now, cb_successes := 0\<rparr>
           | StateHalfOpen \<Rightarrow> cb1\<lparr>cb_successes := 0\<rparr>)"

definition currentState :: "time \<Rightarrow> CircuitBreaker \<Rightarrow> CircuitState \<times> CircuitBreaker" where
  "currentState now cb =
     (let cb' = (if cb_state cb = StateOpen
                 then (if OpenDuration (cb_config cb) \<le> time_Sub now (cb_openedAt cb)
                       then transitionTo StateHalfOpen now cb else cb)
                 else cb)
      in (cb_state cb', cb'))"

definition State :: "time \<Rightarrow> CircuitBreaker \<Rightarrow> CircuitState \<times> CircuitBreaker" where
  "State now cb = currentState now cb"

definition onSuccess :: "time \<Rightarrow> CircuitBreaker \<Rightarrow> CircuitBreaker" where
  "onSuccess now cb =
     (case cb_state cb of
        StateClosed \<Rightarrow> cb\<lparr>cb_failures := 0\<rparr>
      | StateHalfOpen \<Rightarrow>
          (let cb1 = cb\<lparr>cb_successes := wrap64 (cb_successes cb + 1)\<rparr>
           in if SuccessThreshold (cb_config cb1) \<le> cb_successes cb1
              then transitionTo StateClosed now cb1 else cb1)
      | StateOpen \<Rightarrow> cb)"

definition onFailure :: "time \<Rightarrow> time \<Rightarrow> CircuitBreaker \<Rightarrow> CircuitBreaker" where
  "onFailure now1 now2 cb0 =
     (let cb = cb0\<lparr>cb_lastFailure := now1\<rparr>
      in case cb_state cb of
           StateClosed \<Rightarrow>
             (let cb1 = cb\<lparr>cb_failures := wrap64 (cb_failures cb + 1)\<rparr>
              in if FailureThreshold (cb_config cb1) \<le> cb_failures cb1
                 then transitionTo StateOpen now2 cb1 else cb1)
         | StateHalfOpen \<Rightarrow> transitionTo StateOpen now2 cb
         | StateOpen \<Rightarrow> cb)"

definition RecordSuccess :: "time \<Rightarrow> CircuitBreaker \<Rightarrow> CircuitBreaker" where
  "RecordSuccess now cb = onSuccess now cb"

definition RecordFailure :: "time \<Rightarrow> time \<Rightarrow> CircuitBreaker \<Rightarrow> CircuitBreaker" where
  "RecordFailure now1 now2 cb = onFailure now1 now2 cb"

definition cb_count_request :: "string \<Rightarrow> CircuitBreaker \<Rightarrow> CircuitBreaker" where
  "cb_count_request result cb =
     cb\<lparr>cb_metrics := m_inc ''circuit_breaker_requests_total''
                        [cbc_Name (cb_config cb), result] (cb_metrics cb)\<rparr>"

text \<open>The section before the call: whether \<open>fn\<close> may run.\<close>

definition Execute_begin :: "time \<Rightarrow> CircuitBreaker \<Rightarrow> bool \<times> CircuitBreaker" where
  "Execute_begin now cb =
     (case currentState now cb of
        (st, cb1) \<Rightarrow>
          if st = StateOpen then (False, cb_count_request ''rejected'' cb1)
          else (True, cb_count_request ''attempted'' cb1))"

text \<open>The section after the call, for the error (or none) that \<open>fn\<close> returned.\<close>

definition Execute_end ::
    "go_error option \<Rightarrow> time \<Rightarrow> time \<Rightarrow> CircuitBreaker \<Rightarrow> go_error option \<times> CircuitBreaker" where
  "Execute_end err now1 now2 cb =
     (case err of
        Some e \<Rightarrow> (Some e, cb_count_request ''failure'' (onFailure now1 now2 cb))
      | None \<Rightarrow> (None, cb_count_request ''success'' (onSuccess now1 cb)))"

definition Execute ::
    "time \<Rightarrow> time \<Rightarrow> time \<Rightarrow> ('w \<Rightarrow> go_error option \<times> 'w) \<Rightarrow> CircuitBreaker \<Rightarrow> 'w
       \<Rightarrow> go_error option \<times> CircuitBreaker \<times> 'w" where
  "Execute now now1 now2 fn cb w =
     (case Execute_begin now cb of
        (False, cb1) \<Rightarrow> (Some ErrCircuitOpen, cb1, w)
      | (True, cb1) \<Rightarrow>
          (case fn w of
             (err, w1) \<Rightarrow>
               (case Execute_end err now1 now2 cb1 of (err', cb2) \<Rightarrow> (err', cb2, w1))))"

definition Failures :: "CircuitBreaker \<Rightarrow> int" where
  "Failures cb = cb_failures cb"

definition CircuitBreaker_Name :: "CircuitBreaker \<Rightarrow> string" where
  "CircuitBreaker_Name cb = cbc_Name (cb_config cb)"

definition CircuitBreaker_String :: "time \<Rightarrow> CircuitBreaker \<Rightarrow> string \<times> CircuitBreaker" where
  "CircuitBreaker_String now cb =
     (case State now cb of
        (st, cb1) \<Rightarrow>
          (''CircuitBreaker['' @ cbc_Name (cb_config cb) @ '': '' @ CircuitState_String st @ '']'', cb1))"

section \<open>The manager\<close>

record Manager =
  mgr_breakers :: "(string, CircuitBreaker) gomap"
  mgr_config :: CircuitBreakerConfig

definition NewManager :: "CircuitBreakerConfig \<Rightarrow> Manager" where
  "NewManager defaultConfig = \<lparr>mgr_breakers = [], mgr_config = defaultConfig\<rparr>"

definition Manager_Get :: "string \<Rightarrow> Manager \<Rightarrow> CircuitBreaker \<times> Manager" where
  "Manager_Get name m =
     (case gm_get (mgr_breakers m) name of
        Some cb \<Rightarrow> (cb, m)
      | None \<Rightarrow>
          (let cfg = (mgr_config m)\<lparr>cbc_Name := name\<rparr>;
               cb = NewCircuitBreaker cfg
           in (cb, m\<lparr>mgr_breakers := gm_put name cb (mgr_breakers m)\<rparr>)))"

text \<open>
  The manager stores pointers, so a method called on the breaker \<open>Get\<close> returned changes the
  breaker the manager holds: the changed breaker is written back under its name.
\<close>

definition Manager_write :: "string \<Rightarrow> CircuitBreaker \<Rightarrow> Manager \<Rightarrow> Manager" where
  "Manager_write name cb m = m\<lparr>mgr_breakers := gm_put name cb (mgr_breakers m)\<rparr>"

text \<open>\<open>States\<close> calls \<open>State\<close> on every breaker, which may move it to half-open.\<close>

fun Manager_States_loop ::
    "(string \<Rightarrow> time) \<Rightarrow> (string, CircuitBreaker) gomap
       \<Rightarrow> (string, string) gomap \<times> (string, CircuitBreaker) gomap" where
  "Manager_States_loop now [] = ([], [])"
| "Manager_States_loop now ((name, cb) # rest) =
     (case State (now name) cb of
        (st, cb1) \<Rightarrow>
          (case Manager_States_loop now rest of
             (states, rest1) \<Rightarrow> ((name, CircuitState_String st) # states, (name, cb1) # rest1)))"

definition Manager_States ::
    "(string \<Rightarrow> time) \<Rightarrow> Manager \<Rightarrow> (string, string) gomap \<times> Manager" where
  "Manager_States now m =
     (case Manager_States_loop now (mgr_breakers m) of
        (states, bs) \<Rightarrow> (states, m\<lparr>mgr_breakers := bs\<rparr>))"

section \<open>Runs\<close>

datatype cb_op =
    OpState time
  | OpBegin time
  | OpEnd "go_error option" time time
  | OpRecordSuccess time
  | OpRecordFailure time time

fun cb_step :: "cb_op \<Rightarrow> CircuitBreaker \<Rightarrow> CircuitBreaker" where
  "cb_step (OpState now) cb = snd (State now cb)"
| "cb_step (OpBegin now) cb = snd (Execute_begin now cb)"
| "cb_step (OpEnd err now1 now2) cb = snd (Execute_end err now1 now2 cb)"
| "cb_step (OpRecordSuccess now) cb = RecordSuccess now cb"
| "cb_step (OpRecordFailure now1 now2) cb = RecordFailure now1 now2 cb"

section \<open>Invariant\<close>

definition cbc_wf :: "CircuitBreakerConfig \<Rightarrow> bool" where
  "cbc_wf c \<longleftrightarrow> is_int64 (FailureThreshold c) \<and> is_int64 (SuccessThreshold c)"

definition cb_inv :: "CircuitBreaker \<Rightarrow> bool" where
  "cb_inv cb \<longleftrightarrow>
     cbc_wf (cb_config cb) \<and>
     0 \<le> cb_failures cb \<and> cb_failures cb \<le> max 1 (FailureThreshold (cb_config cb)) \<and>
     0 \<le> cb_successes cb \<and>
     (case cb_state cb of
        StateClosed \<Rightarrow>
          cb_successes cb = 0 \<and> cb_failures cb < max 1 (FailureThreshold (cb_config cb))
      | StateOpen \<Rightarrow> cb_successes cb = 0
      | StateHalfOpen \<Rightarrow> cb_successes cb < max 1 (SuccessThreshold (cb_config cb))) \<and>
     cb_metrics cb (''circuit_breaker_state'', [cbc_Name (cb_config cb)])
       = CircuitState_code (cb_state cb)"

section \<open>Abstract breaker\<close>

text \<open>
  What the breaker promises, with nothing but the state a reader of the pattern has in mind:
  closed with a number of consecutive failures, open since some time, or half-open with a
  number of successes.
\<close>

datatype abs_breaker = AClosed int | AOpen time | AHalf int

fun abs_tick :: "duration \<Rightarrow> time \<Rightarrow> abs_breaker \<Rightarrow> abs_breaker" where
  "abs_tick d now (AOpen t) = (if d \<le> time_Sub now t then AHalf 0 else AOpen t)"
| "abs_tick d now b = b"

fun abs_success :: "int \<Rightarrow> abs_breaker \<Rightarrow> abs_breaker" where
  "abs_success k (AClosed n) = AClosed 0"
| "abs_success k (AHalf n) = (if k \<le> n + 1 then AClosed 0 else AHalf (n + 1))"
| "abs_success k (AOpen t) = AOpen t"

fun abs_failure :: "int \<Rightarrow> time \<Rightarrow> abs_breaker \<Rightarrow> abs_breaker" where
  "abs_failure k now (AClosed n) = (if k \<le> n + 1 then AOpen now else AClosed (n + 1))"
| "abs_failure k now (AHalf n) = AOpen now"
| "abs_failure k now (AOpen t) = AOpen t"

fun abs_step :: "CircuitBreakerConfig \<Rightarrow> cb_op \<Rightarrow> abs_breaker \<Rightarrow> abs_breaker" where
  "abs_step c (OpState now) b = abs_tick (OpenDuration c) now b"
| "abs_step c (OpBegin now) b = abs_tick (OpenDuration c) now b"
| "abs_step c (OpEnd None now1 now2) b = abs_success (SuccessThreshold c) b"
| "abs_step c (OpEnd (Some e) now1 now2) b = abs_failure (FailureThreshold c) now2 b"
| "abs_step c (OpRecordSuccess now) b = abs_success (SuccessThreshold c) b"
| "abs_step c (OpRecordFailure now1 now2) b = abs_failure (FailureThreshold c) now2 b"

definition cb_abs :: "CircuitBreaker \<Rightarrow> abs_breaker" where
  "cb_abs cb =
     (case cb_state cb of
        StateClosed \<Rightarrow> AClosed (cb_failures cb)
      | StateOpen \<Rightarrow> AOpen (cb_openedAt cb)
      | StateHalfOpen \<Rightarrow> AHalf (cb_successes cb))"

text \<open>A breaker of the default configuration that opened at time 100.\<close>

definition open_breaker_example :: CircuitBreaker where
  "open_breaker_example =
     \<lparr>cb_config = DefaultCircuitBreakerConfig ''coincap'', cb_state = StateOpen, cb_failures = 5,
      cb_successes = 0, cb_lastFailure = 100, cb_openedAt = 100,
      cb_metrics = m_set ''circuit_breaker_state'' [''coincap''] 1 m_empty\<rparr>"

section \<open>Lemmas\<close>

named_theorems cb_defs \<open>the breaker's operations\<close>

declare transitionTo_def [cb_defs] currentState_def [cb_defs] State_def [cb_defs]
  onSuccess_def [cb_defs] onFailure_def [cb_defs] RecordSuccess_def [cb_defs]
  RecordFailure_def [cb_defs] Execute_begin_def [cb_defs] Execute_end_def [cb_defs]
  cb_count_request_def [cb_defs]

lemmas cb_splits = CircuitState.splits option.splits if_splits

lemma transitionTo_config [simp]: "cb_config (transitionTo st now cb) = cb_config cb"
  by (cases st) (simp_all add: cb_defs Let_def)

lemma transitionTo_state [simp]: "cb_state (transitionTo st now cb) = st"
  by (cases st) (simp_all add: cb_defs Let_def)

lemma cb_step_config [simp]: "cb_config (cb_step op cb) = cb_config cb"
  by (cases op) (auto simp: cb_defs Let_def split: cb_splits)

lemma NewCircuitBreaker_inv: "cbc_wf c \<Longrightarrow> cb_inv (NewCircuitBreaker c)"
  by (auto simp: cb_inv_def NewCircuitBreaker_def metric_simps)

lemma cb_counters_int64:
  assumes "cb_inv cb"
  shows "cb_state cb = StateClosed \<Longrightarrow> wrap64 (cb_failures cb + 1) = cb_failures cb + 1"
    and "cb_state cb = StateHalfOpen \<Longrightarrow> wrap64 (cb_successes cb + 1) = cb_successes cb + 1"
  using assms by (auto simp: cb_inv_def cbc_wf_def is_int64_def intro!: wrap64_id)

lemma cb_count_request_inv [simp]: "cb_inv (cb_count_request r cb) = cb_inv cb"
  by (cases "cb_state cb") (auto simp: cb_inv_def cb_count_request_def metric_simps)

lemma onFailure_inv: "cb_inv cb \<Longrightarrow> cb_inv (onFailure now1 now2 cb)"
  using cb_counters_int64 [of cb]
  by (cases "cb_state cb") (auto simp: cb_inv_def cb_defs metric_simps Let_def)

lemma onSuccess_inv: "cb_inv cb \<Longrightarrow> cb_inv (onSuccess now cb)"
  using cb_counters_int64 [of cb]
  by (cases "cb_state cb") (auto simp: cb_inv_def cb_defs metric_simps Let_def)

lemma currentState_inv: "cb_inv cb \<Longrightarrow> cb_inv (snd (currentState now cb))"
  by (cases "cb_state cb") (auto simp: cb_inv_def cb_defs metric_simps Let_def)

lemma cb_step_inv: "cb_inv cb \<Longrightarrow> cb_inv (cb_step op cb)"
  by (cases op)
    (auto simp: State_def RecordSuccess_def RecordFailure_def Execute_begin_def Execute_end_def
      split_beta onSuccess_inv onFailure_inv currentState_inv split: option.splits)

lemma cb_count_request_abs [simp]: "cb_abs (cb_count_request r cb) = cb_abs cb"
  by (simp add: cb_abs_def cb_count_request_def split: CircuitState.split)

lemma cb_abs_success:
  "cb_inv cb \<Longrightarrow> cb_abs (onSuccess now cb) = abs_success (SuccessThreshold (cb_config cb)) (cb_abs cb)"
  using cb_counters_int64 [of cb]
  by (cases "cb_state cb") (auto simp: cb_abs_def cb_defs Let_def)

lemma cb_abs_failure:
  "cb_inv cb \<Longrightarrow>
     cb_abs (onFailure now1 now2 cb) = abs_failure (FailureThreshold (cb_config cb)) now2 (cb_abs cb)"
  using cb_counters_int64 [of cb]
  by (cases "cb_state cb") (auto simp: cb_abs_def cb_defs Let_def)

lemma cb_abs_tick:
  "cb_abs (snd (currentState now cb)) = abs_tick (OpenDuration (cb_config cb)) now (cb_abs cb)"
  by (cases "cb_state cb") (auto simp: cb_abs_def cb_defs Let_def)

lemma cb_abs_step: "cb_inv cb \<Longrightarrow> cb_abs (cb_step op cb) = abs_step (cb_config cb) op (cb_abs cb)"
proof (cases op)
  case (OpEnd err now1 now2)
  assume "cb_inv cb"
  with OpEnd show ?thesis
    by (cases err) (simp_all add: Execute_end_def cb_abs_success cb_abs_failure)
qed (auto simp: State_def RecordSuccess_def RecordFailure_def Execute_begin_def split_beta
       cb_abs_success cb_abs_failure cb_abs_tick)

interpretation cbm: refined_machine cb_step
    "\<lambda>cb. cb = NewCircuitBreaker c \<and> cbc_wf c" "\<lambda>cb. cb_inv cb \<and> cb_config cb = c"
    cb_abs "abs_step c" for c
  by unfold_locales
    (auto simp: NewCircuitBreaker_inv cb_step_inv cb_abs_step, simp add: NewCircuitBreaker_def)

lemma NewCircuitBreaker_abs [simp]: "cb_abs (NewCircuitBreaker c) = AClosed 0"
  by (simp add: cb_abs_def NewCircuitBreaker_def)

lemma cb_abs_state_simps:
  "cb_state cb = StateClosed \<longleftrightarrow> (\<exists>n. cb_abs cb = AClosed n)"
  "cb_state cb = StateOpen \<longleftrightarrow> (\<exists>t. cb_abs cb = AOpen t)"
  "cb_state cb = StateHalfOpen \<longleftrightarrow> (\<exists>n. cb_abs cb = AHalf n)"
  by (auto simp: cb_abs_def split: CircuitState.splits)

lemma abs_step_record:
  "abs_step c (OpRecordFailure t1 t2) = abs_failure (FailureThreshold c) t2"
  "abs_step c (OpRecordSuccess t) = abs_success (SuccessThreshold c)"
  by (rule ext, simp)+

text \<open>Consecutive failures and successes of the abstract breaker.\<close>

lemma abs_failures_closed:
  assumes "0 \<le> n" and "n + int (length ts) < max 1 (FailureThreshold c)"
  shows "fold (\<lambda>(t1, t2). abs_failure (FailureThreshold c) t2) ts (AClosed n)
           = AClosed (n + int (length ts))"
  using assms
  by (induction ts arbitrary: n) auto

lemma abs_failures_open:
  "fold (\<lambda>(t1, t2). abs_failure (FailureThreshold c) t2) ts (AOpen t) = AOpen t"
  by (induction ts) auto

lemma abs_failures_opens:
  assumes "0 \<le> n" and "n < max 1 (FailureThreshold c)"
    and "max 1 (FailureThreshold c) \<le> n + int (length ts)"
  shows "\<exists>t. fold (\<lambda>(t1, t2). abs_failure (FailureThreshold c) t2) ts (AClosed n) = AOpen t"
  using assms
proof (induction ts arbitrary: n)
  case Nil
  then show ?case by auto
next
  case (Cons p ts)
  then show ?case
    by (cases p) (auto simp: abs_failures_open max_def split: if_splits)
qed

lemma abs_successes:
  assumes "0 \<le> n" and "n < max 1 (SuccessThreshold c)"
  shows "fold (\<lambda>t. abs_success (SuccessThreshold c)) ts (AHalf n)
           = (if n + int (length ts) < max 1 (SuccessThreshold c)
              then AHalf (n + int (length ts)) else AClosed 0)"
  using assms
proof (induction ts arbitrary: n)
  case Nil
  then show ?case by simp
next
  case (Cons t ts)
  have closed: "fold (\<lambda>t. abs_success (SuccessThreshold c)) ts (AClosed 0) = AClosed 0"
    by (induction ts) auto
  show ?case
    using Cons.prems Cons.IH [of "n + 1"] by (auto simp: closed)
qed

lemma fold_map_op: "fold step (map f xs) s = fold (\<lambda>x. step (f x)) xs s"
  by (induction xs arbitrary: s) auto

lemma Manager_Get_lookup:
  "gm_get (mgr_breakers (snd (Manager_Get name m))) name = Some (fst (Manager_Get name m))"
  by (auto simp: Manager_Get_def Let_def gm_simps split: option.splits)

lemma Manager_States_loop_lookup:
  "gm_get (fst (Manager_States_loop now bs)) name
     = map_option (\<lambda>cb. CircuitState_String (fst (State (now name) cb))) (gm_get bs name)"
  "gm_get (snd (Manager_States_loop now bs)) name
     = map_option (\<lambda>cb. snd (State (now name) cb)) (gm_get bs name)"
  by (induction bs) (auto simp: gm_get_def split_beta)

section \<open>Properties\<close>

text \<open>
  C4: From a new breaker with thresholds that are machine integers, every sequence of
  operations (any interleaving of goroutines) keeps the invariant: the failure counter of a
  closed breaker stays below the threshold, the success counter of a half-open one below its
  threshold, neither counter ever overflows, an open breaker has no successes, and the state
  gauge shows the state.
\<close>

theorem breaker_invariant:
  assumes "cbc_wf c"
  shows "cb_inv (fold cb_step ops (NewCircuitBreaker c))"
  using assms cbm.reachable_inv [of "NewCircuitBreaker c" c ops] by simp

theorem breaker_invariant_witness:
  "cb_inv (fold cb_step [OpRecordFailure 1 2, OpState 3, OpRecordSuccess 4]
     (NewCircuitBreaker (DefaultCircuitBreakerConfig ''coincap'')))"
  by (rule breaker_invariant)
    (simp add: cbc_wf_def DefaultCircuitBreakerConfig_def is_int64_def)

text \<open>
  C12: The breaker refines the abstract one: after any sequence of operations its state is what
  the abstract breaker reaches by the same sequence, counting consecutive failures while
  closed, the opening time while open, and successes while half-open.
\<close>

theorem breaker_refines:
  assumes "cbc_wf c"
  shows "cb_abs (fold cb_step ops (NewCircuitBreaker c)) = fold (abs_step c) ops (AClosed 0)"
  using assms cbm.reachable_refines [of "NewCircuitBreaker c" c ops] by simp

theorem breaker_refines_witness:
  "cb_abs (fold cb_step [OpRecordFailure 1 2, OpRecordFailure 3 4, OpRecordSuccess 5]
     (NewCircuitBreaker (DefaultCircuitBreakerConfig ''coincap''))) = AClosed 0"
proof -
  let ?c = "DefaultCircuitBreakerConfig ''coincap''"
  have "cbc_wf ?c" by (simp add: cbc_wf_def DefaultCircuitBreakerConfig_def is_int64_def)
  from breaker_refines [OF this, of "[OpRecordFailure 1 2, OpRecordFailure 3 4, OpRecordSuccess 5]"]
  show ?thesis by (simp add: DefaultCircuitBreakerConfig_def)
qed

text \<open>
  A new breaker opens at exactly the configured number of consecutive failures (at the
  first one when the threshold is not positive), and not before.
\<close>

theorem breaker_opens_at_threshold:
  assumes "cbc_wf c"
  shows "cb_state (fold cb_step (map (\<lambda>(t1, t2). OpRecordFailure t1 t2) ts) (NewCircuitBreaker c))
           = (if int (length ts) < max 1 (FailureThreshold c) then StateClosed else StateOpen)"
proof -
  let ?ops = "map (\<lambda>(t1, t2). OpRecordFailure t1 t2) ts"
  let ?cb = "fold cb_step ?ops (NewCircuitBreaker c)"
  have *: "cb_abs ?cb = fold (\<lambda>(t1, t2). abs_failure (FailureThreshold c) t2) ts (AClosed 0)"
    using cbm.reachable_refines [of "NewCircuitBreaker c" c ?ops] assms
    by (simp add: fold_map_op case_prod_beta' abs_step_record)
  show ?thesis
    using * abs_failures_closed [of 0 ts c] abs_failures_opens [of 0 c ts]
    by (auto simp: cb_abs_state_simps)
qed

theorem breaker_opens_at_threshold_witness:
  "cb_state (fold cb_step (map (\<lambda>(t1, t2). OpRecordFailure t1 t2) [(1, 1), (2, 2), (3, 3), (4, 4), (5, 5)])
     (NewCircuitBreaker (DefaultCircuitBreakerConfig ''coincap''))) = StateOpen"
proof -
  let ?c = "DefaultCircuitBreakerConfig ''coincap''"
  have "cbc_wf ?c" by (simp add: cbc_wf_def DefaultCircuitBreakerConfig_def is_int64_def)
  from breaker_opens_at_threshold [OF this, of "[(1, 1), (2, 2), (3, 3), (4, 4), (5, 5)]"]
  show ?thesis by (simp add: DefaultCircuitBreakerConfig_def)
qed

text \<open>
  While the breaker is open and \<open>OpenDuration\<close> has not passed, \<open>Execute\<close> returns
  \<open>ErrCircuitOpen\<close> without calling the function (the world is unchanged), and nothing of
  the breaker changes but the count of rejected requests.
\<close>

theorem Execute_rejects_while_open:
  assumes "cb_state cb = StateOpen"
    and "time_Sub now (cb_openedAt cb) < OpenDuration (cb_config cb)"
  shows "Execute now now1 now2 fn cb w
           = (Some ErrCircuitOpen, cb_count_request ''rejected'' cb, w)"
  using assms by (simp add: Execute_def Execute_begin_def currentState_def)

theorem Execute_rejects_while_open_witness:
  "Execute 200 201 202 (\<lambda>n. (None, n + 1)) open_breaker_example (0::nat)
     = (Some ErrCircuitOpen, cb_count_request ''rejected'' open_breaker_example, 0)"
  by (rule Execute_rejects_while_open)
    (simp_all add: open_breaker_example_def DefaultCircuitBreakerConfig_def time_defs)

text \<open>
  An open breaker recovers: once \<open>OpenDuration\<close> has passed, reading the state makes it
  half-open, it stays half-open for fewer than \<open>SuccessThreshold\<close> successes, and that many
  successes in a row close it.
\<close>

theorem breaker_recovers:
  assumes "cb_inv cb" and "cb_state cb = StateOpen"
    and "OpenDuration (cb_config cb) \<le> time_Sub now (cb_openedAt cb)"
  shows "cb_state (fold cb_step (OpState now # map OpRecordSuccess ts) cb)
           = (if int (length ts) < max 1 (SuccessThreshold (cb_config cb))
              then StateHalfOpen else StateClosed)"
proof -
  let ?c = "cb_config cb" and ?ops = "OpState now # map OpRecordSuccess ts"
  from assms(2,3) have "abs_step ?c (OpState now) (cb_abs cb) = AHalf 0"
    by (simp add: cb_abs_def)
  then have "cb_abs (fold cb_step ?ops cb)
      = fold (\<lambda>t. abs_success (SuccessThreshold ?c)) ts (AHalf 0)"
    using cbm.run_refines [of cb ?c ?ops] assms(1) by (simp add: fold_map_op abs_step_record)
  then show ?thesis
    using abs_successes [of 0 ?c ts] by (auto simp: cb_abs_state_simps)
qed

theorem breaker_recovers_witness:
  "cb_state (fold cb_step (OpState (100 + 30 * second) # map OpRecordSuccess [7, 8]) open_breaker_example)
     = StateClosed"
proof -
  have "cb_inv open_breaker_example" "cb_state open_breaker_example = StateOpen"
    "OpenDuration (cb_config open_breaker_example)
       \<le> time_Sub (100 + 30 * second) (cb_openedAt open_breaker_example)"
    by (simp_all add: cb_inv_def cbc_wf_def is_int64_def open_breaker_example_def
        DefaultCircuitBreakerConfig_def metric_simps time_defs)
  from breaker_recovers [OF this, of "[7, 8]"] show ?thesis
    by (simp add: open_breaker_example_def DefaultCircuitBreakerConfig_def)
qed

end
