(* ===== verification/Rate_Limit_Tracker.thy ===== *)
theory Rate_Limit_Tracker
  imports Go_Strings
begin

text \<open>
  \<open>internal/resilience/ratelimit.go\<close>: which providers answered HTTP 429, and until when
  they should be left alone. Clock readings are arguments. \<open>time.Parse\<close> for the two
  HTTP date layouts is a parameter of \<open>ParseRetryAfter\<close>.
\<close>

record providerRateLimit =
  lastRateLimit :: time
  retryAfter :: duration
  rl_count :: int

record RateLimitTracker =
  rlt_providers :: "(string, providerRateLimit) gomap"
  rlt_metrics :: metrics

definition NewRateLimitTracker :: RateLimitTracker where
  "NewRateLimitTracker = \<lparr>rlt_providers = [], rlt_metrics = m_empty\<rparr>"

definition RecordRateLimit ::
    "string \<Rightarrow> duration \<Rightarrow> time \<Rightarrow> RateLimitTracker \<Rightarrow> RateLimitTracker" where
  "RecordRateLimit provider after now t =
     (let rl = (case gm_get (rlt_providers t) provider of
                  Some rl \<Rightarrow> rl
                | None \<Rightarrow> \<lparr>lastRateLimit = zero_time, retryAfter = 0, rl_count = 0\<rparr>);
          rl' = rl\<lparr>lastRateLimit := now, retryAfter := after, rl_count := wrap64 (rl_count rl + 1)\<rparr>
      in t\<lparr>rlt_providers := gm_put provider rl' (rlt_providers t),
           rlt_metrics := m_inc ''provider_rate_limited_total'' [provider] (rlt_metrics t)\<rparr>)"

definition ShouldWait :: "string \<Rightarrow> time \<Rightarrow> RateLimitTracker \<Rightarrow> bool \<times> duration" where
  "ShouldWait provider now t =
     (case gm_get (rlt_providers t) provider of
        None \<Rightarrow> (False, 0)
      | Some rl \<Rightarrow>
          if retryAfter rl \<le> 0 then (False, 0)
          else
            (let elapsed = time_Sub now (lastRateLimit rl)
             in if retryAfter rl \<le> elapsed then (False, 0)
                else (True, wrap64 (retryAfter rl - elapsed))))"

definition RateLimit_Count :: "string \<Rightarrow> RateLimitTracker \<Rightarrow> int" where
  "RateLimit_Count provider t =
     (case gm_get (rlt_providers t) provider of None \<Rightarrow> 0 | Some rl \<Rightarrow> rl_count rl)"

definition RateLimit_Reset :: "string \<Rightarrow> RateLimitTracker \<Rightarrow> RateLimitTracker" where
  "RateLimit_Reset provider t = t\<lparr>rlt_providers := gm_del provider (rlt_providers t)\<rparr>"

text \<open>
  \<open>resp = None\<close> is a nil response; otherwise the argument is the value of its
  \<open>Retry-After\<close> header, empty when it has none. \<open>time.Until\<close> reads the clock.
\<close>

definition ParseRetryAfter ::
    "(string \<Rightarrow> time option) \<Rightarrow> (string \<Rightarrow> time option) \<Rightarrow> time \<Rightarrow> string option \<Rightarrow> duration" where
  "ParseRetryAfter parse_RFC1123 parse_RFC850 now resp =
     (case resp of
        None \<Rightarrow> 0
      | Some header \<Rightarrow>
          if header = '''' then 0
          else case strconv_Atoi header of
                 Some seconds \<Rightarrow> if 0 < seconds then wrap64 (seconds * second) else 0
               | None \<Rightarrow>
                   (case parse_RFC1123 header of
                      Some t \<Rightarrow> (let delay = time_Sub t now in if 0 < delay then delay else 0)
                    | None \<Rightarrow>
                        (case parse_RFC850 header of
                           Some t \<Rightarrow> (let delay = time_Sub t now in if 0 < delay then delay else 0)
                         | None \<Rightarrow> 0)))"

definition DefaultRetryAfter :: duration where
  "DefaultRetryAfter = 60 * second"

section \<open>Lemmas\<close>

lemmas rate_limit_defs = RecordRateLimit_def ShouldWait_def RateLimit_Count_def RateLimit_Reset_def

lemma ShouldWait_other_provider:
  "q \<noteq> p \<Longrightarrow> ShouldWait q now (RecordRateLimit p d t0 t) = ShouldWait q now t"
  by (simp add: rate_limit_defs Let_def gm_simps)

lemma ShouldWait_after_reset: "ShouldWait p now (RateLimit_Reset p t) = (False, 0)"
  by (simp add: rate_limit_defs gm_simps)

lemma ShouldWait_after_record:
  "ShouldWait p now (RecordRateLimit p d t0 t)
     = (if d \<le> 0 \<or> d \<le> time_Sub now t0 then (False, 0) else (True, wrap64 (d - time_Sub now t0)))"
  by (simp add: rate_limit_defs Let_def gm_simps)

lemma RateLimit_Count_record:
  "RateLimit_Count q (RecordRateLimit p d t0 t)
     = (if q = p then wrap64 (RateLimit_Count p t + 1) else RateLimit_Count q t)"
  by (simp add: rate_limit_defs Let_def gm_simps split: option.split)

section \<open>Properties\<close>

text \<open>
  After a rate-limit event with a positive back-off, requests to that provider wait exactly
  until the back-off has passed since the event, the remaining time and the time already
  waited add up to the back-off, and other providers are unaffected.
\<close>

theorem rate_limit_window:
  assumes "is_int64 d" and "0 < d" and "t0 \<le> now" and "is_int64 (now - t0)"
  shows "ShouldWait p now (RecordRateLimit p d t0 t)
           = (if now < t0 + d then (True, t0 + d - now) else (False, 0)) \<and>
         (\<forall>q. q \<noteq> p \<longrightarrow> ShouldWait q now (RecordRateLimit p d t0 t) = ShouldWait q now t)"
proof -
  have "time_Sub now t0 = now - t0" using assms(4) by (rule time_Sub_exact)
  moreover have "is_int64 (d - (now - t0))" if "now < t0 + d"
    using that assms by (auto simp: is_int64_def)
  ultimately show ?thesis
    using assms by (auto simp: ShouldWait_after_record ShouldWait_other_provider)
qed

theorem rate_limit_window_witness:
  "ShouldWait ''coincap'' 5 (RecordRateLimit ''coincap'' 10 2 NewRateLimitTracker) = (True, 7)"
proof -
  have "is_int64 10" "0 < (10::int)" "(2::int) \<le> 5" "is_int64 (5 - 2)" by (simp_all add: is_int64_def)
  from rate_limit_window [OF this, of "''coincap''" NewRateLimitTracker] show ?thesis by simp
qed

text \<open>
  A numeric \<open>Retry-After\<close> is turned into that many seconds only while the product fits
  a duration: 9223372037 seconds, an \<open>int\<close> that parses, yields a negative duration, which
  \<open>ShouldWait\<close> then treats as no wait at all.
\<close>

theorem ParseRetryAfter_overflow:
  "(\<forall>n. 0 < n \<and> n \<le> 9223372036 \<longrightarrow>
      ParseRetryAfter f g now (Some (strconv_Itoa n)) = n * second) \<and>
   ParseRetryAfter f g now (Some (strconv_Itoa 9223372037)) < 0"
proof -
  have ne: "strconv_Itoa n \<noteq> ''''" for n by (simp add: strconv_Itoa_def)
  have "ParseRetryAfter f g now (Some (strconv_Itoa n)) = wrap64 (n * second)"
    if "0 < n" "n \<le> 9223372037" for n
    using that ne Atoi_Itoa [of n] by (simp add: ParseRetryAfter_def is_int64_def)
  then show ?thesis
    by (auto simp: second_def is_int64_def wrap64_def [of 9223372037000000000])
qed

theorem ParseRetryAfter_overflow_witness:
  "ParseRetryAfter (\<lambda>_. None) (\<lambda>_. None) 0 (Some (strconv_Itoa 30)) = 30 * second"
  using ParseRetryAfter_overflow [of "\<lambda>_. None" "\<lambda>_. None" 0] by simp

end
