(* ===== verification/Go_Runtime.thy ===== *)
theory Go_Runtime
  imports Float64
begin

text \<open>
  What the program gets from outside while it runs, as functions on a world \<open>'w\<close> that the
  caller supplies: the clock, the context of the current call, a wait that a cancelled
  context interrupts, and the random source. Calls of external services (HTTP, Redis,
  PostgreSQL) are functions on the same world, parameters of the components that make them.
  Nothing is assumed of these functions unless a theorem says so.
\<close>

record 'w runtime =
  rt_Now :: "'w \<Rightarrow> time \<times> 'w"
  rt_CtxErr :: "'w \<Rightarrow> go_error option"
  rt_Wait :: "duration \<Rightarrow> 'w \<Rightarrow> go_error option \<times> 'w"
  rt_Float64 :: "'w \<Rightarrow> float64 \<times> 'w"

text \<open>
  \<open>rt_CtxErr\<close> is \<open>ctx.Err()\<close>. \<open>rt_Wait d\<close> is
  \<^verbatim>\<open>select { case <-ctx.Done(): ...; case <-time.After(d): ... }\<close>: the
  context's error when the first case was taken, nothing when the time passed.
  \<open>rt_Float64\<close> is \<open>rand.Float64()\<close>.
\<close>

text \<open>
  A world for closed examples: the time, advanced by one nanosecond per reading and by the
  delay of every wait; the context is cancelled from a given time on.
\<close>

definition demo_runtime :: "time \<Rightarrow> int runtime" where
  "demo_runtime deadline =
     \<lparr>rt_Now = (\<lambda>w. (w, w + 1)),
      rt_CtxErr = (\<lambda>w. if deadline \<le> w then Some Canceled else None),
      rt_Wait = (\<lambda>d w. if deadline \<le> w + d then (Some Canceled, deadline) else (None, w + d)),
      rt_Float64 = (\<lambda>w. (Fin (1 / 2), w))\<rparr>"

end
