(* ===== verification/Retry.thy ===== *)
theory Retry
  imports Go_Runtime
begin

text \<open>
  \<open>internal/resilience/retry.go\<close>: bounded exponential backoff with full jitter.

  \<open>Retry\<close> and \<open>RetryWithResult\<close> are two loops in the code and two definitions here; the
  first is shown equal to the second with a result of type \<open>unit\<close>. The loops run on the
  world of \<open>Go_Runtime\<close>; the function they call may change it. They count their outcome in
  \<open>retry_attempts_total\<close>. The loop variable is bounded by \<open>MaxAttempts\<close>, so the loops
  terminate whatever the world does.
\<close>

record RetryConfig =
  MaxAttempts :: int
  BaseDelay :: duration
  MaxDelay :: duration
  RetryableFunc :: "(go_error \<Rightarrow> bool) option"

definition DefaultRetryConfig :: RetryConfig where
  "DefaultRetryConfig =
     \<lparr>MaxAttempts = 3, BaseDelay = 500 * millisecond, MaxDelay = 10 * second,
      RetryableFunc = Some (\<lambda>_. True)\<rparr>"

definition calculateDelay ::
    "'w runtime \<Rightarrow> int \<Rightarrow> duration \<Rightarrow> duration \<Rightarrow> 'w \<Rightarrow> duration \<times> 'w" where
  "calculateDelay rt attempt baseDelay maxDelay w =
     (let backoff = f_mul (f_of_int baseDelay) (fl (pow2 attempt));
          backoff = (if f_less (f_of_int maxDelay) backoff then f_of_int maxDelay else backoff)
      in case rt_Float64 rt w of
           (r, w1) \<Rightarrow>
             (let jittered = int64_of (f_mul r backoff)
              in (if jittered < millisecond then millisecond else jittered, w1)))"

definition retry_count :: "string \<Rightarrow> metrics \<Rightarrow> metrics" where
  "retry_count result m = m_inc ''retry_attempts_total'' [result] m"

definition retry_aborted :: "go_error \<Rightarrow> go_error" where
  "retry_aborted e = Wrapped ''retry aborted: '' e ''''"

definition not_retryable :: "RetryConfig \<Rightarrow> go_error \<Rightarrow> bool" where
  "not_retryable cfg e = (case RetryableFunc cfg of None \<Rightarrow> False | Some f \<Rightarrow> \<not> f e)"

function Retry_loop ::
    "'w runtime \<Rightarrow> RetryConfig \<Rightarrow> ('w \<Rightarrow> go_error option \<times> 'w) \<Rightarrow> int \<Rightarrow> go_error option
       \<Rightarrow> metrics \<Rightarrow> 'w \<Rightarrow> go_error option \<times> metrics \<times> 'w" where
  "Retry_loop rt cfg fn attempt lastErr m w =
     (if attempt < MaxAttempts cfg then
        case rt_CtxErr rt w of
          Some e \<Rightarrow> (Some (retry_aborted e), retry_count ''canceled'' m, w)
        | None \<Rightarrow>
            (case fn w of
               (None, w1) \<Rightarrow>
                 (None, if 0 < attempt then retry_count ''success_after_retry'' m else m, w1)
             | (Some e, w1) \<Rightarrow>
                 if not_retryable cfg e then (Some e, retry_count ''not_retryable'' m, w1)
                 else if attempt < MaxAttempts cfg - 1 then
                   (case calculateDelay rt attempt (BaseDelay cfg) (MaxDelay cfg) w1 of
                      (delay, w2) \<Rightarrow>
                        (case rt_Wait rt delay w2 of
                           (Some e', w3) \<Rightarrow>
                             (Some (retry_aborted e'), retry_count ''canceled'' m, w3)
                         | (None, w3) \<Rightarrow> Retry_loop rt cfg fn (attempt + 1) (Some e) m w3))
                 else Retry_loop rt cfg fn (attempt + 1) (Some e) m w1)
      else (lastErr, retry_count ''exhausted'' m, w))"
  by pat_completeness auto
termination
  by (relation "measure (\<lambda>(rt, cfg, fn, attempt, e, m, w). nat (MaxAttempts cfg - attempt))") auto

definition Retry ::
    "'w runtime \<Rightarrow> RetryConfig \<Rightarrow> ('w \<Rightarrow> go_error option \<times> 'w) \<Rightarrow> metrics \<Rightarrow> 'w
       \<Rightarrow> go_error option \<times> metrics \<times> 'w" where
  "Retry rt cfg fn m w = Retry_loop rt cfg fn 0 None m w"

function RetryWithResult_loop ::
    "'w runtime \<Rightarrow> RetryConfig \<Rightarrow> ('w \<Rightarrow> ('a \<times> go_error option) \<times> 'w) \<Rightarrow> int
       \<Rightarrow> 'a \<Rightarrow> go_error option \<Rightarrow> metrics \<Rightarrow> 'w \<Rightarrow> ('a \<times> go_error option) \<times> metrics \<times> 'w" where
  "RetryWithResult_loop rt cfg fn attempt result lastErr m w =
     (if attempt < MaxAttempts cfg then
        case rt_CtxErr rt w of
          Some e \<Rightarrow> ((result, Some (retry_aborted e)), retry_count ''canceled'' m, w)
        | None \<Rightarrow>
            (case fn w of
               ((res, None), w1) \<Rightarrow>
                 ((res, None), if 0 < attempt then retry_count ''success_after_retry'' m else m, w1)
             | ((res, Some e), w1) \<Rightarrow>
                 if not_retryable cfg e then ((res, Some e), retry_count ''not_retryable'' m, w1)
                 else if attempt < MaxAttempts cfg - 1 then
                   (case calculateDelay rt attempt (BaseDelay cfg) (MaxDelay cfg) w1 of
                      (delay, w2) \<Rightarrow>
                        (case rt_Wait rt delay w2 of
                           (Some e', w3) \<Rightarrow>
                             ((res, Some (retry_aborted e')), retry_count ''canceled'' m, w3)
                         | (None, w3) \<Rightarrow>
                             RetryWithResult_loop rt cfg fn (attempt + 1) res (Some e) m w3))
                 else RetryWithResult_loop rt cfg fn (attempt + 1) res (Some e) m w1)
      else ((result, lastErr), retry_count ''exhausted'' m, w))"
  by pat_completeness auto
termination
  by (relation "measure (\<lambda>(rt, cfg, fn, attempt, r, e, m, w). nat (MaxAttempts cfg - attempt))") auto

text \<open>\<open>zero\<close> is the zero value of the result type (\<open>var result T\<close>).\<close>

definition RetryWithResult ::
    "'w runtime \<Rightarrow> RetryConfig \<Rightarrow> ('w \<Rightarrow> ('a \<times> go_error option) \<times> 'w) \<Rightarrow> 'a
       \<Rightarrow> metrics \<Rightarrow> 'w \<Rightarrow> ('a \<times> go_error option) \<times> metrics \<times> 'w" where
  "RetryWithResult rt cfg fn zero m w = RetryWithResult_loop rt cfg fn 0 zero None m w"

declare Retry_loop.simps [simp del] RetryWithResult_loop.simps [simp del]

section \<open>Reference: what a policy does with a sequence of outcomes\<close>

text \<open>
  The specification of a retry policy on the list of the outcomes the function would have,
  one per call: the first success, the first error that is not retryable, or the last of the
  allowed attempts.
\<close>

fun retry_pick ::
    "RetryConfig \<Rightarrow> nat \<Rightarrow> 'a \<times> go_error option \<Rightarrow> ('a \<times> go_error option) list
       \<Rightarrow> 'a \<times> go_error option" where
  "retry_pick cfg 0 prev outs = prev"
| "retry_pick cfg (Suc n) prev [] = prev"
| "retry_pick cfg (Suc n) prev ((res, None) # outs) = (res, None)"
| "retry_pick cfg (Suc n) prev ((res, Some e) # outs) =
     (if not_retryable cfg e then (res, Some e) else retry_pick cfg n (res, Some e) outs)"

text \<open>A function that plays a script of outcomes, and the runtime that never interrupts it.\<close>

definition script_fn :: "('a \<times> go_error option) list \<Rightarrow> ('a \<times> go_error option) \<times> ('a \<times> go_error option) list" where
  "script_fn outs = (hd outs, tl outs)"

definition quiet_runtime :: "'w runtime" where
  "quiet_runtime =
     \<lparr>rt_Now = (\<lambda>w. (0, w)), rt_CtxErr = (\<lambda>_. None), rt_Wait = (\<lambda>d w. (None, w)),
      rt_Float64 = (\<lambda>w. (Fin 0, w))\<rparr>"

text \<open>A counter of calls beside the world.\<close>

definition count_fn ::
    "('w \<Rightarrow> ('a \<times> go_error option) \<times> 'w) \<Rightarrow> 'w \<times> nat \<Rightarrow> ('a \<times> go_error option) \<times> 'w \<times> nat" where
  "count_fn fn = (\<lambda>(w, n). case fn w of (r, w') \<Rightarrow> (r, (w', Suc n)))"

definition count_rt :: "'w runtime \<Rightarrow> ('w \<times> nat) runtime" where
  "count_rt rt =
     \<lparr>rt_Now = (\<lambda>(w, n). case rt_Now rt w of (t, w') \<Rightarrow> (t, (w', n))),
      rt_CtxErr = (\<lambda>(w, n). rt_CtxErr rt w),
      rt_Wait = (\<lambda>d (w, n). case rt_Wait rt d w of (e, w') \<Rightarrow> (e, (w', n))),
      rt_Float64 = (\<lambda>(w, n). case rt_Float64 rt w of (x, w') \<Rightarrow> (x, (w', n)))\<rparr>"

section \<open>Contract of the function a retry loop calls\<close>

text \<open>
  A client of the loops reads two things off the world: how often the function was called, and
  that waiting and asking the context do not call it. Under that contract the number of calls
  is bounded.
\<close>

locale call_counter =
  fixes rt :: "'w runtime"
    and fn :: "'w \<Rightarrow> ('a \<times> go_error option) \<times> 'w"
    and calls :: "'w \<Rightarrow> nat"
  assumes fn_counts: "calls (snd (fn w)) = Suc (calls w)"
    and wait_keeps: "calls (snd (rt_Wait rt d w)) = calls w"
    and rand_keeps: "calls (snd (rt_Float64 rt w)) = calls w"
begin

lemma delay_keeps: "calls (snd (calculateDelay rt a b c w)) = calls w"
  using rand_keeps [of w] by (simp add: calculateDelay_def Let_def split_beta)

lemma loop_calls:
  "calls (snd (snd (RetryWithResult_loop rt cfg fn attempt r e m w)))
     \<le> calls w + nat (MaxAttempts cfg - attempt)"
proof (induction "nat (MaxAttempts cfg - attempt)" arbitrary: attempt r e w)
  case 0
  then show ?case by (simp add: RetryWithResult_loop.simps)
next
  case (Suc n)
  have n: "n = nat (MaxAttempts cfg - (attempt + 1))" and lt: "attempt < MaxAttempts cfg"
    using Suc.hyps(2) by linarith+
  note IH = Suc.hyps(1) [OF n]
  obtain res err w1 where fn: "fn w = ((res, err), w1)" by (metis surj_pair)
  then have w1: "calls w1 = Suc (calls w)" using fn_counts [of w] by simp
  obtain d w2 where d: "calculateDelay rt attempt (BaseDelay cfg) (MaxDelay cfg) w1 = (d, w2)"
    by (cases "calculateDelay rt attempt (BaseDelay cfg) (MaxDelay cfg) w1")
  obtain x w3 where x: "rt_Wait rt d w2 = (x, w3)" by (cases "rt_Wait rt d w2")
  have w3: "calls w3 = Suc (calls w)"
    using w1 delay_keeps [of attempt "BaseDelay cfg" "MaxDelay cfg" w1] wait_keeps [of d w2] d x
    by simp
  show ?case
    using IH [of res err w1] IH [of res err w3] lt w1 w3 n Suc.hyps(2)
    by (subst RetryWithResult_loop.simps)
      (auto simp: fn d x split: option.splits)
qed

end

interpretation counted: call_counter "count_rt rt" "count_fn fn" snd for rt fn
  by unfold_locales (auto simp: count_rt_def count_fn_def split: prod.splits)

section \<open>Lemmas\<close>

lemma calculateDelay_counted:
  "calculateDelay (count_rt rt) a b c (w, n)
     = (case calculateDelay rt a b c w of (d, w') \<Rightarrow> (d, (w', n)))"
  by (simp add: calculateDelay_def count_rt_def Let_def split: prod.splits)

lemma RetryWithResult_loop_counted:
  "(case RetryWithResult_loop (count_rt rt) cfg (count_fn fn) attempt r e m (w, n) of
      (out, m', (w', n')) \<Rightarrow> (out, m', w')) = RetryWithResult_loop rt cfg fn attempt r e m w"
proof (induction "nat (MaxAttempts cfg - attempt)" arbitrary: attempt r e w n)
  case 0
  then show ?case by (simp add: RetryWithResult_loop.simps)
next
  case (Suc k)
  have k: "k = nat (MaxAttempts cfg - (attempt + 1))" using Suc.hyps(2) by linarith
  note IH = Suc.hyps(1) [OF k]
  obtain res1 err1 w1 where fn: "fn w = ((res1, err1), w1)" by (metis surj_pair)
  obtain d w2 where d: "calculateDelay rt attempt (BaseDelay cfg) (MaxDelay cfg) w1 = (d, w2)"
    by (cases "calculateDelay rt attempt (BaseDelay cfg) (MaxDelay cfg) w1")
  obtain x w3 where x: "rt_Wait rt d w2 = (x, w3)" by (cases "rt_Wait rt d w2")
  have cfn: "count_fn fn (w, n) = ((res1, err1), (w1, Suc n))" by (simp add: count_fn_def fn)
  have ctx: "rt_CtxErr (count_rt rt) (w, n) = rt_CtxErr rt w" by (simp add: count_rt_def)
  have cd: "calculateDelay (count_rt rt) attempt (BaseDelay cfg) (MaxDelay cfg) (w1, Suc n)
      = (d, (w2, Suc n))" by (simp add: calculateDelay_counted d)
  have cx: "rt_Wait (count_rt rt) d (w2, Suc n) = (x, (w3, Suc n))" by (simp add: count_rt_def x)
  show ?case
    unfolding RetryWithResult_loop.simps [of rt cfg fn attempt r e m w]
      RetryWithResult_loop.simps [of "count_rt rt" cfg "count_fn fn" attempt r e m "(w, n)"]
    using IH [of res1 err1 w1 "Suc n"] IH [of res1 err1 w3 "Suc n"]
    by (auto simp: fn cfn ctx d cd x cx split: option.splits)
qed

lemma Retry_loop_eq:
  "Retry_loop rt cfg fn attempt e m w =
     (case RetryWithResult_loop rt cfg (\<lambda>w. case fn w of (e, w') \<Rightarrow> (((), e), w')) attempt () e m w of
        ((_, e'), m', w') \<Rightarrow> (e', m', w'))"
proof (induction rt cfg fn attempt e m w rule: Retry_loop.induct)
  case (1 rt cfg fn attempt e m w)
  show ?case
    using 1
    by (subst Retry_loop.simps, subst RetryWithResult_loop.simps)
      (auto split: option.splits prod.splits)
qed

lemma int64_of_nonpos: "x \<le> 0 \<Longrightarrow> int64_of (fl x) \<le> 0"
  by (auto simp: fl_def Let_def ceiling_le_iff floor_le_iff is_int64_def split: if_splits
      intro: less_le_trans [OF _ round_mag_nonneg])

lemma capped_jitter_bound:
  assumes r: "0 \<le> r" "r \<le> 1" and b: "is_double \<bar>b\<bar>" "\<bar>b\<bar> < pow2 1024" "b \<le> of_int d"
    and d: "0 \<le> d" "is_int64 d"
  shows "int64_of (fl (r * b)) \<le> d"
proof (cases "0 \<le> b")
  case True
  have "r * b \<le> b" using r True by (simp add: mult_left_le_one_le)
  with True r(1) b obtain v where v: "fl (r * b) = Fin v" "0 \<le> v" "v \<le> b"
    using fl_le_double [of "r * b" b] by auto
  then have "\<lfloor>v\<rfloor> \<le> d" using b(3) by (simp add: floor_le_iff)
  with v d show ?thesis by (simp add: Let_def)
next
  case False
  then have "r * b \<le> 0" using r(1) by (simp add: mult_nonneg_nonpos)
  then show ?thesis using int64_of_nonpos [of "r * b"] d by linarith
qed

lemma f_of_int_double: "f_of_int n = Fin b \<Longrightarrow> is_double \<bar>b\<bar> \<and> \<bar>b\<bar> < pow2 1024"
  unfolding f_of_int_def by (rule fl_Fin_double)

lemma RetryWithResult_script:
  assumes quiet: "\<And>w. rt_CtxErr rt w = None" "\<And>d w. rt_Wait rt d w = (None, w)"
    "\<And>w. snd (rt_Float64 rt w) = w"
  shows "\<lbrakk>0 \<le> attempt; attempt \<le> MaxAttempts cfg;
    nat (MaxAttempts cfg - attempt) \<le> length outs\<rbrakk> \<Longrightarrow>
   fst (RetryWithResult_loop rt cfg script_fn attempt r e m outs)
     = retry_pick cfg (nat (MaxAttempts cfg - attempt)) (r, e) outs"
proof (induction "nat (MaxAttempts cfg - attempt)" arbitrary: attempt r e outs)
  case 0
  then show ?case by (simp add: RetryWithResult_loop.simps)
next
  case (Suc n)
  then obtain res err rest where outs: "outs = (res, err) # rest"
    by (cases outs) auto
  have n: "n = nat (MaxAttempts cfg - (attempt + 1))" and lt: "attempt < MaxAttempts cfg"
    using Suc.hyps(2) by linarith+
  have IH: "fst (RetryWithResult_loop rt cfg script_fn (attempt + 1) res err m rest)
      = retry_pick cfg n (res, err) rest"
    using Suc.hyps(1) [OF n, of rest res err] Suc.prems lt n outs by simp
  show ?case
    using IH lt Suc.hyps(2) [symmetric] outs
    by (subst RetryWithResult_loop.simps)
      (auto simp: script_fn_def quiet calculateDelay_def Let_def split_beta split: option.splits)
qed

text \<open>Every error a retry loop returns is one the function returned or a cancelled wait.\<close>

lemma RetryWithResult_loop_sound:
  assumes "RetryWithResult_loop rt cfg fn attempt r e m w = ((res, err), m', w')"
    and "attempt < MaxAttempts cfg"
  shows "(\<exists>w0. fst (fn w0) = (res, err)) \<or> (\<exists>e'. err = Some (retry_aborted e'))"
  using assms
proof (induction "nat (MaxAttempts cfg - attempt)" arbitrary: attempt r e w)
  case 0
  then show ?case by simp
next
  case (Suc n)
  have n: "n = nat (MaxAttempts cfg - (attempt + 1))" using Suc.hyps(2) by linarith
  obtain res1 err1 w1 where fn: "fn w = ((res1, err1), w1)" by (metis surj_pair)
  obtain d w2 where d: "calculateDelay rt attempt (BaseDelay cfg) (MaxDelay cfg) w1 = (d, w2)"
    by (cases "calculateDelay rt attempt (BaseDelay cfg) (MaxDelay cfg) w1")
  obtain x w3 where x: "rt_Wait rt d w2 = (x, w3)" by (cases "rt_Wait rt d w2")
  have last: "RetryWithResult_loop rt cfg fn (attempt + 1) res1 err1 m w1
      = ((res1, err1), retry_count ''exhausted'' m, w1)" if "\<not> attempt < MaxAttempts cfg - 1"
    using that by (simp add: RetryWithResult_loop.simps)
  have IH: "(\<exists>w0. fst (fn w0) = (res, err)) \<or> (\<exists>e'. err = Some (retry_aborted e'))"
    if "RetryWithResult_loop rt cfg fn (attempt + 1) res1 err1 m w3 = ((res, err), m', w')"
      "attempt < MaxAttempts cfg - 1"
    using Suc.hyps(1) [OF n that(1)] that(2) by simp
  have fn': "\<exists>w0. fst (fn w0) = (res1, err1)" using fn by (metis fst_conv)
  have unfold: "RetryWithResult_loop rt cfg fn attempt r e m w = ((res, err), m', w')"
    by (rule Suc.prems(1))
  show ?case
    using unfold [unfolded RetryWithResult_loop.simps [of rt cfg fn attempt r e m w]]
      Suc.prems(2) last IH fn'
    by (auto simp: fn d x split: option.splits if_splits)
qed

section \<open>Properties\<close>

text \<open>
  \<open>RetryWithResult\<close> calls the function at most \<open>MaxAttempts\<close> times, whatever the
  outcomes and whenever the context is cancelled. The calls are counted by a counter beside
  the world that nothing else touches: with it, the result, the metrics and the world are
  what they are without it.
\<close>

theorem retry_calls_bounded:
  "(case RetryWithResult (count_rt rt) cfg (count_fn fn) zero m (w, 0) of
      (out, m', (w', n)) \<Rightarrow>
        n \<le> nat (MaxAttempts cfg) \<and> (out, m', w') = RetryWithResult rt cfg fn zero m w)"
  using counted.loop_calls [where rt = rt and fn = fn and cfg = cfg and attempt = 0 and r = zero
      and e = None and m = m and w = "(w, 0)"]
    RetryWithResult_loop_counted [of rt cfg fn 0 zero None m w 0]
  by (auto simp: RetryWithResult_def split: prod.splits)

text \<open>
  When the context stays alive, \<open>RetryWithResult\<close> returns what the retry policy picks from
  the function's outcomes in order: the first success, else the first error that is not
  retryable, else the outcome of the last allowed attempt.
\<close>

theorem retry_picks_outcome:
  assumes "\<And>w. rt_CtxErr rt w = None" and "\<And>d w. rt_Wait rt d w = (None, w)"
    and "\<And>w. snd (rt_Float64 rt w) = w"
    and "0 \<le> MaxAttempts cfg" and "nat (MaxAttempts cfg) \<le> length outs"
  shows "fst (RetryWithResult rt cfg script_fn zero m outs)
           = retry_pick cfg (nat (MaxAttempts cfg)) (zero, None) outs"
  using RetryWithResult_script [of rt 0 cfg outs zero None m] assms
  by (simp add: RetryWithResult_def)

theorem retry_picks_outcome_witness:
  "fst (RetryWithResult quiet_runtime DefaultRetryConfig script_fn (0::int) m_empty
      [(0, Some (ErrorString ''reset'')), (42, None), (7, None)]) = (42, None)"
  by (subst retry_picks_outcome)
    (simp_all add: quiet_runtime_def DefaultRetryConfig_def not_retryable_def
      numeral_3_eq_3)

text \<open>
  With at least one attempt allowed, the outcome \<open>RetryWithResult\<close> returns is one the
  function itself returned, or the error reports that the context ended; in particular a
  success always carries a value the function returned with no error.
\<close>

theorem retry_sound:
  assumes "RetryWithResult rt cfg fn zero m w = ((res, err), m', w')" and "1 \<le> MaxAttempts cfg"
  shows "(\<exists>w0. fst (fn w0) = (res, err)) \<or> (\<exists>e'. err = Some (retry_aborted e'))"
  using RetryWithResult_loop_sound [of rt cfg fn 0 zero None m w] assms
  by (simp add: RetryWithResult_def)

theorem retry_sound_witness:
  "\<exists>w0. fst (script_fn w0) = (5::int, None)"
proof -
  have "RetryWithResult quiet_runtime DefaultRetryConfig script_fn 0 m_empty [(5::int, None)]
      = ((5, None), m_empty, [])"
    by (simp add: RetryWithResult_def RetryWithResult_loop.simps quiet_runtime_def
        DefaultRetryConfig_def script_fn_def)
  from retry_sound [OF this] show ?thesis by (simp add: DefaultRetryConfig_def)
qed

text \<open>
  A configuration with no attempts reports success without calling the function: the zero
  value and no error come back and the world is unchanged.
\<close>

theorem retry_zero_attempts:
  assumes "MaxAttempts cfg \<le> 0"
  shows "RetryWithResult rt cfg fn zero m w = ((zero, None), retry_count ''exhausted'' m, w)"
  using assms by (simp add: RetryWithResult_def RetryWithResult_loop.simps)

theorem retry_zero_attempts_witness:
  "RetryWithResult quiet_runtime (DefaultRetryConfig\<lparr>MaxAttempts := 0\<rparr>)
     (\<lambda>n::nat. ((n, Some (ErrorString ''down'')), Suc n)) 9 m_empty 0
     = ((9, None), retry_count ''exhausted'' m_empty, 0)"
  by (rule retry_zero_attempts) simp

text \<open>
  C30: The delay before a retry is at least a millisecond and at most the configured maximum (or
  a millisecond, if that is more), for every attempt, every base delay and every random draw
  between 0 and 1, with the rounding of the floating-point computation accounted for. The
  maximum must be at most \<open>2^53\<close> nanoseconds (104 days), where it converts exactly.
\<close>

theorem calculateDelay_bounds:
  assumes "rt_Float64 rt w = (Fin r, w')" and "0 \<le> r" and "r \<le> 1"
    and "0 \<le> maxDelay" and "maxDelay \<le> 2 ^ 53"
  shows "millisecond \<le> fst (calculateDelay rt attempt baseDelay maxDelay w) \<and>
         fst (calculateDelay rt attempt baseDelay maxDelay w) \<le> max millisecond maxDelay"
proof -
  let ?raw = "f_mul (f_of_int baseDelay) (fl (pow2 attempt))"
  let ?b = "if f_less (f_of_int maxDelay) ?raw then f_of_int maxDelay else ?raw"
  have max: "f_of_int maxDelay = Fin (of_int maxDelay)" using assms(4,5) by (rule f_of_int_exact)
  have md: "is_int64 maxDelay" using assms(4,5) by (simp add: is_int64_def)
  have bound: "int64_of (f_mul (Fin r) ?b) \<le> maxDelay"
  proof (cases ?b)
    case (Fin b)
    then have "is_double \<bar>b\<bar> \<and> \<bar>b\<bar> < pow2 1024"
      using f_of_int_double [of maxDelay b] fl_Fin_double
      by (cases "f_of_int baseDelay"; cases "fl (pow2 attempt)")
        (auto simp: inf_times_def split: if_splits)
    moreover have "b \<le> of_int maxDelay" using Fin max by (auto split: if_splits)
    ultimately show ?thesis
      using capped_jitter_bound [of r b maxDelay] Fin assms(2-4) md by simp
  next
    case PosInf
    then show ?thesis using max by (cases ?raw) (auto split: if_splits)
  qed (use assms(4) in \<open>auto simp: inf_times_def\<close>)
  then show ?thesis using assms(1) by (simp add: calculateDelay_def Let_def)
qed

theorem calculateDelay_bounds_witness:
  "millisecond \<le> fst (calculateDelay (demo_runtime 10) 2 (500 * millisecond) (10 * second) 0)"
  using calculateDelay_bounds [of "demo_runtime 10" 0 "1 / 2" 0 "10 * second" 2 "500 * millisecond"]
  by (simp add: demo_runtime_def time_defs)

end
