(* ===== verification/Provider_Selection.thy ===== *)
theory Provider_Selection
  imports Market_Model
begin

text \<open>
  \<open>internal/provider/provider.go\<close>, \<open>selector.go\<close> and \<open>registry.go\<close>: the
  provider interface, the classification of provider errors that decides about retries, the
  ordered selection with disabled providers, and the factories by name.

  A provider is a record of its two methods. \<open>pv_Fetch\<close> runs on a world the caller
  supplies and returns the data, the error (if any) and the changed world. A nil slice and an
  empty slice are both the empty list.
\<close>

record 'w Provider =
  pv_Name :: string
  pv_Fetch :: "string list \<Rightarrow> 'w \<Rightarrow> (MarketData list \<times> go_error option) \<times> 'w"

section \<open>Errors\<close>

text \<open>The text of an error; \<open>quote\<close> is the \<open>%q\<close> verb of \<open>fmt\<close>.\<close>

fun error_text :: "(string \<Rightarrow> string) \<Rightarrow> go_error \<Rightarrow> string" where
  "error_text quote (ErrorString s) = s"
| "error_text quote (Wrapped p e s) = p @ error_text quote e @ s"
| "error_text quote Canceled = ''context canceled''"
| "error_text quote DeadlineExceeded = ''context deadline exceeded''"
| "error_text quote RedisNil = ''redis: nil''"
| "error_text quote ErrNoRows = ''sql: no rows in result set''"
| "error_text quote ErrCircuitOpen = ''circuit breaker is open''"
| "error_text quote (ValidationErr field val msg) =
     ''validation failed for field '' @ field @ '': '' @ msg @ '' (value: '' @ quote val @ '')''"
| "error_text quote (ProviderErr prov code msg (Some e) rl tr pm) =
     ''provider '' @ prov @ '': '' @ msg @ '' (status '' @ strconv_Itoa code @ ''): ''
       @ error_text quote e"
| "error_text quote (ProviderErr prov code msg None rl tr pm) =
     ''provider '' @ prov @ '': '' @ msg @ '' (status '' @ strconv_Itoa code @ '')''"

definition StatusTooManyRequests :: int where
  "StatusTooManyRequests = 429"

definition StatusOK :: int where
  "StatusOK = 200"

definition IsRateLimited :: "go_error option \<Rightarrow> bool" where
  "IsRateLimited err =
     (case Option.bind err errors_As_ProviderError of
        Some pe \<Rightarrow> pe_RateLimited pe \<or> pe_StatusCode pe = StatusTooManyRequests
      | None \<Rightarrow> False)"

definition IsTransient :: "go_error option \<Rightarrow> bool" where
  "IsTransient err =
     (case err of
        None \<Rightarrow> False
      | Some e \<Rightarrow>
          if errors_Is e DeadlineExceeded then True
          else case errors_As_ProviderError e of
                 Some pe \<Rightarrow>
                   if pe_Transient pe then True
                   else if 500 \<le> pe_StatusCode pe \<and> pe_StatusCode pe < 600 then True
                   else pe_StatusCode pe = StatusTooManyRequests
               | None \<Rightarrow> False)"

definition IsPermanent :: "go_error option \<Rightarrow> bool" where
  "IsPermanent err =
     (case err of
        None \<Rightarrow> False
      | Some e \<Rightarrow>
          (case errors_As_ProviderError e of
             Some pe \<Rightarrow>
               if pe_Permanent pe then True
               else 400 \<le> pe_StatusCode pe \<and> pe_StatusCode pe < 500 \<and>
                    pe_StatusCode pe \<noteq> StatusTooManyRequests
           | None \<Rightarrow> False))"

section \<open>Selector\<close>

record 'w Selector =
  sel_ordered :: "'w Provider list"
  sel_disabled :: "(string, bool) gomap"

definition NewSelector :: "'w Provider list \<Rightarrow> string list \<Rightarrow> 'w Selector" where
  "NewSelector providers disabledNames =
     \<lparr>sel_ordered = providers,
      sel_disabled = fold (\<lambda>name d. gm_put name True d) disabledNames []\<rparr>"

fun Eligible_loop :: "(string, bool) gomap \<Rightarrow> 'w Provider list \<Rightarrow> 'w Provider list \<Rightarrow> 'w Provider list" where
  "Eligible_loop disabled result [] = result"
| "Eligible_loop disabled result (p # ps) =
     (if \<not> gm_true disabled (pv_Name p) then Eligible_loop disabled (result @ [p]) ps
      else Eligible_loop disabled result ps)"

definition Eligible :: "'w Selector \<Rightarrow> 'w Provider list" where
  "Eligible s = Eligible_loop (sel_disabled s) [] (sel_ordered s)"

definition Primary :: "'w Selector \<Rightarrow> go_error + 'w Provider" where
  "Primary s =
     (case Eligible s of
        [] \<Rightarrow> Inl (ErrorString ''no eligible providers available'')
      | p # _ \<Rightarrow> Inr p)"

definition Fallbacks :: "'w Selector \<Rightarrow> 'w Provider list" where
  "Fallbacks s =
     (let eligible = Eligible s in if length eligible \<le> 1 then [] else drop 1 eligible)"

definition Disable :: "string \<Rightarrow> 'w Selector \<Rightarrow> 'w Selector" where
  "Disable name s = s\<lparr>sel_disabled := gm_put name True (sel_disabled s)\<rparr>"

definition Enable :: "string \<Rightarrow> 'w Selector \<Rightarrow> 'w Selector" where
  "Enable name s = s\<lparr>sel_disabled := gm_del name (sel_disabled s)\<rparr>"

definition IsDisabled :: "string \<Rightarrow> 'w Selector \<Rightarrow> bool" where
  "IsDisabled name s = gm_true (sel_disabled s) name"

definition Selector_All :: "'w Selector \<Rightarrow> 'w Provider list" where
  "Selector_All s = sel_ordered s"

definition Selector_Names :: "'w Selector \<Rightarrow> string list" where
  "Selector_Names s = map pv_Name (sel_ordered s)"

section \<open>Registry\<close>

type_synonym 'w Factory = "string \<Rightarrow> duration \<Rightarrow> 'w Provider"

record 'w Registry =
  reg_factories :: "(string, 'w Factory) gomap"
  reg_urls :: "(string, string) gomap"

definition Register :: "string \<Rightarrow> 'w Factory \<Rightarrow> 'w Registry \<Rightarrow> 'w Registry" where
  "Register name factory r = r\<lparr>reg_factories := gm_put name factory (reg_factories r)\<rparr>"

text \<open>The two built-in factories are the constructors of the adapters.\<close>

definition NewRegistry :: "'w Factory \<Rightarrow> 'w Factory \<Rightarrow> 'w Registry" where
  "NewRegistry newCoinGecko newCoinCap =
     Register ''coincap'' newCoinCap
       (Register ''coingecko'' newCoinGecko \<lparr>reg_factories = [], reg_urls = []\<rparr>)"

definition SetBaseURL :: "string \<Rightarrow> string \<Rightarrow> 'w Registry \<Rightarrow> 'w Registry" where
  "SetBaseURL name baseURL r = r\<lparr>reg_urls := gm_put name baseURL (reg_urls r)\<rparr>"

definition Registry_Create ::
    "string \<Rightarrow> string \<Rightarrow> duration \<Rightarrow> 'w Registry \<Rightarrow> go_error + 'w Provider" where
  "Registry_Create name defaultURL timeout r =
     (case gm_get (reg_factories r) name of
        None \<Rightarrow> Inl (ErrorString (''unknown provider: '' @ name))
      | Some factory \<Rightarrow>
          (let baseURL = (case gm_get (reg_urls r) name of Some u \<Rightarrow> u | None \<Rightarrow> defaultURL)
           in Inr (factory baseURL timeout)))"

definition Available :: "'w Registry \<Rightarrow> string list" where
  "Available r = map fst (reg_factories r)"

section \<open>Interface: ordered selection\<close>

text \<open>
  What the orchestrator relies on: the eligible providers, and switches that change exactly
  one name. The priority order never changes.
\<close>

locale selection =
  fixes eligible :: "'s \<Rightarrow> 'p list"
    and all :: "'s \<Rightarrow> 'p list"
    and name :: "'p \<Rightarrow> string"
    and off :: "string \<Rightarrow> 's \<Rightarrow> bool"
    and disable :: "string \<Rightarrow> 's \<Rightarrow> 's"
    and enable :: "string \<Rightarrow> 's \<Rightarrow> 's"
  assumes eligible_filter: "eligible s = filter (\<lambda>p. \<not> off (name p) s) (all s)"
    and off_disable: "off n (disable k s) = (n = k \<or> off n s)"
    and off_enable: "off n (enable k s) = (n \<noteq> k \<and> off n s)"
    and all_disable: "all (disable k s) = all s"
    and all_enable: "all (enable k s) = all s"
begin

lemma eligible_disable: "eligible (disable k s) = filter (\<lambda>p. name p \<noteq> k) (eligible s)"
  by (auto simp: eligible_filter off_disable all_disable intro: filter_cong)

lemma eligible_enable_disable: "eligible (enable k (disable k s)) = eligible (enable k s)"
  by (auto simp: eligible_filter off_disable off_enable all_disable all_enable intro: filter_cong)

lemma eligible_disable_enable: "eligible (disable k (enable k s)) = eligible (disable k s)"
  by (auto simp: eligible_filter off_disable off_enable all_disable all_enable intro: filter_cong)

lemma eligible_not_off: "p \<in> set (eligible s) \<Longrightarrow> \<not> off (name p) s"
  by (simp add: eligible_filter)

end

section \<open>Lemmas\<close>

lemma gm_true_put: "gm_true (gm_put k b m) n = (if n = k then b else gm_true m n)"
  by (simp add: gm_true_def gm_simps)

lemma gm_true_del: "gm_true (gm_del k m) n = (n \<noteq> k \<and> gm_true m n)"
  by (simp add: gm_true_def gm_simps)

lemma gm_true_puts: "gm_true (fold (\<lambda>k d. gm_put k True d) ks m) n = (n \<in> set ks \<or> gm_true m n)"
  by (induction ks arbitrary: m) (auto simp: gm_true_put)

lemma Eligible_loop_filter:
  "Eligible_loop d result ps = result @ filter (\<lambda>p. \<not> gm_true d (pv_Name p)) ps"
  by (induction d result ps rule: Eligible_loop.induct) auto

interpretation sel: selection Eligible Selector_All pv_Name IsDisabled Disable Enable
  by unfold_locales
    (simp_all add: Eligible_def Eligible_loop_filter Selector_All_def IsDisabled_def Disable_def
      Enable_def gm_true_put gm_true_del)

lemma IsDisabled_NewSelector: "IsDisabled n (NewSelector ps ds) = (n \<in> set ds)"
proof -
  have "gm_true (fold (\<lambda>k d. gm_put k True d) ds []) n = (n \<in> set ds)"
    by (simp add: gm_true_puts) (simp add: gm_true_def)
  then show ?thesis by (simp add: IsDisabled_def NewSelector_def)
qed

lemma IsTransient_wrapped [simp]: "IsTransient (Some (Wrapped p e s)) = IsTransient (Some e)"
  by (simp add: IsTransient_def)

lemma IsPermanent_wrapped [simp]: "IsPermanent (Some (Wrapped p e s)) = IsPermanent (Some e)"
  by (simp add: IsPermanent_def)

lemma IsRateLimited_wrapped [simp]: "IsRateLimited (Some (Wrapped p e s)) = IsRateLimited (Some e)"
  by (simp add: IsRateLimited_def)

section \<open>Properties\<close>

text \<open>
  Selection: a new selector's eligible providers are exactly those not disabled, in
  priority order; disabling a provider removes it and nothing else; the primary is the first
  eligible one and the fallbacks are the rest; of a \<open>Disable\<close> and an \<open>Enable\<close> of the
  same provider only the later one counts.
\<close>

theorem selection_order:
  "Eligible (NewSelector ps ds) = filter (\<lambda>p. pv_Name p \<notin> set ds) ps \<and>
   Eligible (Disable n s) = filter (\<lambda>p. pv_Name p \<noteq> n) (Eligible s) \<and>
   (case Primary s of Inl _ \<Rightarrow> Eligible s = [] \<and> Fallbacks s = []
                    | Inr p \<Rightarrow> Eligible s = p # Fallbacks s) \<and>
   Eligible (Enable n (Disable n s)) = Eligible (Enable n s) \<and>
   Eligible (Disable n (Enable n s)) = Eligible (Disable n s)"
proof -
  have all: "Selector_All (NewSelector ps ds) = ps"
    by (simp add: Selector_All_def NewSelector_def)
  have "Eligible (NewSelector ps ds) = filter (\<lambda>p. pv_Name p \<notin> set ds) ps"
    by (simp add: sel.eligible_filter IsDisabled_NewSelector all)
  moreover have "case Primary s of Inl _ \<Rightarrow> Eligible s = [] \<and> Fallbacks s = []
      | Inr p \<Rightarrow> Eligible s = p # Fallbacks s"
    by (cases "Eligible s") (auto simp: Primary_def Fallbacks_def)
  ultimately show ?thesis
    using sel.eligible_disable [of n s] sel.eligible_enable_disable [of n s]
      sel.eligible_disable_enable [of n s]
    by auto
qed

end
