(* ===== verification/Go_Encoding.thy ===== *)
theory Go_Encoding
  imports Go_Strings "HOL-Library.Word"
begin

text \<open>
  Go's \<open>encoding/base64\<close> (the URL alphabet with padding), \<open>encoding/hex\<close>,
  \<open>crypto/sha256\<close> and \<open>crypto/hmac\<close>, as far as the API uses them. Byte slices are
  strings. The hash is the function of FIPS 180-4 on 32-bit words and the keyed hash that of
  RFC 2104; no theorem evaluates them or assumes more of them than that they are functions.
\<close>

unbundle bit_operations_syntax

section \<open>Base64\<close>

definition b64_alphabet :: string where
  "b64_alphabet = ''ABCDEFGHIJKLMNOPQRSTUVWXYZabcdefghijklmnopqrstuvwxyz0123456789-_''"

definition b64_char :: "nat \<Rightarrow> char" where
  "b64_char n = b64_alphabet ! n"

definition b64_val :: "char \<Rightarrow> nat option" where
  "b64_val c = map_of (zip b64_alphabet [0..<64]) c"

abbreviation byte :: "char \<Rightarrow> nat" where
  "byte c \<equiv> of_char c"

text \<open>
  \<open>URLEncoding.DecodeString\<close>: line breaks are skipped; every group has four characters of
  the alphabet, except that the last may end in padding. The bits a padded group leaves over
  are not checked.
\<close>

fun b64_groups :: "string \<Rightarrow> string option" where
  "b64_groups [] = Some []"
| "b64_groups (a # b # c # d # s) =
     (case (b64_val a, b64_val b) of
        (Some i, Some j) \<Rightarrow>
          if c = CHR ''='' then
            (if d = CHR ''='' \<and> s = [] then Some [char_of (i * 4 + j div 16)] else None)
          else
            (case b64_val c of
               None \<Rightarrow> None
             | Some k \<Rightarrow>
                 if d = CHR ''='' then
                   (if s = [] then Some [char_of (i * 4 + j div 16), char_of (j mod 16 * 16 + k div 4)]
                    else None)
                 else
                   (case (b64_val d, b64_groups s) of
                      (Some l, Some r) \<Rightarrow>
                        Some (char_of (i * 4 + j div 16) # char_of (j mod 16 * 16 + k div 4)
                                # char_of (k mod 4 * 64 + l) # r)
                    | _ \<Rightarrow> None))
      | _ \<Rightarrow> None)"
| "b64_groups _ = None"

definition is_newline :: "char \<Rightarrow> bool" where
  "is_newline c \<longleftrightarrow> byte c = 10 \<or> byte c = 13"

definition URLEncoding_DecodeString :: "string \<Rightarrow> string option" where
  "URLEncoding_DecodeString s = b64_groups (filter (\<lambda>c. \<not> is_newline c) s)"

text \<open>\<open>RawURLEncoding.EncodeToString\<close>: the encoding of a token's segments, without padding.\<close>

fun RawURLEncoding_EncodeToString :: "string \<Rightarrow> string" where
  "RawURLEncoding_EncodeToString [] = []"
| "RawURLEncoding_EncodeToString [x] =
     [b64_char (byte x div 4), b64_char (byte x mod 4 * 16)]"
| "RawURLEncoding_EncodeToString [x, y] =
     [b64_char (byte x div 4), b64_char (byte x mod 4 * 16 + byte y div 16),
      b64_char (byte y mod 16 * 4)]"
| "RawURLEncoding_EncodeToString (x # y # z # s) =
     b64_char (byte x div 4) # b64_char (byte x mod 4 * 16 + byte y div 16)
       # b64_char (byte y mod 16 * 4 + byte z div 64) # b64_char (byte z mod 64)
       # RawURLEncoding_EncodeToString s"

text \<open>What an encoding without padding lacks.\<close>

definition b64_padding :: "string \<Rightarrow> string" where
  "b64_padding s = (if length s mod 4 = 2 then ''=='' else if length s mod 4 = 3 then ''='' else '''')"

section \<open>Hexadecimal\<close>

definition hex_lower :: "nat \<Rightarrow> char" where
  "hex_lower d = (if d < 10 then digit_char d else char_of (87 + d))"

definition hex_EncodeToString :: "string \<Rightarrow> string" where
  "hex_EncodeToString s = concat (map (\<lambda>c. [hex_lower (byte c div 16), hex_lower (byte c mod 16)]) s)"

section \<open>SHA-256 and HMAC\<close>

type_synonym w32 = "32 word"

text \<open>
  The constants of the hash are the first 32 bits of the fractional parts of the cube roots of
  the first 64 primes and of the square roots of the first eight. A root is found bit by bit.
\<close>

fun root_bits :: "nat \<Rightarrow> nat \<Rightarrow> nat \<Rightarrow> nat \<Rightarrow> nat" where
  "root_bits k n 0 acc = acc"
| "root_bits k n (Suc b) acc = root_bits k n b (if (acc + 2 ^ b) ^ k \<le> n then acc + 2 ^ b else acc)"

definition root_fraction :: "nat \<Rightarrow> nat \<Rightarrow> w32" where
  "root_fraction k p = word_of_nat (root_bits k (p * 2 ^ (32 * k)) 36 0)"

definition sha_primes :: "nat list" where
  "sha_primes = filter (\<lambda>p. list_all (\<lambda>d. p mod d \<noteq> 0) [2..<p]) [2..<312]"

definition sha_k :: "w32 list" where
  "sha_k = map (root_fraction 3) sha_primes"

definition sha_init :: "w32 list" where
  "sha_init = map (root_fraction 2) (take 8 sha_primes)"

definition rotr :: "nat \<Rightarrow> w32 \<Rightarrow> w32" where
  "rotr n x = drop_bit n x OR push_bit (32 - n) x"

definition small_sigma0 :: "w32 \<Rightarrow> w32" where
  "small_sigma0 x = rotr 7 x XOR rotr 18 x XOR drop_bit 3 x"

definition small_sigma1 :: "w32 \<Rightarrow> w32" where
  "small_sigma1 x = rotr 17 x XOR rotr 19 x XOR drop_bit 10 x"

definition big_sigma0 :: "w32 \<Rightarrow> w32" where
  "big_sigma0 x = rotr 2 x XOR rotr 13 x XOR rotr 22 x"

definition big_sigma1 :: "w32 \<Rightarrow> w32" where
  "big_sigma1 x = rotr 6 x XOR rotr 11 x XOR rotr 25 x"

definition bytes_be :: "nat \<Rightarrow> nat \<Rightarrow> string" where
  "bytes_be n x = map (\<lambda>i. char_of (x div 256 ^ (n - 1 - i))) [0..<n]"

definition word_of_bytes :: "string \<Rightarrow> w32" where
  "word_of_bytes bs = foldl (\<lambda>a b. push_bit 8 a OR word_of_nat (byte b)) 0 bs"

fun chunks :: "nat \<Rightarrow> nat \<Rightarrow> 'a list \<Rightarrow> 'a list list" where
  "chunks 0 n xs = []"
| "chunks (Suc k) n xs = take n xs # chunks k n (drop n xs)"

definition sha_pad :: "string \<Rightarrow> string" where
  "sha_pad s =
     s @ [char_of (128 :: nat)] @ replicate ((119 - length s mod 64) mod 64) (char_of (0 :: nat))
       @ bytes_be 8 (8 * length s mod 2 ^ 64)"

fun sha_extend :: "nat \<Rightarrow> w32 list \<Rightarrow> w32 list" where
  "sha_extend 0 ws = ws"
| "sha_extend (Suc n) ws =
     (let i = length ws
      in sha_extend n
           (ws @ [ws ! (i - 16) + small_sigma0 (ws ! (i - 15)) + ws ! (i - 7) + small_sigma1 (ws ! (i - 2))]))"

fun sha_round :: "w32 \<times> w32 \<Rightarrow> w32 list \<Rightarrow> w32 list" where
  "sha_round (k, x) [a, b, c, d, e, f, g, h] =
     (let t1 = h + big_sigma1 e + ((e AND f) XOR ((NOT e) AND g)) + k + x;
          t2 = big_sigma0 a + ((a AND b) XOR (a AND c) XOR (b AND c))
      in [t1 + t2, a, b, c, d + t1, e, f, g])"
| "sha_round _ st = st"

definition sha_block :: "string \<Rightarrow> w32 list \<Rightarrow> w32 list" where
  "sha_block blk st =
     (let ws = sha_extend 48 (map word_of_bytes (chunks 16 4 blk))
      in map2 (+) st (fold sha_round (zip sha_k ws) st))"

definition sha256 :: "string \<Rightarrow> string" where
  "sha256 s =
     (let p = sha_pad s
      in concat (map (\<lambda>w. bytes_be 4 (unat w)) (fold sha_block (chunks (length p div 64) 64 p) sha_init)))"

definition xor_byte :: "nat \<Rightarrow> char \<Rightarrow> char" where
  "xor_byte n c = char_of (n XOR byte c)"

definition hmac_sha256 :: "string \<Rightarrow> string \<Rightarrow> string" where
  "hmac_sha256 key msg =
     (let k0 = (if 64 < length key then sha256 key else key);
          k = k0 @ replicate (64 - length k0) (char_of (0 :: nat))
      in sha256 (map (xor_byte 92) k @ sha256 (map (xor_byte 54) k @ msg)))"

section \<open>Laws\<close>

lemma b64_table:
  "list_all (\<lambda>n. b64_val (b64_char n) = Some n \<and> b64_char n \<noteq> CHR ''='' \<and> \<not> is_newline (b64_char n)
     \<and> b64_char n \<noteq> CHR ''.'') [0..<64]"
  by code_simp

lemma b64_char_facts:
  assumes "n < 64"
  shows "b64_val (b64_char n) = Some n" "b64_char n \<noteq> CHR ''=''" "\<not> is_newline (b64_char n)"
    "b64_char n \<noteq> CHR ''.''"
  using b64_table assms by (simp_all add: list_all_iff)

lemma byte_less [simp]: "byte c < 256"
  using of_char_mod_256 [of c] by (metis mod_less_divisor zero_less_numeral)

lemma byte_high:
  "byte y div 16 < 16" "byte z div 64 < 4" "byte y div 16 div 16 = 0" "byte z div 64 div 4 = 0"
  "byte y div 16 mod 16 = byte y div 16" "byte z div 64 mod 4 = byte z div 64"
  using byte_less [of y] byte_less [of z]
  by (simp_all add: less_mult_imp_div_less)

lemma byte_bits: "byte x div 4 < 64" "byte x mod 4 * 16 < 64" "byte x mod 4 * 16 + byte y div 16 < 64"
  "byte y mod 16 * 4 < 64" "byte y mod 16 * 4 + byte z div 64 < 64" "byte z mod 64 < 64"
proof -
  have "byte x mod 4 < 4" "byte y mod 16 < 16" by simp_all
  then show "byte x mod 4 * 16 < 64" "byte x mod 4 * 16 + byte y div 16 < 64"
    "byte y mod 16 * 4 < 64" "byte y mod 16 * 4 + byte z div 64 < 64"
    using byte_high(1) [of y] byte_high(2) [of z] by linarith+
qed (simp_all add: less_mult_imp_div_less)

lemmas b64_simps = b64_char_facts [OF byte_bits(1)] b64_char_facts [OF byte_bits(2)]
  b64_char_facts [OF byte_bits(3)] b64_char_facts [OF byte_bits(4)] b64_char_facts [OF byte_bits(5)]
  b64_char_facts [OF byte_bits(6)] byte_high

lemma Encode_chars:
  "c \<in> set (RawURLEncoding_EncodeToString s) \<Longrightarrow> c \<noteq> CHR ''.'' \<and> c \<noteq> CHR ''='' \<and> \<not> is_newline c"
  by (induction s rule: RawURLEncoding_EncodeToString.induct) (auto simp: b64_simps)

lemma Encode_no_newlines:
  "filter (\<lambda>c. \<not> is_newline c) (RawURLEncoding_EncodeToString s) = RawURLEncoding_EncodeToString s"
  using Encode_chars by (simp add: filter_id_conv)

lemma b64_groups_Encode:
  "b64_groups (RawURLEncoding_EncodeToString s @ b64_padding (RawURLEncoding_EncodeToString s)) = Some s"
proof (induction s rule: RawURLEncoding_EncodeToString.induct)
  case (4 x y z s)
  have "b64_padding (RawURLEncoding_EncodeToString (x # y # z # s)) = b64_padding (RawURLEncoding_EncodeToString s)"
    by (simp add: b64_padding_def)
  with 4 show ?case by (simp add: b64_simps)
qed (simp_all add: b64_padding_def b64_simps)

lemma Decode_Encode:
  "URLEncoding_DecodeString (RawURLEncoding_EncodeToString s @ b64_padding (RawURLEncoding_EncodeToString s))
     = Some s"
proof -
  have "filter (\<lambda>c. \<not> is_newline c) (b64_padding t) = b64_padding t" for t
    by (simp add: b64_padding_def is_newline_def)
  then show ?thesis
    by (simp add: URLEncoding_DecodeString_def Encode_no_newlines b64_groups_Encode)
qed

end
