(* ===== verification/Go_Json.thy ===== *)
theory Go_Json
  imports Go_Encoding
begin

text \<open>
  Go's \<open>encoding/json\<close>: the grammar \<open>Unmarshal\<close> accepts, decoding into a struct of
  string and integer fields, and the encoding of strings.

  Parsing is recursive with fuel; every second call is made on a shorter text, so twice the
  length of the text plus two is enough (\<open>json_fuel\<close>). Nesting is limited to 10000 as in the
  library. In strings, bytes that are not UTF-8 and unpaired surrogates are read as U+FFFD.
\<close>

datatype json =
    JNull
  | JBool bool
  | JNumber string
  | JString string
  | JArray "json list"
  | JObject "(string \<times> json) list"

section \<open>Lexical elements\<close>

definition dquote :: char where
  "dquote = char_of (34 :: nat)"

definition backslash :: char where
  "backslash = char_of (92 :: nat)"

definition json_space :: "char \<Rightarrow> bool" where
  "json_space c \<longleftrightarrow> byte c \<in> {9, 10, 13, 32}"

definition skip_space :: "string \<Rightarrow> string" where
  "skip_space s = dropWhile json_space s"

fun hex4 :: "string \<Rightarrow> (nat \<times> string) option" where
  "hex4 (a # b # c # d # s) =
     (case (hex_value a, hex_value b, hex_value c, hex_value d) of
        (Some i, Some j, Some k, Some l) \<Rightarrow> Some (((i * 16 + j) * 16 + k) * 16 + l, s)
      | _ \<Rightarrow> None)"
| "hex4 _ = None"

definition is_surrogate :: "nat \<Rightarrow> bool" where
  "is_surrogate u \<longleftrightarrow> 55296 \<le> u \<and> u < 57344"

definition replacement :: string where
  "replacement = [char_of (239 :: nat), char_of (191 :: nat), char_of (189 :: nat)]"

definition encode_rune :: "nat \<Rightarrow> string" where
  "encode_rune u =
     (if u < 128 then [char_of u]
      else if u < 2048 then [char_of (192 + u div 64), char_of (128 + u mod 64)]
      else if u < 65536 then
        [char_of (224 + u div 4096), char_of (128 + u div 64 mod 64), char_of (128 + u mod 64)]
      else
        [char_of (240 + u div 262144), char_of (128 + u div 4096 mod 64),
         char_of (128 + u div 64 mod 64), char_of (128 + u mod 64)])"

text \<open>After a backslash: the bytes meant and the rest of the text.\<close>

definition unescape_u :: "string \<Rightarrow> (string \<times> string) option" where
  "unescape_u s =
     (case hex4 s of
        None \<Rightarrow> None
      | Some (u, r) \<Rightarrow>
          if is_surrogate u then
            (case (if take 2 r = [backslash, CHR ''u''] then hex4 (drop 2 r) else None) of
               None \<Rightarrow> Some (replacement, r)
             | Some (u', r') \<Rightarrow>
                 if u < 56320 \<and> 56320 \<le> u' \<and> u' < 57344
                 then Some (encode_rune (65536 + (u - 55296) * 1024 + (u' - 56320)), r')
                 else Some (replacement, r))
          else Some (encode_rune u, r))"

fun unescape :: "string \<Rightarrow> (string \<times> string) option" where
  "unescape [] = None"
| "unescape (c # s) =
     (if c = dquote \<or> c = backslash \<or> c = CHR ''/'' then Some ([c], s)
      else if c = CHR ''b'' then Some ([char_of (8 :: nat)], s)
      else if c = CHR ''f'' then Some ([char_of (12 :: nat)], s)
      else if c = CHR ''n'' then Some ([char_of (10 :: nat)], s)
      else if c = CHR ''r'' then Some ([char_of (13 :: nat)], s)
      else if c = CHR ''t'' then Some ([char_of (9 :: nat)], s)
      else if c = CHR ''u'' then unescape_u s
      else None)"

definition prepend :: "string \<Rightarrow> (string \<times> string) option \<Rightarrow> (string \<times> string) option" where
  "prepend p r = (case r of None \<Rightarrow> None | Some (t, s) \<Rightarrow> Some (p @ t, s))"

lemma hex4_shorter: "hex4 s = Some (u, r) \<Longrightarrow> length r < length s"
  by (cases s rule: hex4.cases) (auto split: option.splits)

lemma unescape_u_shorter: "unescape_u s = Some (p, r) \<Longrightarrow> length r < length s"
  by (auto simp: unescape_u_def dest!: hex4_shorter split: option.splits if_splits)

lemma unescape_shorter: "unescape s = Some (p, r) \<Longrightarrow> length r < length s"
  by (cases s) (auto dest: unescape_u_shorter split: if_splits)

text \<open>The rest of a string literal after its opening quote.\<close>

function json_chars :: "string \<Rightarrow> (string \<times> string) option" where
  "json_chars s =
     (case s of
        [] \<Rightarrow> None
      | c # r \<Rightarrow>
          if c = dquote then Some ([], r)
          else if c = backslash then
            (case unescape r of None \<Rightarrow> None | Some (p, r') \<Rightarrow> prepend p (json_chars r'))
          else if byte c < 32 then None
          else if rune_len s = 0 then prepend replacement (json_chars r)
          else prepend (take (rune_len s) s) (json_chars (drop (rune_len s) s)))"
  by pat_completeness auto
termination by (relation "measure length") (auto dest: unescape_shorter)

declare json_chars.simps [simp del]

definition json_digits :: "string \<Rightarrow> (string \<times> string) option" where
  "json_digits s =
     (if takeWhile is_digit s = [] then None else Some (takeWhile is_digit s, dropWhile is_digit s))"

definition json_int :: "string \<Rightarrow> (string \<times> string) option" where
  "json_int s = (if take 1 s = ''0'' then Some (''0'', drop 1 s) else json_digits s)"

definition json_frac :: "string \<Rightarrow> (string \<times> string) option" where
  "json_frac s = (if take 1 s = ''.'' then prepend ''.'' (json_digits (drop 1 s)) else Some ([], s))"

definition json_exp :: "string \<Rightarrow> (string \<times> string) option" where
  "json_exp s =
     (if take 1 s = ''e'' \<or> take 1 s = ''E'' then
        (let r = drop 1 s
         in if take 1 r = ''+'' \<or> take 1 r = ''-'' then prepend (take 1 s @ take 1 r) (json_digits (drop 1 r))
            else prepend (take 1 s) (json_digits r))
      else Some ([], s))"

definition json_number :: "string \<Rightarrow> (string \<times> string) option" where
  "json_number s =
     (let sign = (if take 1 s = ''-'' then ''-'' else '''')
      in case json_int (drop (length sign) s) of
           None \<Rightarrow> None
         | Some (i, r) \<Rightarrow>
             (case json_frac r of
                None \<Rightarrow> None
              | Some (f, r1) \<Rightarrow>
                  (case json_exp r1 of
                     None \<Rightarrow> None
                   | Some (e, r2) \<Rightarrow> Some (sign @ i @ f @ e, r2))))"

section \<open>Values\<close>

definition maxNestingDepth :: nat where
  "maxNestingDepth = 10000"

fun json_value :: "nat \<Rightarrow> nat \<Rightarrow> string \<Rightarrow> (json \<times> string) option"
  and json_elements :: "nat \<Rightarrow> nat \<Rightarrow> string \<Rightarrow> (json list \<times> string) option"
  and json_members :: "nat \<Rightarrow> nat \<Rightarrow> string \<Rightarrow> ((string \<times> json) list \<times> string) option" where
  "json_value 0 d s = None"
| "json_value (Suc n) d s =
     (case skip_space s of
        [] \<Rightarrow> None
      | c # r \<Rightarrow>
          if c = CHR ''{'' then
            (if maxNestingDepth \<le> d then None
             else if take 1 (skip_space r) = ''}'' then Some (JObject [], drop 1 (skip_space r))
             else map_option (\<lambda>(ms, r'). (JObject ms, r')) (json_members n (Suc d) r))
          else if c = CHR ''['' then
            (if maxNestingDepth \<le> d then None
             else if take 1 (skip_space r) = '']'' then Some (JArray [], drop 1 (skip_space r))
             else map_option (\<lambda>(vs, r'). (JArray vs, r')) (json_elements n (Suc d) r))
          else if c = dquote then map_option (\<lambda>(t, r'). (JString t, r')) (json_chars r)
          else if take 4 (c # r) = ''null'' then Some (JNull, drop 3 r)
          else if take 4 (c # r) = ''true'' then Some (JBool True, drop 3 r)
          else if take 5 (c # r) = ''false'' then Some (JBool False, drop 4 r)
          else map_option (\<lambda>(t, r'). (JNumber t, r')) (json_number (c # r)))"
| "json_elements 0 d s = None"
| "json_elements (Suc n) d s =
     (case json_value n d s of
        None \<Rightarrow> None
      | Some (v, r) \<Rightarrow>
          (case skip_space r of
             [] \<Rightarrow> None
           | c # r' \<Rightarrow>
               if c = CHR '']'' then Some ([v], r')
               else if c = CHR '','' then map_option (\<lambda>(vs, r''). (v # vs, r'')) (json_elements n d r')
               else None))"
| "json_members 0 d s = None"
| "json_members (Suc n) d s =
     (if take 1 (skip_space s) \<noteq> [dquote] then None
      else case json_chars (drop 1 (skip_space s)) of
             None \<Rightarrow> None
           | Some (k, r) \<Rightarrow>
               if take 1 (skip_space r) \<noteq> '':'' then None
               else case json_value n d (drop 1 (skip_space r)) of
                      None \<Rightarrow> None
                    | Some (v, r1) \<Rightarrow>
                        (case skip_space r1 of
                           [] \<Rightarrow> None
                         | c # r2 \<Rightarrow>
                             if c = CHR ''}'' then Some ([(k, v)], r2)
                             else if c = CHR '','' then
                               map_option (\<lambda>(ms, r3). ((k, v) # ms, r3)) (json_members n d r2)
                             else None))"

text \<open>\<open>json_elements\<close> calls \<open>json_value\<close> on the same text, so a text of length \<open>l\<close> may need \<open>2 * l\<close>.\<close>

definition json_parse :: "string \<Rightarrow> json option" where
  "json_parse s =
     (case json_value (2 * length s + 2) 0 s of
        None \<Rightarrow> None
      | Some (v, r) \<Rightarrow> if skip_space r = [] then Some v else None)"

section \<open>Decoding into structs\<close>

text \<open>
  A member sets the field whose name equals the key up to case; case folding maps the long s
  and the Kelvin sign to letters. \<open>null\<close> leaves a field as it is, a value of another type is
  an error.
\<close>

fun json_fold :: "string \<Rightarrow> string" where
  "json_fold [] = []"
| "json_fold (c # s) =
     (if byte c = 197 \<and> map byte (take 1 s) = [191] then CHR ''S'' # json_fold (drop 1 s)
      else if byte c = 226 \<and> map byte (take 2 s) = [132, 170] then CHR ''K'' # json_fold (drop 2 s)
      else char_upper c # json_fold s)"

fun string_member :: "string \<Rightarrow> string \<Rightarrow> (string \<times> json) list \<Rightarrow> string option" where
  "string_member name cur [] = Some cur"
| "string_member name cur ((k, v) # ms) =
     (if json_fold k = json_fold name then
        (case v of
           JString t \<Rightarrow> string_member name t ms
         | JNull \<Rightarrow> string_member name cur ms
         | _ \<Rightarrow> None)
      else string_member name cur ms)"

fun int_member :: "string \<Rightarrow> int \<Rightarrow> (string \<times> json) list \<Rightarrow> int option" where
  "int_member name cur [] = Some cur"
| "int_member name cur ((k, v) # ms) =
     (if json_fold k = json_fold name then
        (case v of
           JNumber t \<Rightarrow> (case strconv_Atoi t of None \<Rightarrow> None | Some i \<Rightarrow> int_member name i ms)
         | JNull \<Rightarrow> int_member name cur ms
         | _ \<Rightarrow> None)
      else int_member name cur ms)"

text \<open>The members \<open>Unmarshal\<close> decodes into a struct: those of an object, none for \<open>null\<close>.\<close>

definition json_struct :: "string \<Rightarrow> (string \<times> json) list option" where
  "json_struct s =
     (case json_parse s of
        Some (JObject ms) \<Rightarrow> Some ms
      | Some JNull \<Rightarrow> Some []
      | _ \<Rightarrow> None)"

section \<open>Encoding\<close>

definition escape_ascii :: "char \<Rightarrow> string" where
  "escape_ascii c =
     (if c = dquote \<or> c = backslash then [backslash, c]
      else if byte c = 8 then [backslash, CHR ''b'']
      else if byte c = 12 then [backslash, CHR ''f'']
      else if byte c = 10 then [backslash, CHR ''n'']
      else if byte c = 13 then [backslash, CHR ''r'']
      else if byte c = 9 then [backslash, CHR ''t'']
      else if byte c < 32 \<or> c \<in> {CHR ''<'', CHR ''>'', CHR ''&''} then
        backslash # ''u00'' @ [hex_lower (byte c div 16), hex_lower (byte c mod 16)]
      else [c])"

definition escape_rune :: "string \<Rightarrow> string" where
  "escape_rune p =
     (if map byte p = [226, 128, 168] then backslash # ''u2028''
      else if map byte p = [226, 128, 169] then backslash # ''u2029''
      else p)"

function json_escape :: "string \<Rightarrow> string" where
  "json_escape s =
     (case s of
        [] \<Rightarrow> []
      | c # r \<Rightarrow>
          if byte c < 128 then escape_ascii c @ json_escape r
          else if rune_len s = 0 then backslash # ''ufffd'' @ json_escape r
          else escape_rune (take (rune_len s) s) @ json_escape (drop (rune_len s) s))"
  by pat_completeness auto
termination by (relation "measure length") auto

declare json_escape.simps [simp del]

definition json_quote :: "string \<Rightarrow> string" where
  "json_quote s = dquote # json_escape s @ [dquote]"

text \<open>A struct of string fields.\<close>

definition json_object :: "(string \<times> string) list \<Rightarrow> string" where
  "json_object fs = ''{'' @ strings_Join (map (\<lambda>(k, v). json_quote k @ '':'' @ json_quote v) fs) '','' @ ''}''"

section \<open>Laws\<close>

lemma skip_space_le: "length (skip_space s) \<le> length s"
  by (simp add: skip_space_def length_dropWhile_le)

lemma prepend_Some: "prepend p r = Some (t, s) \<longleftrightarrow> (\<exists>u. r = Some (u, s) \<and> t = p @ u)"
  by (auto simp: prepend_def split: option.splits)

lemma json_chars_Nil [simp]: "json_chars [] = None"
  by (simp add: json_chars.simps)

lemma json_chars_Cons:
  "json_chars (c # r) =
     (if c = dquote then Some ([], r)
      else if c = backslash then
        (case unescape r of None \<Rightarrow> None | Some (p, r') \<Rightarrow> prepend p (json_chars r'))
      else if byte c < 32 then None
      else if rune_len (c # r) = 0 then prepend replacement (json_chars r)
      else prepend (take (rune_len (c # r)) (c # r)) (json_chars (drop (rune_len (c # r)) (c # r))))"
  by (subst json_chars.simps) (simp only: list.case)

lemma json_chars_shorter: "json_chars s = Some (t, r) \<Longrightarrow> length r < length s"
proof (induction s arbitrary: t rule: length_induct)
  case (1 s)
  then obtain c q where s: "s = c # q" by (cases s) auto
  have IH: "json_chars u = Some (t', r) \<Longrightarrow> length u < length s \<Longrightarrow> length r < length s" for u t'
    using 1(1) by (meson less_trans)
  have rest: "json_chars q = Some (t', r) \<Longrightarrow> length r < length s"
    "k \<noteq> 0 \<Longrightarrow> json_chars (drop k (c # q)) = Some (t', r) \<Longrightarrow> length r < length s"
    "unescape q = Some (p, u) \<Longrightarrow> json_chars u = Some (t', r) \<Longrightarrow> length r < length s" for k t' p u
    using IH [of q t'] IH [of "drop k (c # q)" t'] IH [of u t'] unescape_shorter [of q p u] s by auto
  have "json_chars (c # q) = Some (t, r)" using 1(2) s by simp
  then show ?case
    using rest s by (auto simp only: json_chars_Cons prepend_Some split: if_splits option.splits) auto
qed

lemma json_digits_shorter: "json_digits s = Some (t, r) \<Longrightarrow> length r < length s"
  by (cases s) (auto simp: json_digits_def length_dropWhile_le less_Suc_eq_le split: if_splits)

lemma json_int_shorter: "json_int s = Some (t, r) \<Longrightarrow> length r < length s"
  by (cases s) (auto simp: json_int_def dest: json_digits_shorter split: if_splits)

lemma json_frac_le: "json_frac s = Some (t, r) \<Longrightarrow> length r \<le> length s"
  by (auto simp: json_frac_def prepend_Some dest!: json_digits_shorter split: if_splits)

lemma json_exp_le: "json_exp s = Some (t, r) \<Longrightarrow> length r \<le> length s"
  by (auto simp: json_exp_def prepend_Some Let_def dest!: json_digits_shorter split: if_splits)

lemma json_number_shorter:
  assumes "json_number s = Some (t, r)"
  shows "length r < length s"
proof -
  obtain q i r1 f r2 e where "json_int (drop q s) = Some (i, r1)" "json_frac r1 = Some (f, r2)"
    "json_exp r2 = Some (e, r)"
    using assms by (auto simp: json_number_def Let_def split: option.splits)
  from json_int_shorter [OF this(1)] json_frac_le [OF this(2)] json_exp_le [OF this(3)]
  show ?thesis by simp
qed

lemma skip_space_Cons: "skip_space s = c # r \<Longrightarrow> length r < length s"
  using skip_space_le [of s] by simp

lemma drop_skip_space: "take 1 (skip_space s) = [c] \<Longrightarrow> length (drop 1 (skip_space s)) < length s"
  using skip_space_le [of s] by (cases "skip_space s") auto

text \<open>The ways in which the parser succeeds on a sequence.\<close>

lemma json_elements_Some:
  assumes "json_elements (Suc n) d s = Some (vs, r)"
  obtains v q c q' where "json_value n d s = Some (v, q)" "skip_space q = c # q'"
    "(vs = [v] \<and> r = q') \<or> (\<exists>vs'. json_elements n d q' = Some (vs', r))"
  using assms by (auto split: option.splits list.splits if_splits)

lemma json_members_Some:
  assumes "json_members (Suc n) d s = Some (ms, r)"
  obtains k q v q1 c q2 where "take 1 (skip_space s) = [dquote]"
    "json_chars (drop 1 (skip_space s)) = Some (k, q)" "take 1 (skip_space q) = '':''"
    "json_value n d (drop 1 (skip_space q)) = Some (v, q1)" "skip_space q1 = c # q2"
    "(ms = [(k, v)] \<and> r = q2) \<or> (\<exists>ms'. json_members n d q2 = Some (ms', r))"
  using assms by (auto split: option.splits list.splits if_splits)

lemma json_shorter:
  "json_value n d s = Some (v, r) \<Longrightarrow> length r < length s"
  "json_elements n d s = Some (vs, r) \<Longrightarrow> length r < length s"
  "json_members n d s = Some (ms, r) \<Longrightarrow> length r < length s"
proof (induction n arbitrary: d s v vs ms r)
  case (Suc n)
  {
    case 1
    obtain c q where s: "skip_space s = c # q" using 1 by (auto split: list.splits)
    have q: "length q < length s" using skip_space_Cons [OF s] .
    have q1: "length (skip_space q) - k < length s" for k using skip_space_le [of q] q by simp
    from 1 q q1 show ?case
      using Suc.IH(2) [of "Suc d" q] Suc.IH(3) [of "Suc d" q]
      by (fastforce simp: s dest!: json_chars_shorter json_number_shorter split: if_splits)
  next
    case 2
    then obtain v q c q' where *: "json_value n d s = Some (v, q)" "skip_space q = c # q'"
      "(vs = [v] \<and> r = q') \<or> (\<exists>vs'. json_elements n d q' = Some (vs', r))"
      by (rule json_elements_Some)
    have "length r \<le> length q'" using * Suc.IH(2) by fastforce
    with Suc.IH(1) [OF *(1)] skip_space_Cons [OF *(2)] show ?case by linarith
  next
    case 3
    then obtain k q v q1 c q2 where *: "take 1 (skip_space s) = [dquote]"
      "json_chars (drop 1 (skip_space s)) = Some (k, q)" "take 1 (skip_space q) = '':''"
      "json_value n d (drop 1 (skip_space q)) = Some (v, q1)" "skip_space q1 = c # q2"
      "(ms = [(k, v)] \<and> r = q2) \<or> (\<exists>ms'. json_members n d q2 = Some (ms', r))"
      by (rule json_members_Some)
    have "length r \<le> length q2" using * Suc.IH(3) by fastforce
    with drop_skip_space [OF *(1)] json_chars_shorter [OF *(2)] drop_skip_space [OF *(3)]
      Suc.IH(1) [OF *(4)] skip_space_Cons [OF *(5)] show ?case by linarith
  }
qed simp_all

text \<open>The fuel of \<open>json_parse\<close> is enough: more of it changes nothing.\<close>

lemma json_fuel:
  "2 * length s + 1 \<le> n \<Longrightarrow> n \<le> m \<Longrightarrow> json_value m d s = json_value n d s"
  "2 * length s + 2 \<le> n \<Longrightarrow> n \<le> m \<Longrightarrow> json_elements m d s = json_elements n d s"
  "2 * length s + 2 \<le> n \<Longrightarrow> n \<le> m \<Longrightarrow> json_members m d s = json_members n d s"
proof (induction n arbitrary: d s m)
  case (Suc n)
  {
    case 1
    then obtain m' where m: "m = Suc m'" "n \<le> m'" by (cases m) auto
    show ?case
    proof (cases "skip_space s")
      case (Cons c q)
      then have "2 * length q + 2 \<le> n" using skip_space_Cons [OF Cons] 1 by simp
      then show ?thesis using Suc.IH(2,3) [OF _ m(2), of q] by (simp add: m Cons)
    qed (simp add: m)
  next
    case 2
    then obtain m' where m: "m = Suc m'" "n \<le> m'" by (cases m) auto
    have v: "json_value m' d s = json_value n d s" using Suc.IH(1) [of s, OF _ m(2)] 2 by simp
    have "json_elements m' d q' = json_elements n d q'"
      if "json_value n d s = Some (v, q)" "skip_space q = c # q'" for v q c q'
      using json_shorter(1) [OF that(1)] skip_space_Cons [OF that(2)] 2 m Suc.IH(2) [of q' m' d] by simp
    then show ?case by (simp add: m v split: option.split list.split)
  next
    case 3
    then obtain m' where m: "m = Suc m'" "n \<le> m'" by (cases m) auto
    have v: "json_value m' d (drop 1 (skip_space q)) = json_value n d (drop 1 (skip_space q))"
      if "json_chars (drop 1 (skip_space s)) = Some (k, q)" for k q
      using json_chars_shorter [OF that] skip_space_le [of s] skip_space_le [of q] 3 m
        Suc.IH(1) [of "drop 1 (skip_space q)" m' d] by simp
    have "json_members m' d q2 = json_members n d q2"
      if "json_chars (drop 1 (skip_space s)) = Some (k, q)"
        "json_value n d (drop 1 (skip_space q)) = Some (v, q1)" "skip_space q1 = c # q2" for k q v q1 c q2
      using json_chars_shorter [OF that(1)] json_shorter(1) [OF that(2)] skip_space_Cons [OF that(3)]
        skip_space_le [of s] skip_space_le [of q] 3 m Suc.IH(3) [of q2 m' d] by simp
    with v show ?case by (simp add: m split: option.split list.split)
  }
qed simp_all

lemma utf8_ValidString_step:
  "utf8_ValidString s \<Longrightarrow> s \<noteq> [] \<Longrightarrow> rune_len s \<noteq> 0 \<and> utf8_ValidString (drop (rune_len s) s)"
  by (subst (asm) utf8_ValidString.simps) (auto split: if_splits)

lemma rune_len_take: "rune_len s \<noteq> 0 \<Longrightarrow> rune_len (take (rune_len s) s @ t) = rune_len s \<and> rune_len s \<le> length s"
  by (cases s) (auto split: list.splits if_splits)

lemma quote_bytes [simp]: "byte dquote = 34" "byte backslash = 92"
  by (simp_all add: dquote_def backslash_def)

lemma char_byte_eq: "c = d \<longleftrightarrow> byte c = byte d"
  by simp

lemma dquote_iff: "c = dquote \<longleftrightarrow> byte c = 34" and backslash_iff: "c = backslash \<longleftrightarrow> byte c = 92"
  by (simp_all add: char_byte_eq del: of_char_eq_iff)

lemma quotes_differ [simp]: "dquote \<noteq> backslash" "backslash \<noteq> dquote"
  by (simp_all add: dquote_iff backslash_iff)

lemma hex_table: "list_all (\<lambda>d. hex_value (hex_lower d) = Some d) [0..<16]"
  by (simp add: upt_rec hex_value_def hex_lower_def digit_char_def byte_in_def)

lemma hex_lower_value: "d < 16 \<Longrightarrow> hex_value (hex_lower d) = Some d"
  using hex_table by (simp add: list_all_iff)

lemma json_chars_plain:
  "c \<noteq> dquote \<Longrightarrow> c \<noteq> backslash \<Longrightarrow> 32 \<le> byte c \<Longrightarrow> byte c < 128 \<Longrightarrow>
     json_chars (c # u) = prepend [c] (json_chars u)"
  using rune_len_ascii [of c u] by (simp add: json_chars_Cons is_ascii_def del: rune_len.simps)

lemma json_chars_unicode:
  assumes "byte c < 128"
  shows "json_chars (backslash # ''u00'' @ hex_lower (byte c div 16) # hex_lower (byte c mod 16) # u)
    = prepend [c] (json_chars u)"
proof -
  have "hex_value (hex_lower (byte c div 16)) = Some (byte c div 16)"
    "hex_value (hex_lower (byte c mod 16)) = Some (byte c mod 16)"
    using assms by (auto intro!: hex_lower_value)
  moreover have "hex_value CHR ''0'' = Some 0" by (simp add: hex_value_def byte_in_def)
  ultimately have "hex4 (''00'' @ hex_lower (byte c div 16) # hex_lower (byte c mod 16) # u) = Some (byte c, u)"
    by simp
  then have "unescape_u (''00'' @ hex_lower (byte c div 16) # hex_lower (byte c mod 16) # u) = Some ([c], u)"
    using assms by (simp add: unescape_u_def is_surrogate_def encode_rune_def del: hex4.simps)
  moreover have "CHR ''u'' \<noteq> dquote" "CHR ''u'' \<noteq> backslash" by (simp_all add: dquote_iff backslash_iff)
  ultimately show ?thesis by (simp add: json_chars_Cons del: rune_len.simps)
qed

lemma json_chars_escape_ascii:
  assumes "byte c < 128"
  shows "json_chars (escape_ascii c @ u) = prepend [c] (json_chars u)"
proof -
  have short: "json_chars (backslash # x # u) = prepend [y] (json_chars u)"
    if "unescape (x # u) = Some ([y], u)" for x y
    using that by (simp add: json_chars_Cons del: rune_len.simps unescape.simps)
  have eq: "byte c = n \<Longrightarrow> n < 256 \<Longrightarrow> c = char_of n" for n by (metis char_of_char)
  show ?thesis
    using json_chars_unicode [OF assms, of u] json_chars_plain [of c u] assms
    by (auto simp: escape_ascii_def short dquote_iff backslash_iff dest: eq)
qed

lemma json_chars_escape_rune:
  assumes "128 \<le> byte c" and "rune_len (c # s) = n" and "n \<noteq> 0"
  shows "json_chars (escape_rune (take n (c # s)) @ u) = prepend (take n (c # s)) (json_chars u)"
proof -
  let ?p = "take n (c # s)"
  obtain q where p: "?p = c # q" using assms(3) by (cases n) auto
  have plain: "json_chars (?p @ u) = prepend ?p (json_chars u)"
  proof -
    have len: "rune_len (?p @ u) = n" "length ?p = n" using rune_len_take [of "c # s" u] assms(2,3) by auto
    have "c \<noteq> dquote" "c \<noteq> backslash" "\<not> byte c < 32" using assms(1) by auto
    then have "json_chars (?p @ u) = prepend (take n (?p @ u)) (json_chars (drop n (?p @ u)))"
      using len(1) assms(3) unfolding p by (simp add: json_chars_Cons del: rune_len.simps)
    then show ?thesis using len(2) by simp
  qed
  have sep: "?p = map char_of [226, 128, k :: nat]" if "map byte ?p = [226, 128, k]" for k
    using arg_cong [OF that, of "map char_of"] by (simp add: comp_def)
  have u2028: "unescape (''u2028'' @ u) = Some (map char_of [226, 128, 168 :: nat], u)"
    "unescape (''u2029'' @ u) = Some (map char_of [226, 128, 169 :: nat], u)"
    by (simp_all add: dquote_iff backslash_iff unescape_u_def hex_value_def byte_in_def is_surrogate_def encode_rune_def)
  show ?thesis
    using plain sep [of 168] sep [of 169] u2028
    by (auto simp: escape_rune_def json_chars_Cons simp del: rune_len.simps unescape.simps split: if_splits)
qed

lemma json_chars_escape:
  "utf8_ValidString s \<Longrightarrow> json_chars (json_escape s @ dquote # r) = Some (s, r)"
proof (induction s rule: length_induct)
  case (1 s)
  show ?case
  proof (cases s)
    case Nil
    then show ?thesis by (simp add: json_escape.simps [of "[]"] json_chars_Cons)
  next
    case (Cons c q)
    let ?n = "rune_len (c # q)"
    have n: "?n \<noteq> 0" "utf8_ValidString (drop ?n (c # q))"
      using utf8_ValidString_step [of s] 1(2) Cons by auto
    have IH: "json_chars (json_escape (drop ?n (c # q)) @ dquote # r) = Some (drop ?n (c # q), r)"
      using 1(1) n Cons by (simp del: rune_len.simps)
    show ?thesis
    proof (cases "byte c < 128")
      case True
      then have "?n = 1" using rune_len_ascii [of c q] by (simp add: is_ascii_def)
      with IH True show ?thesis
        by (simp add: Cons json_escape.simps [of "c # q"] json_chars_escape_ascii prepend_def del: rune_len.simps)
    next
      case False
      with IH n json_chars_escape_rune [of c q ?n, OF _ refl n(1)] show ?thesis
        unfolding Cons by (subst json_escape.simps) (simp add: prepend_def del: rune_len.simps)
    qed
  qed
qed

lemma skip_space_token [simp]: "\<not> json_space c \<Longrightarrow> skip_space (c # s) = c # s"
  by (simp add: skip_space_def)

lemma tokens_no_space [simp]:
  "\<not> json_space dquote" "\<not> json_space CHR '':''" "\<not> json_space CHR '',''" "\<not> json_space CHR ''{''"
  "\<not> json_space CHR ''}''"
  by (simp_all add: json_space_def)

lemma token_not_quote [simp]: "dquote \<noteq> CHR ''{''" "dquote \<noteq> CHR ''[''"
  by (simp_all add: char_byte_eq del: of_char_eq_iff)

lemma json_chars_quote:
  "utf8_ValidString s \<Longrightarrow> json_quote s @ r = dquote # json_escape s @ dquote # r \<and>
     json_chars (json_escape s @ dquote # r) = Some (s, r)"
  by (simp add: json_quote_def json_chars_escape)

lemma json_value_quote:
  "utf8_ValidString s \<Longrightarrow> json_value (Suc n) d (json_quote s @ r) = Some (JString s, r)"
  using json_chars_quote [of s r] by simp

lemma json_members_fields:
  assumes "fs \<noteq> []" and "length fs \<le> n"
    and "list_all (\<lambda>(k, v). utf8_ValidString k \<and> utf8_ValidString v) fs"
  shows "json_members (Suc n) d
     (strings_Join (map (\<lambda>(k, v). json_quote k @ '':'' @ json_quote v) fs) '','' @ ''}'' @ r)
    = Some (map (\<lambda>(k, v). (k, JString v)) fs, r)"
  using assms
proof (induction fs arbitrary: n)
  case (Cons f fs)
  obtain k v where f: "f = (k, v)" by (cases f)
  obtain n' where n: "n = Suc n'" using Cons.prems(2) by (cases n) auto
  have kv: "utf8_ValidString k" "utf8_ValidString v" using Cons.prems(3) f by auto
  have member: "json_members (Suc n) d (json_quote k @ '':'' @ json_quote v @ t) =
      (case skip_space t of
         [] \<Rightarrow> None
       | c # r2 \<Rightarrow>
           if c = CHR ''}'' then Some ([(k, JString v)], r2)
           else if c = CHR '','' then
             map_option (\<lambda>(ms, r3). ((k, JString v) # ms, r3)) (json_members n d r2)
           else None)" for t
    using json_chars_quote [OF kv(1), of "'':'' @ json_quote v @ t"] json_value_quote [OF kv(2), of n' d t]
    unfolding n by (subst json_members.simps) (simp del: json_value.simps json_members.simps)
  show ?case
  proof (cases fs)
    case Nil
    then show ?thesis using member [of "''}'' @ r"] by (simp add: f del: json_members.simps)
  next
    case more: (Cons g gs)
    then show ?thesis
      using member [of "'','' @ strings_Join (map (\<lambda>(k, v). json_quote k @ '':'' @ json_quote v) fs) '','' @ ''}'' @ r"]
        Cons.IH [of n'] Cons.prems
      by (simp add: f n del: json_members.simps)
  qed
qed simp

lemma length_fields:
  "length fs \<le> length (strings_Join (map (\<lambda>(k, v). json_quote k @ '':'' @ json_quote v) fs) '','')"
proof (induction fs)
  case (Cons f fs)
  then show ?case by (cases fs) (auto simp: split_beta)
qed simp

lemma json_parse_object:
  assumes "fs \<noteq> []" and "list_all (\<lambda>(k, v). utf8_ValidString k \<and> utf8_ValidString v) fs"
  shows "json_parse (json_object fs) = Some (JObject (map (\<lambda>(k, v). (k, JString v)) fs))"
proof -
  let ?body = "strings_Join (map (\<lambda>(k, v). json_quote k @ '':'' @ json_quote v) fs) '','' @ ''}''"
  have obj: "json_object fs = CHR ''{'' # ?body" by (simp add: json_object_def)
  obtain m where m: "2 * length (json_object fs) + 2 = Suc (Suc m)" "length fs \<le> m"
    using length_fields [of fs] by (auto simp: obj)
  have "\<exists>q. ?body = dquote # q"
    using assms(1) by (cases fs rule: remdups_adj.cases) (auto simp: json_quote_def)
  then have "take 1 (skip_space ?body) \<noteq> ''}''"
    by (auto simp: char_byte_eq simp del: of_char_eq_iff)
  then have "json_value (Suc (Suc m)) 0 (json_object fs)
      = map_option (\<lambda>(ms, r'). (JObject ms, r')) (json_members (Suc m) (Suc 0) ?body)"
    unfolding obj by (subst json_value.simps) (simp add: maxNestingDepth_def del: json_members.simps)
  also have "\<dots> = Some (JObject (map (\<lambda>(k, v). (k, JString v)) fs), [])"
    using json_members_fields [OF assms(1) m(2) assms(2), of "Suc 0" "[]"] by simp
  finally show ?thesis unfolding json_parse_def m(1) by (simp add: skip_space_def del: json_value.simps)
qed

end
