(* ===== verification/Strconv_Format.thy ===== *)
theory Strconv_Format
  imports Strconv_Float
begin

text \<open>
  \<open>strconv.FormatFloat(f, 'f', -1, 64)\<close>: the shortest decimal that reads back as the same
  number, without an exponent. Formatting is the one place where the sign of a zero shows, so
  a number to be formatted comes with its sign bit.

  The search goes down from a power of ten above the number: at each power it tries the
  multiple below and the multiple above, and takes the nearer one if both read back as the
  number. The library walks along the digits in the same way. The search ends because a double
  is a multiple of the power -1074.
\<close>

type_synonym signed_float = "bool \<times> float64"

definition signed_ParseFloat :: "string \<Rightarrow> signed_float option" where
  "signed_ParseFloat s = map_option (\<lambda>v. (take 1 s = ''-'', v)) (strconv_ParseFloat s)"

definition dec_value :: "int \<Rightarrow> int \<Rightarrow> rat" where
  "dec_value d k = of_int d * rpow 10 k"

function shortest_decimal :: "rat \<Rightarrow> int \<Rightarrow> int \<times> int" where
  "shortest_decimal x k =
     (let y = x / rpow 10 k; d = \<lfloor>y\<rfloor>;
          okdown = (fl (dec_value d k) = Fin x); okup = (fl (dec_value (d + 1) k) = Fin x)
      in if okdown \<and> okup then (round_even y, k)
         else if okdown then (d, k)
         else if okup then (d + 1, k)
         else if k \<le> -1074 then (d, k)
         else shortest_decimal x (k - 1))"
  by pat_completeness auto
termination by (relation "measure (\<lambda>(x, k). nat (k + 1074))") auto

declare shortest_decimal.simps [simp del]

definition format_decimal :: "int \<times> int \<Rightarrow> string" where
  "format_decimal dk =
     (case dk of
        (d, k) \<Rightarrow>
          if 0 \<le> k then dec_digits (nat (d * 10 ^ nat k))
          else
            let n = nat (- k); ds = dec_digits (nat d);
                padded = replicate (n + 1 - length ds) CHR ''0'' @ ds
            in take (length padded - n) padded @ ''.'' @ drop (length padded - n) padded)"

definition start_exponent :: "rat \<Rightarrow> int" where
  "start_exponent x = int (length (dec_digits (nat \<lfloor>x\<rfloor>)))"

fun strconv_FormatFloat :: "signed_float \<Rightarrow> string" where
  "strconv_FormatFloat (neg, Fin x) =
     (if neg then ''-'' else '''') @ format_decimal (shortest_decimal \<bar>x\<bar> (start_exponent \<bar>x\<bar>))"
| "strconv_FormatFloat (neg, NaN) = ''NaN''"
| "strconv_FormatFloat (neg, PosInf) = ''+Inf''"
| "strconv_FormatFloat (neg, NegInf) = ''-Inf''"

text \<open>The finite numbers of the type, with a sign bit that fits.\<close>

definition finite_float :: "signed_float \<Rightarrow> bool" where
  "finite_float f \<longleftrightarrow>
     (\<exists>x. snd f = Fin x \<and> is_double \<bar>x\<bar> \<and> \<bar>x\<bar> < pow2 1024 \<and> (if fst f then x \<le> 0 else 0 \<le> x))"

section \<open>Lemmas\<close>

lemma rpow_pos [simp]: "0 < rpow 10 k" "0 \<le> rpow 10 k" "rpow 10 k \<noteq> 0"
  by (simp_all add: rpow_def)

lemma rpow_add: "rpow 10 (a + b) = rpow 10 a * rpow 10 b"
proof -
  have one: "rpow 10 (e + 1) = 10 * rpow 10 e" for e
  proof (cases "0 \<le> e")
    case False
    then have "nat (- e) = Suc (nat (- (e + 1)))" by simp
    then show ?thesis using False by (auto simp: rpow_def)
  qed (simp add: rpow_def nat_add_distrib)
  have less: "rpow 10 (a - 1 + b) = rpow 10 (a - 1) * rpow 10 b"
    if "rpow 10 (a + b) = rpow 10 a * rpow 10 b" for a b
    using that one [of "a - 1 + b"] one [of "a - 1"] by simp
  show ?thesis
  proof (induction a rule: int_induct [of _ 0])
    case (step1 i)
    then show ?case using one [of "i + b"] one [of i] by (simp add: ac_simps)
  next
    case (step2 i)
    show ?case by (rule less [OF step2(2)])
  qed (simp add: rpow_def)
qed

lemma rpow_of_nat: "rpow 10 (int n) = of_int (10 ^ n)"
  by (simp add: rpow_def)

lemma rpow_split:
  assumes "k \<le> j"
  shows "rpow 10 j = of_int (10 ^ nat (j - k)) * rpow 10 k"
  using rpow_add [of "j - k" k] rpow_of_nat [of "nat (j - k)"] assms by simp

lemma pow2_rpow: "pow2 (- int n) = of_int (5 ^ n) * rpow 10 (- int n)"
proof (cases n)
  case (Suc m)
  have "(10 :: rat) ^ n = 2 ^ n * 5 ^ n" by (simp add: power_mult_distrib [symmetric])
  moreover have "nat (1 + int m) = n" "nat (int m + 1) = n" using Suc by simp_all
  ultimately show ?thesis using Suc by (simp add: pow2_def rpow_def del: power_Suc)
qed (simp add: pow2_def rpow_def)

lemma double_dec_value:
  assumes "is_double x"
  shows "\<exists>d. x = dec_value d (-1074)"
proof -
  obtain n e where x: "x = of_int n * pow2 e" "-1074 \<le> e" using assms by (auto simp: is_double_def)
  define k where "k = (1074 :: nat)"
  have k: "int k = 1074" by (simp add: k_def)
  have "pow2 e = of_int (2 ^ nat (e + int k)) * pow2 (- int k)"
    using pow2_add [of "e + int k" "- int k"] x(2) k by (simp add: pow2_of_nat)
  then have "x = dec_value (n * 2 ^ nat (e + int k) * 5 ^ k) (- int k)"
    unfolding dec_value_def x(1) pow2_rpow by (simp only: of_int_mult mult.assoc)
  then show ?thesis unfolding k by blast
qed

lemma dec_value_mono: "c \<le> d \<Longrightarrow> dec_value c k \<le> dec_value d k"
  by (simp add: dec_value_def mult_right_mono)

lemma dec_value_floor: "dec_value \<lfloor>x / rpow 10 k\<rfloor> k \<le> x" "x < dec_value (\<lfloor>x / rpow 10 k\<rfloor> + 1) k"
proof -
  have "of_int \<lfloor>x / rpow 10 k\<rfloor> \<le> x / rpow 10 k" "x / rpow 10 k < of_int (\<lfloor>x / rpow 10 k\<rfloor> + 1)" by linarith+
  then show "dec_value \<lfloor>x / rpow 10 k\<rfloor> k \<le> x" "x < dec_value (\<lfloor>x / rpow 10 k\<rfloor> + 1) k"
    unfolding dec_value_def by (simp_all only: pos_le_divide_eq pos_divide_less_eq rpow_pos)
qed

lemma dec_value_coarser: "k \<le> j \<Longrightarrow> dec_value c j = dec_value (c * 10 ^ nat (j - k)) k"
  by (simp add: dec_value_def rpow_split [of k j])

text \<open>A multiple that reads back as the number lies beside it, or one of its neighbours does.\<close>

lemma reads_back_neighbour:
  assumes x: "0 \<le> x" "fl x = Fin x" and c: "fl (dec_value c k) = Fin x" "0 \<le> c"
  shows "fl (dec_value \<lfloor>x / rpow 10 k\<rfloor> k) = Fin x \<or> fl (dec_value (\<lfloor>x / rpow 10 k\<rfloor> + 1) k) = Fin x"
proof -
  let ?d = "\<lfloor>x / rpow 10 k\<rfloor>"
  have squeeze: "fl b = Fin x" if "0 \<le> a" "a \<le> b" "b \<le> z" "fl a = Fin x" "fl z = Fin x" for a b z
  proof -
    have "round_mag a \<le> round_mag b" "round_mag b \<le> round_mag z" using that by (simp_all add: round_mag_mono)
    then show ?thesis using that by (auto simp: fl_def Let_def split: if_splits)
  qed
  have d0: "0 \<le> ?d" using x rpow_pos by (simp add: zero_le_divide_iff)
  have nn: "0 \<le> dec_value c k" "0 \<le> dec_value ?d k" using c d0 by (simp_all add: dec_value_def)
  show ?thesis
  proof (cases "c \<le> ?d")
    case True
    then show ?thesis
      using squeeze [of "dec_value c k" "dec_value ?d k" x] nn c x dec_value_mono dec_value_floor(1) by blast
  next
    case False
    then have "dec_value (?d + 1) k \<le> dec_value c k" by (intro dec_value_mono) simp
    then show ?thesis
      using squeeze [of x "dec_value (?d + 1) k" "dec_value c k"] c x dec_value_floor(2) [of x k] by simp
  qed
qed

lemma shortest_decimal_step:
  assumes "shortest_decimal x k = (d, j)" and "is_double x" and "0 \<le> x" and "x < pow2 1024"
    and "-1074 \<le> k"
  shows "j = k \<and> fl (dec_value d j) = Fin x \<and> 0 \<le> d \<or>
    -1074 < k \<and> shortest_decimal x (k - 1) = (d, j) \<and> (\<forall>c\<ge>0. fl (dec_value c k) \<noteq> Fin x)"
proof -
  let ?y = "x / rpow 10 k"
  have x: "fl x = Fin x" using assms by (intro fl_is_double)
  have y: "0 \<le> \<lfloor>?y\<rfloor>" using assms(3) by simp
  have exact: "fl (dec_value \<lfloor>?y\<rfloor> k) = Fin x" if "k = -1074"
  proof -
    obtain n where "x = dec_value n k" using double_dec_value [OF assms(2)] \<open>k = -1074\<close> by auto
    then have "?y = of_int n" by (simp add: dec_value_def)
    with \<open>x = dec_value n k\<close> x show ?thesis by simp
  qed
  have even: "round_even ?y = \<lfloor>?y\<rfloor> \<or> round_even ?y = \<lfloor>?y\<rfloor> + 1"
    using round_even_bounds [of ?y] by linarith
  show ?thesis
    using assms(1,5) reads_back_neighbour [OF assms(3) x] exact even y
    by (subst (asm) shortest_decimal.simps) (auto simp: Let_def split: if_splits)
qed

lemma shortest_decimal_reads_back:
  assumes "shortest_decimal x k = (d, j)" and "is_double x" and "0 \<le> x" and "x < pow2 1024"
    and "-1074 \<le> k"
  shows "fl (dec_value d j) = Fin x \<and> 0 \<le> d \<and> j \<le> k \<and>
    (\<forall>i c. j < i \<and> i \<le> k \<and> 0 \<le> c \<longrightarrow> fl (dec_value c i) \<noteq> Fin x)"
  using assms(1,5)
proof (induction "nat (k + 1074)" arbitrary: k rule: less_induct)
  case less
  from shortest_decimal_step [OF less.prems(1) assms(2-4) less.prems(2)] show ?case
  proof (elim disjE conjE)
    assume k: "-1074 < k" "shortest_decimal x (k - 1) = (d, j)" and none: "\<forall>c\<ge>0. fl (dec_value c k) \<noteq> Fin x"
    from less.hyps [OF _ k(2)] k(1)
    have IH: "fl (dec_value d j) = Fin x \<and> 0 \<le> d \<and> j \<le> k - 1 \<and>
        (\<forall>i c. j < i \<and> i \<le> k - 1 \<and> 0 \<le> c \<longrightarrow> fl (dec_value c i) \<noteq> Fin x)" by simp
    have "fl (dec_value c i) \<noteq> Fin x" if "j < i" "i \<le> k" "0 \<le> c" for i c
      using IH none that by (cases "i = k") auto
    with IH show ?thesis by auto
  qed auto
qed

text \<open>Reading digits.\<close>

lemma digits_are_digits: "digits_value m ds = Some v \<Longrightarrow> list_all is_digit ds"
  by (induction m ds rule: digits_value.induct) (auto split: if_splits)

lemma mantissa_digits:
  "digits_value m ds = Some v \<Longrightarrow>
   float_mantissa 10 dot dig us m fr (ds @ rest) =
     float_mantissa 10 dot (dig \<or> ds \<noteq> []) us v (if dot then fr + int (length ds) else fr) rest"
proof (induction ds arbitrary: m dig fr)
  case (Cons c ds)
  then have c: "is_digit c" "digits_value (10 * m + digit_val c) ds = Some v" by (auto split: if_splits)
  then have "c \<noteq> CHR ''_''" "c \<noteq> CHR ''.''" by (auto simp: is_digit_def)
  with c Cons.IH [OF c(2)] show ?case by (simp add: add.assoc)
qed simp

definition decimal_text :: "string \<Rightarrow> string \<Rightarrow> string" where
  "decimal_text whole fpart = (if fpart = [] then whole else whole @ ''.'' @ fpart)"

lemma digit_lower: "is_digit c \<Longrightarrow> char_lower c = c"
  by (simp add: char_lower_def is_digit_def)

lemma decimal_text_head:
  assumes "list_all is_digit whole" and "whole \<noteq> []"
  shows "\<exists>c r. decimal_text whole fpart = c # r \<and> is_digit c \<and> char_lower (hd r) \<noteq> CHR ''x'' \<or> decimal_text whole fpart = [c] \<and> is_digit c"
proof -
  obtain c ds where w: "whole = c # ds" "is_digit c" "list_all is_digit ds" using assms by (cases whole) auto
  show ?thesis
  proof (cases ds)
    case Nil
    then show ?thesis using w by (cases fpart) (auto simp: decimal_text_def char_lower_def)
  next
    case (Cons d ds')
    then have "char_lower d \<noteq> CHR ''x''" using w(3) digit_lower [of d] by (auto simp: is_digit_def)
    with Cons w show ?thesis by (auto simp: decimal_text_def)
  qed
qed

lemma strip_sign_decimal:
  assumes "list_all is_digit whole" and "whole \<noteq> []"
  shows "strip_sign ((if neg then ''-'' else '''') @ decimal_text whole fpart) = decimal_text whole fpart"
    and "(take 1 ((if neg then ''-'' else '''') @ decimal_text whole fpart) = ''-'') = neg"
  using decimal_text_head [OF assms, of fpart] by (auto simp: strip_sign_def is_digit_def)

lemma mantissa_decimal:
  assumes v: "digits_value 0 (whole @ fpart) = Some v" and whole: "whole \<noteq> []"
  shows "float_mantissa 10 False False False 0 0 (decimal_text whole fpart) = (True, False, v, int (length fpart), [])"
proof -
  obtain u where u: "digits_value 0 whole = Some u" "digits_value u fpart = Some v"
    using v by (auto simp: digits_value_append bind_eq_Some_conv)
  have "float_mantissa 10 False False False 0 0 (decimal_text whole fpart)
      = float_mantissa 10 False True False u 0 (drop (length whole) (decimal_text whole fpart))"
    using mantissa_digits [OF u(1), of False False False 0 "drop (length whole) (decimal_text whole fpart)"] whole
    by (simp add: decimal_text_def split: if_splits)
  also have "\<dots> = (True, False, v, int (length fpart), [])"
    using mantissa_digits [OF u(2), of True True False 0 "[]"] u(2) by (auto simp: decimal_text_def)
  finally show ?thesis .
qed

lemma readFloat_decimal:
  assumes v: "digits_value 0 (whole @ fpart) = Some v" and whole: "whole \<noteq> []"
  shows "readFloat ((if neg then ''-'' else '''') @ decimal_text whole fpart) = Some (neg, dec_value v (- int (length fpart)))"
proof -
  have digits: "list_all is_digit whole" using digits_are_digits [OF v] by simp
  have hex: "\<not> (2 < length (decimal_text whole fpart) \<and> decimal_text whole fpart ! 0 = CHR ''0'' \<and>
      char_lower (decimal_text whole fpart ! 1) = CHR ''x'')"
    using decimal_text_head [OF digits whole, of fpart] by (auto simp: hd_conv_nth [symmetric] length_greater_0_conv [symmetric] simp del: length_greater_0_conv)
  show ?thesis
    unfolding readFloat_def strip_sign_decimal [OF digits whole] Let_def
    using hex mantissa_decimal [OF assms] by (auto simp: float_exponent_def dec_value_def)
qed

lemma float_special_decimal:
  assumes "list_all is_digit whole" and "whole \<noteq> []"
  shows "float_special ((if neg then ''-'' else '''') @ decimal_text whole fpart) = None"
proof -
  obtain c r where c: "decimal_text whole fpart = c # r" "is_digit c"
    using decimal_text_head [OF assms, of fpart] by auto
  then have c': "c \<noteq> CHR ''i''" "c \<noteq> CHR ''n''" "char_lower c = c" by (auto simp: is_digit_def digit_lower)
  have "char_lower CHR ''-'' \<noteq> CHR ''n''" by code_simp
  then have "ascii_lower ((if neg then ''-'' else '''') @ c # r) \<noteq> ''nan''"
    using c' by (cases neg) (simp_all add: ascii_lower_def)
  with c' show ?thesis
    using strip_sign_decimal(1) [OF assms, of neg fpart] unfolding float_special_def Let_def c(1)
    by (simp only:) (simp add: ascii_lower_def)
qed

lemma digits_value_replicate: "digits_value 0 (replicate n CHR ''0'') = Some 0"
  by (induction n) (simp_all add: is_digit_def digit_val_def)

lemma format_decimal_text:
  assumes "0 \<le> d"
  shows "\<exists>whole fpart v. format_decimal (d, k) = decimal_text whole fpart \<and> whole \<noteq> [] \<and>
    digits_value 0 (whole @ fpart) = Some v \<and> dec_value v (- int (length fpart)) = dec_value d k"
proof (cases "0 \<le> k")
  case True
  have "dec_value (d * 10 ^ nat k) 0 = dec_value d k"
    using True dec_value_coarser [of 0 k d] by simp
  with True show ?thesis
    using assms by (intro exI [of _ "dec_digits (nat (d * 10 ^ nat k))"] exI [of _ "[]"] exI [of _ "d * 10 ^ nat k"])
      (simp add: format_decimal_def decimal_text_def digits_value_dec_digits)
next
  case False
  let ?n = "nat (- k)" and ?ds = "dec_digits (nat d)"
  let ?p = "replicate (?n + 1 - length ?ds) CHR ''0'' @ ?ds"
  have len: "?n < length ?p" by simp
  have "digits_value 0 ?p = Some d"
    using assms by (simp add: digits_value_append digits_value_replicate digits_value_dec_digits)
  moreover define p where "p = ?p"
  ultimately have p: "digits_value 0 (take (length p - ?n) p @ drop (length p - ?n) p) = Some d" "?n < length p"
    using len by (simp_all only: append_take_drop_id p_def)
  have "format_decimal (d, k) = take (length p - ?n) p @ ''.'' @ drop (length p - ?n) p"
    using False by (simp add: format_decimal_def Let_def p_def)
  moreover have "take (length p - ?n) p \<noteq> []" "drop (length p - ?n) p \<noteq> []" "int (length (drop (length p - ?n) p)) = - k"
    using p(2) False by auto
  ultimately obtain A B where AB: "format_decimal (d, k) = A @ ''.'' @ B" "A \<noteq> []" "B \<noteq> []" "int (length B) = - k"
      "digits_value 0 (A @ B) = Some d" using p(1) by metis
  show ?thesis
    by (intro exI [of _ A] exI [of _ B] exI [of _ d]) (simp add: decimal_text_def AB)
qed

lemma ParseFloat_FormatFloat:
  assumes "finite_float f"
  shows "signed_ParseFloat (strconv_FormatFloat f) = Some f"
proof -
  obtain neg x where f: "f = (neg, Fin x)" and x: "is_double \<bar>x\<bar>" "\<bar>x\<bar> < pow2 1024"
    and sign: "if neg then x \<le> 0 else 0 \<le> x"
    using assms by (cases f) (auto simp: finite_float_def)
  obtain d k where dk: "shortest_decimal \<bar>x\<bar> (start_exponent \<bar>x\<bar>) = (d, k)" by (metis surj_pair)
  have d: "fl (dec_value d k) = Fin \<bar>x\<bar>" "0 \<le> d"
    using shortest_decimal_reads_back [OF dk] x by (auto simp: start_exponent_def)
  obtain whole fpart v where t: "format_decimal (d, k) = decimal_text whole fpart" "whole \<noteq> []"
      "digits_value 0 (whole @ fpart) = Some v" "dec_value v (- int (length fpart)) = dec_value d k"
    using format_decimal_text [OF d(2), of k] by blast
  have digits: "list_all is_digit whole" using digits_are_digits [OF t(3)] by simp
  let ?s = "(if neg then ''-'' else '''') @ decimal_text whole fpart"
  have "strconv_FormatFloat f = ?s" by (simp add: f dk t(1))
  moreover have "strconv_ParseFloat ?s = Some (if neg then f_neg (Fin \<bar>x\<bar>) else Fin \<bar>x\<bar>)"
    unfolding strconv_ParseFloat_def float_special_decimal [OF digits t(2)] readFloat_decimal [OF t(3,2)] t(4)
    by (simp add: d(1))
  moreover have "(if neg then f_neg (Fin \<bar>x\<bar>) else Fin \<bar>x\<bar>) = Fin x" using sign by auto
  ultimately show ?thesis
    unfolding signed_ParseFloat_def using strip_sign_decimal(2) [OF digits t(2), of neg fpart] f by simp
qed

text \<open>Whatever \<open>ParseFloat\<close> reads is printed as a text that it reads as the same number.\<close>

lemma mantissa_nonneg:
  "0 \<le> base \<Longrightarrow> 0 \<le> m \<Longrightarrow> float_mantissa base dot dig us m fr s = (dig', us', m', fr', rest) \<Longrightarrow> 0 \<le> m'"
proof (induction base dot dig us m fr s rule: float_mantissa.induct)
  case (2 base dot dig us m fr c s)
  have "0 \<le> base * m" using "2.prems" by simp
  moreover have "is_digit c \<Longrightarrow> 0 \<le> digit_val c" by (simp add: is_digit_def digit_val_def)
  moreover have "hex_letter c \<Longrightarrow> 0 \<le> int (of_char (char_lower c)) - 87" by (simp add: hex_letter_def)
  ultimately show ?case using 2 by (simp split: if_splits)
qed simp

lemma readFloat_nonneg:
  assumes "readFloat s = Some (neg, x)"
  shows "0 \<le> x \<and> neg = (take 1 s = ''-'')"
proof -
  let ?t = "strip_sign s"
  let ?hex = "2 < length ?t \<and> ?t ! 0 = CHR ''0'' \<and> char_lower (?t ! 1) = CHR ''x''"
  obtain dig us m fr rest where m: "float_mantissa (if ?hex then 16 else 10) False False False 0 0
      (if ?hex then drop 2 ?t else ?t) = (dig, us, m, fr, rest)" by (metis surj_pair)
  have "0 \<le> m" by (rule mantissa_nonneg [OF _ _ m]) simp_all
  moreover have "0 \<le> rpow b e" if "0 \<le> b" for b e using that by (simp add: rpow_def)
  ultimately show ?thesis
    using assms m unfolding readFloat_def Let_def
    by (auto split: if_splits option.splits prod.splits)
qed

lemma FormatFloat_parsed:
  assumes "signed_ParseFloat s = Some f"
  shows "signed_ParseFloat (strconv_FormatFloat f) = Some f"
proof (cases "float_special s")
  case None
  then obtain neg x where x: "readFloat s = Some (neg, x)" "fl x \<noteq> PosInf"
      "f = (take 1 s = ''-'', if neg then f_neg (fl x) else fl x)"
    using assms by (auto simp: signed_ParseFloat_def strconv_ParseFloat_def Let_def split: option.splits if_splits)
  note nn = readFloat_nonneg [OF x(1)]
  then obtain v where v: "fl x = Fin v" "0 \<le> v" using x(2) by (auto simp: fl_def Let_def split: if_splits)
  have "finite_float f"
    using x(3) v nn fl_Fin_double [OF v(1)] by (auto simp: finite_float_def)
  then show ?thesis by (rule ParseFloat_FormatFloat)
next
  case (Some v)
  have f: "f = (take 1 s = ''-'', v)" using assms Some by (simp add: signed_ParseFloat_def strconv_ParseFloat_def)
  have "ascii_lower s = ''nan'' \<Longrightarrow> take 1 s \<noteq> ''-''" by (cases s) (auto simp: ascii_lower_def char_lower_def)
  then have "f = (False, PosInf) \<or> f = (True, NegInf) \<or> f = (False, NaN)"
    using Some f by (auto simp: float_special_def Let_def split: if_splits)
  moreover have "strconv_ParseFloat ''-Inf'' = Some NegInf" by code_simp
  ultimately show ?thesis by (auto simp: signed_ParseFloat_def ParseFloat_NaN ParseFloat_Inf)
qed

end
