(* ===== verification/Go_Decode.thy ===== *)
theory Go_Decode
  imports Go_Json Strconv_Format "HOL-Library.Monad_Syntax"
begin

text \<open>
  \<open>json.NewDecoder(r).Decode\<close>: the first value of a stream is decoded and what follows it is
  not looked at, so a body that breaks off after the value does no harm. Decoding into a
  slice reuses the elements that are there: a member that is missing in a repeated array
  keeps what an earlier one set.
\<close>

definition Decoder_value :: "string \<Rightarrow> json option" where
  "Decoder_value body = map_option fst (json_value (2 * length body + 2) 0 body)"

text \<open>A field of type \<open>*float64\<close>.\<close>

fun float_ptr_member ::
    "string \<Rightarrow> signed_float option \<Rightarrow> (string \<times> json) list \<Rightarrow> signed_float option option" where
  "float_ptr_member name cur [] = Some cur"
| "float_ptr_member name cur ((k, v) # ms) =
     (if json_fold k = json_fold name then
        (case v of
           JNumber t \<Rightarrow>
             (case signed_ParseFloat t of None \<Rightarrow> None | Some f \<Rightarrow> float_ptr_member name (Some f) ms)
         | JNull \<Rightarrow> float_ptr_member name None ms
         | _ \<Rightarrow> None)
      else float_ptr_member name cur ms)"

text \<open>A struct: the fields of an object are set, \<open>null\<close> changes nothing.\<close>

definition decode_struct :: "('a \<Rightarrow> (string \<times> json) list \<Rightarrow> 'a option) \<Rightarrow> 'a \<Rightarrow> json \<Rightarrow> 'a option" where
  "decode_struct fields cur v =
     (case v of JObject ms \<Rightarrow> fields cur ms | JNull \<Rightarrow> Some cur | _ \<Rightarrow> None)"

text \<open>The elements of an array, over the elements the slice has had.\<close>

fun decode_elements :: "('a \<Rightarrow> json \<Rightarrow> 'a option) \<Rightarrow> 'a \<Rightarrow> 'a list \<Rightarrow> json list \<Rightarrow> 'a list option" where
  "decode_elements f zero old [] = Some []"
| "decode_elements f zero old (v # vs) =
     do {
       x \<leftarrow> f (case old of [] \<Rightarrow> zero | cur # _ \<Rightarrow> cur) v;
       xs \<leftarrow> decode_elements f zero (drop 1 old) vs;
       Some (x # xs)
     }"

text \<open>A slice is its length and its backing array.\<close>

definition decode_slice ::
    "('a \<Rightarrow> json \<Rightarrow> 'a option) \<Rightarrow> 'a \<Rightarrow> nat \<times> 'a list \<Rightarrow> json \<Rightarrow> (nat \<times> 'a list) option" where
  "decode_slice f zero sl v =
     (case v of
        JNull \<Rightarrow> Some (0, [])
      | JArray vs \<Rightarrow>
          if vs = [] then Some (0, [])
          else map_option (\<lambda>xs. (length vs, xs @ drop (length vs) (snd sl)))
                 (decode_elements f zero (snd sl) vs)
      | _ \<Rightarrow> None)"

definition slice_elements :: "nat \<times> 'a list \<Rightarrow> 'a list" where
  "slice_elements sl = take (fst sl) (snd sl)"

fun slice_member ::
    "('a \<Rightarrow> json \<Rightarrow> 'a option) \<Rightarrow> 'a \<Rightarrow> string \<Rightarrow> nat \<times> 'a list \<Rightarrow> (string \<times> json) list
       \<Rightarrow> (nat \<times> 'a list) option" where
  "slice_member f zero name sl [] = Some sl"
| "slice_member f zero name sl ((k, v) # ms) =
     (if json_fold k = json_fold name then
        (case decode_slice f zero sl v of
           None \<Rightarrow> None
         | Some sl' \<Rightarrow> slice_member f zero name sl' ms)
      else slice_member f zero name sl ms)"

section \<open>Lemmas\<close>

text \<open>A number that was read: printing it gives a text that is read as the same number.\<close>

definition was_read :: "signed_float option \<Rightarrow> bool" where
  "was_read x \<longleftrightarrow> (case x of None \<Rightarrow> True | Some f \<Rightarrow> signed_ParseFloat (strconv_FormatFloat f) = Some f)"

lemma was_read_None [simp]: "was_read None"
  by (simp add: was_read_def)

lemma was_read_parsed: "signed_ParseFloat t = Some f \<Longrightarrow> was_read (Some f)"
  by (simp add: was_read_def FormatFloat_parsed)

lemma float_ptr_member_was_read:
  "float_ptr_member name cur ms = Some x \<Longrightarrow> was_read cur \<Longrightarrow> was_read x"
  by (induction name cur ms rule: float_ptr_member.induct)
    (auto dest: was_read_parsed split: if_splits json.splits option.splits)

lemma decode_elements_all:
  assumes "\<And>cur v x. f cur v = Some x \<Longrightarrow> P cur \<Longrightarrow> P x" and "P zero"
  shows "decode_elements f zero old vs = Some xs \<Longrightarrow> list_all P old \<Longrightarrow> list_all P xs"
proof (induction vs arbitrary: old xs)
  case (Cons v vs)
  then obtain x ys where x: "f (case old of [] \<Rightarrow> zero | cur # _ \<Rightarrow> cur) v = Some x"
      "decode_elements f zero (drop 1 old) vs = Some ys" "xs = x # ys"
    by (auto simp: bind_eq_Some_conv)
  have "P (case old of [] \<Rightarrow> zero | cur # _ \<Rightarrow> cur)" "list_all P (drop 1 old)"
    using Cons.prems(2) assms(2) by (cases old; simp)+
  with Cons.IH [OF x(2)] assms(1) [OF x(1)] x(3) show ?case by simp
qed simp

lemma decode_slice_all:
  assumes "\<And>cur v x. f cur v = Some x \<Longrightarrow> P cur \<Longrightarrow> P x" and "P zero"
    and "decode_slice f zero sl v = Some sl'" and "list_all P (snd sl)"
  shows "list_all P (snd sl')"
  using assms(3,4) decode_elements_all [of f P, OF assms(1,2)]
  by (fastforce simp: decode_slice_def list_all_iff dest: in_set_dropD split: json.splits if_splits)

end
