(* ===== verification/Provider_Adapters.thy ===== *)
theory Provider_Adapters
  imports Provider_Selection Go_Runtime Go_Decode
begin

text \<open>
  \<open>internal/provider/coingecko.go\<close> and \<open>coincap.go\<close>: the two HTTP adapters.

  The HTTP client, the Unicode case table and the error a body that does not decode is
  reported with are parameters (\<open>adapter_env\<close>). A response has its status, the bytes its body
  delivers and the error that ends it, if any; the decoder needs the bytes up to the end of
  the first value. The clock is read once, after a response was decoded.
\<close>

record http_response =
  rs_StatusCode :: int
  rs_Body :: string
  rs_BodyErr :: "go_error option"

record 'w http_client =
  hc_NewRequest :: "string \<Rightarrow> go_error option"
  hc_Do :: "duration \<Rightarrow> string \<Rightarrow> 'w \<Rightarrow> (go_error + http_response) \<times> 'w"

text \<open>
  \<open>hc_NewRequest url\<close> is the error of \<open>http.NewRequestWithContext\<close> with method GET;
  \<open>hc_Do timeout url\<close> sends the request with the header \<^verbatim>\<open>Accept: application/json\<close>
  through a client with that timeout.
\<close>

record coingeckoMarketResponse =
  cg_ID :: string
  cg_Symbol :: string
  cg_CurrentPrice :: "signed_float option"
  cg_MarketCap :: "signed_float option"
  cg_TotalVolume :: "signed_float option"
  cg_PriceChangePct24h :: "signed_float option"

record coincapAssetResponse =
  cc_ID :: string
  cc_Symbol :: string
  cc_PriceUSD :: string
  cc_MarketCapUSD :: string
  cc_VolumeUsd24Hr :: string
  cc_ChangePercent24Hr :: string

record 'w adapter_env =
  ae_http :: "'w http_client"
  ae_runtime :: "'w runtime"
  ae_unicode :: "string \<Rightarrow> string"
  ae_decodeErr :: "http_response \<Rightarrow> go_error"

definition decoded :: "'w adapter_env \<Rightarrow> http_response \<Rightarrow> 'i option \<Rightarrow> go_error + 'i" where
  "decoded env resp x = (case x of None \<Rightarrow> Inl (ae_decodeErr env resp) | Some items \<Rightarrow> Inr items)"

section \<open>CoinGecko\<close>

record CoinGeckoProvider =
  cgp_baseURL :: string
  cgp_timeout :: duration

definition providerName :: string where
  "providerName = ''coingecko''"

definition NewCoinGeckoProvider :: "string \<Rightarrow> duration \<Rightarrow> CoinGeckoProvider" where
  "NewCoinGeckoProvider baseURL timeout =
     \<lparr>cgp_baseURL = strings_TrimRight baseURL CHR ''/'', cgp_timeout = timeout\<rparr>"

definition coingecko_url :: "CoinGeckoProvider \<Rightarrow> string list \<Rightarrow> string" where
  "coingecko_url p providerSymbols =
     (let endpoint = cgp_baseURL p @ ''/coins/markets'';
          params = gm_put ''page'' ''1''
                  (gm_put ''per_page'' (strconv_Itoa (int (length providerSymbols)))
                  (gm_put ''order'' ''market_cap_desc''
                  (gm_put ''ids'' (strings_Join providerSymbols '','')
                  (gm_put ''vs_currency'' ''usd'' []))))
      in endpoint @ ''?'' @ url_Encode params)"

text \<open>The body: an array of objects, or \<open>null\<close> for an empty list.\<close>

definition coingecko_zero :: coingeckoMarketResponse where
  "coingecko_zero =
     \<lparr>cg_ID = '''', cg_Symbol = '''', cg_CurrentPrice = None, cg_MarketCap = None,
      cg_TotalVolume = None, cg_PriceChangePct24h = None\<rparr>"

definition coingecko_fields ::
    "coingeckoMarketResponse \<Rightarrow> (string \<times> json) list \<Rightarrow> coingeckoMarketResponse option" where
  "coingecko_fields cur ms =
     do {
       i \<leftarrow> string_member ''id'' (cg_ID cur) ms;
       sym \<leftarrow> string_member ''symbol'' (cg_Symbol cur) ms;
       price \<leftarrow> float_ptr_member ''current_price'' (cg_CurrentPrice cur) ms;
       mcap \<leftarrow> float_ptr_member ''market_cap'' (cg_MarketCap cur) ms;
       vol \<leftarrow> float_ptr_member ''total_volume'' (cg_TotalVolume cur) ms;
       chg \<leftarrow> float_ptr_member ''price_change_percentage_24h'' (cg_PriceChangePct24h cur) ms;
       Some \<lparr>cg_ID = i, cg_Symbol = sym, cg_CurrentPrice = price, cg_MarketCap = mcap,
             cg_TotalVolume = vol, cg_PriceChangePct24h = chg\<rparr>
     }"

definition decodeCoinGecko :: "'w adapter_env \<Rightarrow> http_response \<Rightarrow> go_error + coingeckoMarketResponse list" where
  "decodeCoinGecko env resp =
     decoded env resp
       (do {
          v \<leftarrow> Decoder_value (rs_Body resp);
          sl \<leftarrow> decode_slice (decode_struct coingecko_fields) coingecko_zero (0, []) v;
          Some (slice_elements sl)
        })"

definition formatFloat :: "signed_float \<Rightarrow> string" where
  "formatFloat f = strconv_FormatFloat f"

definition optional_float :: "signed_float option \<Rightarrow> string" where
  "optional_float x = (case x of None \<Rightarrow> '''' | Some f \<Rightarrow> formatFloat f)"

fun coingecko_items ::
    "'w adapter_env \<Rightarrow> time \<Rightarrow> coingeckoMarketResponse list \<Rightarrow> MarketData list" where
  "coingecko_items env now [] = []"
| "coingecko_items env now (item # items) =
     (case cg_CurrentPrice item of
        None \<Rightarrow> coingecko_items env now items
      | Some price \<Rightarrow>
          \<lparr>md_Symbol = strings_ToUpper (ae_unicode env) (cg_Symbol item),
           md_PriceUSD = formatFloat price,
           md_MarketCap = optional_float (cg_MarketCap item),
           md_Volume24h = optional_float (cg_TotalVolume item),
           md_Change24h = optional_float (cg_PriceChangePct24h item),
           md_Provider = providerName, md_FetchedAt = now\<rparr>
          # coingecko_items env now items)"

definition coingecko_FetchMarketData ::
    "'w adapter_env \<Rightarrow> CoinGeckoProvider \<Rightarrow> string list \<Rightarrow> 'w
       \<Rightarrow> (MarketData list \<times> go_error option) \<times> 'w" where
  "coingecko_FetchMarketData env p providerSymbols w =
     (if providerSymbols = [] then (([], None), w)
      else
        let reqURL = coingecko_url p providerSymbols
        in case hc_NewRequest (ae_http env) reqURL of
             Some err \<Rightarrow>
               (([], Some (ProviderErr providerName 0 ''failed to create request'' (Some err)
                             False False True)), w)
           | None \<Rightarrow>
               (case hc_Do (ae_http env) (cgp_timeout p) reqURL w of
                  (Inl err, w1) \<Rightarrow>
                    (([], Some (ProviderErr providerName 0 ''request failed'' (Some err)
                                  False True False)), w1)
                | (Inr resp, w1) \<Rightarrow>
                    if rs_StatusCode resp = StatusTooManyRequests
                    then (([], Some (ProviderErr providerName (rs_StatusCode resp) ''rate limited''
                                       None True False False)), w1)
                    else if rs_StatusCode resp \<noteq> StatusOK
                    then
                      (let body = take 512 (rs_Body resp);
                           transient = 500 \<le> rs_StatusCode resp
                       in (([], Some (ProviderErr providerName (rs_StatusCode resp)
                                        (''unexpected status: '' @ body) None
                                        False transient (\<not> transient))), w1))
                    else
                      (case decodeCoinGecko env resp of
                         Inl err \<Rightarrow>
                           (([], Some (ProviderErr providerName 0 ''failed to decode response''
                                         (Some err) False False True)), w1)
                       | Inr items \<Rightarrow>
                           (case rt_Now (ae_runtime env) w1 of
                              (now, w2) \<Rightarrow> ((coingecko_items env now items, None), w2)))))"

definition coingecko_Provider :: "'w adapter_env \<Rightarrow> CoinGeckoProvider \<Rightarrow> 'w Provider" where
  "coingecko_Provider env p =
     \<lparr>pv_Name = providerName, pv_Fetch = coingecko_FetchMarketData env p\<rparr>"

section \<open>CoinCap\<close>

record CoinCapProvider =
  ccp_baseURL :: string
  ccp_timeout :: duration

definition coincapProviderName :: string where
  "coincapProviderName = ''coincap''"

definition NewCoinCapProvider :: "string \<Rightarrow> duration \<Rightarrow> CoinCapProvider" where
  "NewCoinCapProvider baseURL timeout =
     \<lparr>ccp_baseURL = strings_TrimRight baseURL CHR ''/'', ccp_timeout = timeout\<rparr>"

definition coincap_url :: "CoinCapProvider \<Rightarrow> string list \<Rightarrow> string" where
  "coincap_url p providerSymbols =
     (let endpoint = ccp_baseURL p @ ''/v2/assets'';
          params = gm_put ''ids'' (strings_Join providerSymbols '','') []
      in endpoint @ ''?'' @ url_Encode params)"

definition coincap_zero :: coincapAssetResponse where
  "coincap_zero =
     \<lparr>cc_ID = '''', cc_Symbol = '''', cc_PriceUSD = '''', cc_MarketCapUSD = '''',
      cc_VolumeUsd24Hr = '''', cc_ChangePercent24Hr = ''''\<rparr>"

definition coincap_fields ::
    "coincapAssetResponse \<Rightarrow> (string \<times> json) list \<Rightarrow> coincapAssetResponse option" where
  "coincap_fields cur ms =
     do {
       i \<leftarrow> string_member ''id'' (cc_ID cur) ms;
       sym \<leftarrow> string_member ''symbol'' (cc_Symbol cur) ms;
       price \<leftarrow> string_member ''priceUsd'' (cc_PriceUSD cur) ms;
       mcap \<leftarrow> string_member ''marketCapUsd'' (cc_MarketCapUSD cur) ms;
       vol \<leftarrow> string_member ''volumeUsd24Hr'' (cc_VolumeUsd24Hr cur) ms;
       chg \<leftarrow> string_member ''changePercent24Hr'' (cc_ChangePercent24Hr cur) ms;
       Some \<lparr>cc_ID = i, cc_Symbol = sym, cc_PriceUSD = price, cc_MarketCapUSD = mcap,
             cc_VolumeUsd24Hr = vol, cc_ChangePercent24Hr = chg\<rparr>
     }"

text \<open>The body: an object whose member \<open>data\<close> is the array.\<close>

definition decodeCoinCap :: "'w adapter_env \<Rightarrow> http_response \<Rightarrow> go_error + coincapAssetResponse list" where
  "decodeCoinCap env resp =
     decoded env resp
       (do {
          v \<leftarrow> Decoder_value (rs_Body resp);
          sl \<leftarrow> decode_struct (slice_member (decode_struct coincap_fields) coincap_zero ''data'') (0, []) v;
          Some (slice_elements sl)
        })"

fun coincap_items ::
    "'w adapter_env \<Rightarrow> time \<Rightarrow> coincapAssetResponse list \<Rightarrow> MarketData list" where
  "coincap_items env now [] = []"
| "coincap_items env now (item # items) =
     (if cc_PriceUSD item = '''' then coincap_items env now items
      else case strconv_ParseFloat (cc_PriceUSD item) of
             None \<Rightarrow> coincap_items env now items
           | Some _ \<Rightarrow>
               \<lparr>md_Symbol = strings_ToUpper (ae_unicode env) (cc_Symbol item),
                md_PriceUSD = cc_PriceUSD item,
                md_MarketCap = cc_MarketCapUSD item,
                md_Volume24h = cc_VolumeUsd24Hr item,
                md_Change24h = cc_ChangePercent24Hr item,
                md_Provider = coincapProviderName, md_FetchedAt = now\<rparr>
               # coincap_items env now items)"

definition coincap_FetchMarketData ::
    "'w adapter_env \<Rightarrow> CoinCapProvider \<Rightarrow> string list \<Rightarrow> 'w
       \<Rightarrow> (MarketData list \<times> go_error option) \<times> 'w" where
  "coincap_FetchMarketData env p providerSymbols w =
     (if providerSymbols = [] then (([], None), w)
      else
        let reqURL = coincap_url p providerSymbols
        in case hc_NewRequest (ae_http env) reqURL of
             Some err \<Rightarrow>
               (([], Some (ProviderErr coincapProviderName 0 ''failed to create request'' (Some err)
                             False False True)), w)
           | None \<Rightarrow>
               (case hc_Do (ae_http env) (ccp_timeout p) reqURL w of
                  (Inl err, w1) \<Rightarrow>
                    (([], Some (ProviderErr coincapProviderName 0 ''request failed'' (Some err)
                                  False True False)), w1)
                | (Inr resp, w1) \<Rightarrow>
                    if rs_StatusCode resp = StatusTooManyRequests
                    then (([], Some (ProviderErr coincapProviderName (rs_StatusCode resp)
                                       ''rate limited'' None True False False)), w1)
                    else if rs_StatusCode resp \<noteq> StatusOK
                    then
                      (let body = take 512 (rs_Body resp);
                           transient = 500 \<le> rs_StatusCode resp
                       in (([], Some (ProviderErr coincapProviderName (rs_StatusCode resp)
                                        (''unexpected status: '' @ body) None
                                        False transient (\<not> transient))), w1))
                    else
                      (case decodeCoinCap env resp of
                         Inl err \<Rightarrow>
                           (([], Some (ProviderErr coincapProviderName 0
                                         ''failed to decode response'' (Some err)
                                         False False True)), w1)
                       | Inr items \<Rightarrow>
                           (case rt_Now (ae_runtime env) w1 of
                              (now, w2) \<Rightarrow> ((coincap_items env now items, None), w2)))))"

definition coincap_Provider :: "'w adapter_env \<Rightarrow> CoinCapProvider \<Rightarrow> 'w Provider" where
  "coincap_Provider env p =
     \<lparr>pv_Name = coincapProviderName, pv_Fetch = coincap_FetchMarketData env p\<rparr>"

text \<open>The registry with the constructors of this file.\<close>

definition default_registry :: "'w adapter_env \<Rightarrow> 'w Registry" where
  "default_registry env =
     NewRegistry (\<lambda>url timeout. coingecko_Provider env (NewCoinGeckoProvider url timeout))
       (\<lambda>url timeout. coincap_Provider env (NewCoinCapProvider url timeout))"

section \<open>Specification of an HTTP exchange\<close>

text \<open>How far an exchange got, independent of the adapter.\<close>

datatype exchange =
    NotSent
  | NetworkFailure
  | BadStatus int
  | BadBody
  | Answered

fun exchange_of_response :: "bool \<Rightarrow> http_response \<Rightarrow> exchange" where
  "exchange_of_response decodes resp =
     (if rs_StatusCode resp = 200 then (if decodes then Answered else BadBody)
      else BadStatus (rs_StatusCode resp))"

definition exchange_of ::
    "'w http_client \<Rightarrow> (http_response \<Rightarrow> go_error + 'i) \<Rightarrow> duration \<Rightarrow> string \<Rightarrow> 'w \<Rightarrow> exchange" where
  "exchange_of http decode timeout url w =
     (if hc_NewRequest http url \<noteq> None then NotSent
      else case fst (hc_Do http timeout url w) of
             Inl _ \<Rightarrow> NetworkFailure
           | Inr resp \<Rightarrow>
               exchange_of_response (case decode resp of Inl _ \<Rightarrow> False | Inr _ \<Rightarrow> True) resp)"

fun worth_retrying :: "exchange \<Rightarrow> bool" where
  "worth_retrying NetworkFailure = True"
| "worth_retrying (BadStatus c) = (c = 429 \<or> 500 \<le> c)"
| "worth_retrying _ = False"

definition retryable_error :: "go_error option \<Rightarrow> bool" where
  "retryable_error err \<longleftrightarrow> IsTransient err \<and> \<not> IsPermanent err"

text \<open>The error an adapter must return for an exchange, seen through the classifiers of the package.\<close>

definition adapter_policy :: "exchange \<Rightarrow> go_error option \<Rightarrow> bool" where
  "adapter_policy x err \<longleftrightarrow>
     (err = None \<longleftrightarrow> x = Answered) \<and>
     (retryable_error err \<longleftrightarrow> worth_retrying x) \<and>
     (IsRateLimited err \<longleftrightarrow> x = BadStatus 429)"

text \<open>The data CoinCap's adapter keeps of a response: the assets with a numeric price.\<close>

definition coincap_numeric :: "coincapAssetResponse \<Rightarrow> bool" where
  "coincap_numeric a \<longleftrightarrow> cc_PriceUSD a \<noteq> '''' \<and> strconv_ParseFloat (cc_PriceUSD a) \<noteq> None"

text \<open>The record of a CoinGecko item has the numbers of the item.\<close>

definition same_numbers :: "MarketData \<Rightarrow> coingeckoMarketResponse \<Rightarrow> bool" where
  "same_numbers d i \<longleftrightarrow>
     signed_ParseFloat (md_PriceUSD d) = cg_CurrentPrice i \<and>
     signed_ParseFloat (md_MarketCap d) = cg_MarketCap i \<and>
     signed_ParseFloat (md_Volume24h d) = cg_TotalVolume i \<and>
     signed_ParseFloat (md_Change24h d) = cg_PriceChangePct24h i"

definition numbers_read :: "coingeckoMarketResponse \<Rightarrow> bool" where
  "numbers_read i \<longleftrightarrow>
     was_read (cg_CurrentPrice i) \<and> was_read (cg_MarketCap i) \<and> was_read (cg_TotalVolume i) \<and>
     was_read (cg_PriceChangePct24h i)"

text \<open>Bodies and a client for closed examples: every request gets the same answer.\<close>

definition demo_assets :: string where
  "demo_assets =
     ''{'' @ json_quote ''data'' @ '':[{'' @ json_quote ''id'' @ '':'' @ json_quote ''bitcoin'' @ '',''
       @ json_quote ''priceUsd'' @ '':'' @ json_quote ''67.50'' @ ''},{'' @ json_quote ''priceUsd'' @ '':''
       @ json_quote ''n/a'' @ ''}]} ...''"

definition demo_markets :: string where
  "demo_markets =
     ''[{'' @ json_quote ''symbol'' @ '':'' @ json_quote ''btc'' @ '','' @ json_quote ''current_price''
       @ '':67.50,'' @ json_quote ''price_change_percentage_24h'' @ '':-0.0},null]''"

definition demo_env :: "go_error + http_response \<Rightarrow> int adapter_env" where
  "demo_env answer =
     \<lparr>ae_http = \<lparr>hc_NewRequest = (\<lambda>_. None), hc_Do = (\<lambda>_ _ w. (answer, w + 1))\<rparr>,
      ae_runtime = demo_runtime 1000, ae_unicode = id,
      ae_decodeErr = (\<lambda>_. ErrorString ''unexpected end of JSON input'')\<rparr>"

definition demo_answer :: "string \<Rightarrow> go_error + http_response" where
  "demo_answer body = Inr \<lparr>rs_StatusCode = 200, rs_Body = body, rs_BodyErr = None\<rparr>"

section \<open>Interface: what every provider promises\<close>

text \<open>
  The orchestrator and the ingestor may rely on this of any provider: the data of a successful
  fetch carries the provider's name, a failed fetch carries no data, and a fetch of no symbols
  does nothing.
\<close>

locale provider_contract =
  fixes prov :: "'w Provider"
  assumes labelled: "pv_Fetch prov syms w = ((data, err), w') \<Longrightarrow> d \<in> set data \<Longrightarrow> md_Provider d = pv_Name prov"
    and failed_empty: "pv_Fetch prov syms w = ((data, Some e), w') \<Longrightarrow> data = []"
    and nothing_asked: "pv_Fetch prov [] w = (([], None), w)"
begin

lemma data_means_success: "pv_Fetch prov syms w = ((d # ds, err), w') \<Longrightarrow> err = None"
  by (cases err) (auto dest: failed_empty)

lemma labels: "md_Provider ` set (fst (fst (pv_Fetch prov syms w))) \<subseteq> {pv_Name prov}"
proof -
  obtain data err w' where "pv_Fetch prov syms w = ((data, err), w')" by (metis surj_pair)
  then show ?thesis using labelled by auto
qed

end

section \<open>Lemmas\<close>

lemma coingecko_items_provider: "d \<in> set (coingecko_items env now items) \<Longrightarrow> md_Provider d = providerName"
  by (induction items) (auto split: option.splits)

lemma coincap_items_provider:
  "d \<in> set (coincap_items env now items) \<Longrightarrow> md_Provider d = coincapProviderName"
  by (induction items) (auto split: option.splits if_splits)

interpretation gecko: provider_contract "coingecko_Provider env p" for env p
  by unfold_locales
    (auto simp: coingecko_Provider_def coingecko_FetchMarketData_def Let_def coingecko_items_provider
      split: if_splits option.splits prod.splits sum.splits)

interpretation cap: provider_contract "coincap_Provider env p" for env p
  by unfold_locales
    (auto simp: coincap_Provider_def coincap_FetchMarketData_def Let_def coincap_items_provider
      split: if_splits option.splits prod.splits sum.splits)

lemma string_le_refl [simp]: "string_le s s"
  by (induction s) auto

lemma QueryEscape_unreserved: "list_all query_unreserved s \<Longrightarrow> QueryEscape s = s"
  by (induction s) (auto simp: QueryEscape_def)

lemma dec_digits_unreserved: "list_all query_unreserved (dec_digits n)"
  using dec_digits_are_digits [of n]
  by (auto simp: list_all_iff query_unreserved_def)

lemma QueryEscape_length: "QueryEscape (strconv_Itoa (int n)) = strconv_Itoa (int n)"
  by (simp add: strconv_Itoa_def QueryEscape_unreserved dec_digits_unreserved)

lemma coincap_items_filter:
  "coincap_items env now items = concat (map (\<lambda>a. coincap_items env now [a]) (filter coincap_numeric items))"
  by (induction items) (auto simp: coincap_numeric_def split: option.splits)

lemma coincap_items_price:
  "map md_PriceUSD (coincap_items env now items) = map cc_PriceUSD (filter coincap_numeric items)"
  by (induction items) (auto simp: coincap_numeric_def split: option.splits)

lemma coingecko_items_price:
  "map md_PriceUSD (coingecko_items env now items)
     = map formatFloat (List.map_filter cg_CurrentPrice items)"
  by (induction items) (auto simp: List.map_filter_simps split: option.splits)

text \<open>Every number of a decoded answer was read from a text.\<close>

lemma coingecko_fields_read:
  assumes "coingecko_fields cur ms = Some item" and "numbers_read cur"
  shows "numbers_read item"
  using assms float_ptr_member_was_read
  by (fastforce simp: coingecko_fields_def numbers_read_def bind_eq_Some_conv)

lemma decodeCoinGecko_read:
  assumes "decodeCoinGecko env resp = Inr items"
  shows "list_all numbers_read items"
proof -
  obtain v sl where sl: "decode_slice (decode_struct coingecko_fields) coingecko_zero (0, []) v = Some sl"
      "items = slice_elements sl"
    using assms by (auto simp: decodeCoinGecko_def decoded_def bind_eq_Some_conv split: option.splits)
  have "list_all numbers_read (snd sl)"
    by (rule decode_slice_all [OF _ _ sl(1)])
      (auto simp: decode_struct_def numbers_read_def coingecko_zero_def
        dest: coingecko_fields_read [unfolded numbers_read_def] split: json.splits)
  then show ?thesis using sl(2) by (auto simp: slice_elements_def list_all_iff dest: in_set_takeD)
qed

lemma optional_float_read: "was_read x \<Longrightarrow> signed_ParseFloat (optional_float x) = x"
  by (cases x) (simp_all add: optional_float_def was_read_def formatFloat_def signed_ParseFloat_def)

lemma coingecko_items_exact:
  "list_all numbers_read items \<Longrightarrow>
   list_all2 same_numbers (coingecko_items env now items) (filter (\<lambda>i. cg_CurrentPrice i \<noteq> None) items)"
proof (induction items)
  case (Cons i items)
  then show ?case
    using optional_float_read
    by (cases "cg_CurrentPrice i") (auto simp: numbers_read_def same_numbers_def was_read_def formatFloat_def)
qed simp

lemma decode_null [simp]:
  "decodeCoinGecko env \<lparr>rs_StatusCode = c, rs_Body = ''null'', rs_BodyErr = e\<rparr> = Inr []"
  "decodeCoinCap env \<lparr>rs_StatusCode = c, rs_Body = ''null'', rs_BodyErr = e\<rparr> = Inr []"
proof -
  have "Decoder_value ''null'' = Some JNull" by code_simp
  then show "decodeCoinGecko env \<lparr>rs_StatusCode = c, rs_Body = ''null'', rs_BodyErr = e\<rparr> = Inr []"
    "decodeCoinCap env \<lparr>rs_StatusCode = c, rs_Body = ''null'', rs_BodyErr = e\<rparr> = Inr []"
    by (simp_all add: decodeCoinGecko_def decodeCoinCap_def decoded_def decode_struct_def decode_slice_def
        slice_elements_def)
qed

text \<open>The example bodies.\<close>

lemma fl_demo: "fl (135 / 2) = Fin (135 / 2)" "fl 0 = Fin 0"
proof -
  have "is_double (135 / 2)"
    unfolding is_double_def by (intro exI [of _ 135] exI [of _ "-1"]) (simp add: pow2_def)
  then show "fl (135 / 2) = Fin (135 / 2)" using int_below_pow2_1024 [of 68] by (intro fl_is_double) simp_all
qed (simp add: fl_def not_le)

lemma ParseFloat_demo:
  "signed_ParseFloat ''67.50'' = Some (False, Fin (135 / 2))" "signed_ParseFloat ''-0.0'' = Some (True, Fin 0)"
  by (simp_all add: signed_ParseFloat_def strconv_ParseFloat_def float_special_def ascii_lower_def
      char_lower_def strip_sign_def readFloat_def is_digit_def digit_val_def float_exponent_def rpow_def fl_demo)

lemma Decoder_demo:
  "Decoder_value demo_markets = Some (JArray
     [JObject [(''symbol'', JString ''btc''), (''current_price'', JNumber ''67.50''),
        (''price_change_percentage_24h'', JNumber ''-0.0'')], JNull])"
  "Decoder_value demo_assets = Some (JObject [(''data'', JArray
     [JObject [(''id'', JString ''bitcoin''), (''priceUsd'', JString ''67.50'')],
      JObject [(''priceUsd'', JString ''n/a'')]])])"
  by code_simp+

lemmas decode_defs = decoded_def decode_struct_def decode_slice_def slice_elements_def char_upper_def

lemma decode_demo_markets:
  "decodeCoinGecko env \<lparr>rs_StatusCode = c, rs_Body = demo_markets, rs_BodyErr = e\<rparr> =
     Inr [coingecko_zero\<lparr>cg_Symbol := ''btc'', cg_CurrentPrice := Some (False, Fin (135 / 2)),
            cg_PriceChangePct24h := Some (True, Fin 0)\<rparr>, coingecko_zero]"
  by (simp add: decodeCoinGecko_def Decoder_demo decode_defs coingecko_fields_def coingecko_zero_def ParseFloat_demo)

lemma decode_demo_assets:
  "decodeCoinCap env \<lparr>rs_StatusCode = c, rs_Body = demo_assets, rs_BodyErr = e\<rparr> =
     Inr [coincap_zero\<lparr>cc_ID := ''bitcoin'', cc_PriceUSD := ''67.50''\<rparr>, coincap_zero\<lparr>cc_PriceUSD := ''n/a''\<rparr>]"
  by (simp add: decodeCoinCap_def Decoder_demo decode_defs coincap_fields_def coincap_zero_def)

lemma retryable_None [simp]: "\<not> retryable_error None"
  by (simp add: retryable_error_def IsTransient_def)

lemma retryable_ProviderErr [simp]:
  "retryable_error (Some (ProviderErr n c msg e rl tr pm)) \<longleftrightarrow>
     ((case e of None \<Rightarrow> False | Some e' \<Rightarrow> errors_Is e' DeadlineExceeded) \<or> tr \<or>
      500 \<le> c \<and> c < 600 \<or> c = 429) \<and>
     \<not> pm \<and> \<not> (400 \<le> c \<and> c < 500 \<and> c \<noteq> 429)"
  by (cases e) (auto simp: retryable_error_def IsTransient_def IsPermanent_def StatusTooManyRequests_def)

lemma rate_limited_simps [simp]:
  "\<not> IsRateLimited None"
  "IsRateLimited (Some (ProviderErr n c msg e rl tr pm)) = (rl \<or> c = 429)"
  by (simp_all add: IsRateLimited_def StatusTooManyRequests_def)

lemmas exchange_defs = adapter_policy_def exchange_of_def StatusTooManyRequests_def StatusOK_def Let_def

lemma coingecko_policy:
  "adapter_policy
     (exchange_of (ae_http env) (decodeCoinGecko env) (cgp_timeout p) (coingecko_url p (s # ss)) w)
     (snd (fst (coingecko_FetchMarketData env p (s # ss) w)))"
proof (cases "hc_NewRequest (ae_http env) (coingecko_url p (s # ss))")
  case None
  obtain a w1 where "hc_Do (ae_http env) (cgp_timeout p) (coingecko_url p (s # ss)) w = (a, w1)"
    by (cases "hc_Do (ae_http env) (cgp_timeout p) (coingecko_url p (s # ss)) w")
  with None show ?thesis
    by (cases a) (auto simp: coingecko_FetchMarketData_def exchange_defs split: sum.split prod.split)
qed (simp add: coingecko_FetchMarketData_def exchange_defs)

lemma coincap_policy:
  "adapter_policy
     (exchange_of (ae_http env) (decodeCoinCap env) (ccp_timeout p) (coincap_url p (s # ss)) w)
     (snd (fst (coincap_FetchMarketData env p (s # ss) w)))"
proof (cases "hc_NewRequest (ae_http env) (coincap_url p (s # ss))")
  case None
  obtain a w1 where "hc_Do (ae_http env) (ccp_timeout p) (coincap_url p (s # ss)) w = (a, w1)"
    by (cases "hc_Do (ae_http env) (ccp_timeout p) (coincap_url p (s # ss)) w")
  with None show ?thesis
    by (cases a) (auto simp: coincap_FetchMarketData_def exchange_defs split: sum.split prod.split)
qed (simp add: coincap_FetchMarketData_def exchange_defs)

section \<open>Properties\<close>

text \<open>
  C31: Both adapters turn an exchange into the right kind of error: no error exactly when a
  status-200 response was decoded; an error the retry loop repeats exactly for a network
  failure, status 429 or a status of 500 and above; and a rate-limit error exactly for status
  429. A request that cannot be built, any other status and a body that does not decode
  are never retried, whatever error caused them.
\<close>

theorem adapter_error_policy:
  "adapter_policy
     (exchange_of (ae_http env) (decodeCoinGecko env) (cgp_timeout p) (coingecko_url p (s # ss)) w)
     (snd (fst (coingecko_FetchMarketData env p (s # ss) w))) \<and>
   adapter_policy
     (exchange_of (ae_http env) (decodeCoinCap env) (ccp_timeout q) (coincap_url q (s # ss)) w)
     (snd (fst (coincap_FetchMarketData env q (s # ss) w)))"
  by (intro conjI coingecko_policy coincap_policy)

text \<open>
  CoinGecko is asked for exactly the given symbols: the URL the adapter sends has the base
  URL without trailing slashes and the parameters in sorted order, with the symbols joined by
  commas and escaped, and one page as long as the list of symbols.
\<close>

theorem coingecko_request_url:
  "coingecko_url (NewCoinGeckoProvider base timeout) syms =
     strings_TrimRight base CHR ''/'' @ ''/coins/markets?ids='' @ QueryEscape (strings_Join syms '','')
       @ ''&order=market_cap_desc&page=1&per_page='' @ strconv_Itoa (int (length syms))
       @ ''&vs_currency=usd''"
  by (simp add: coingecko_url_def NewCoinGeckoProvider_def url_Encode_def sort_keys_def gm_put_def
      QueryEscape_length)
    (simp add: QueryEscape_def query_unreserved_def is_digit_def)

text \<open>
  The data of a successful CoinCap fetch are the assets whose price is a number, in the
  order of the response: assets with an empty or unparsable price are dropped, the others keep
  the price text they came with.
\<close>

theorem coincap_keeps_numeric_prices:
  assumes "hc_NewRequest (ae_http env) (coincap_url p (s # ss)) = None"
    and "hc_Do (ae_http env) (ccp_timeout p) (coincap_url p (s # ss)) w = (Inr resp, w1)"
    and "rs_StatusCode resp = 200" and "decodeCoinCap env resp = Inr items"
  shows "map md_PriceUSD (fst (fst (coincap_FetchMarketData env p (s # ss) w)))
           = map cc_PriceUSD (filter coincap_numeric items)"
  using assms
  by (simp add: coincap_FetchMarketData_def exchange_defs coincap_items_price split: prod.splits)

theorem coincap_keeps_numeric_prices_witness:
  "map md_PriceUSD (fst (fst (coincap_FetchMarketData (demo_env (demo_answer demo_assets))
     (NewCoinCapProvider ''http://cap/'' 5) [''bitcoin'', ''x''] 0))) = [''67.50'']"
proof -
  have num: "strconv_ParseFloat ''67.50'' \<noteq> None" "strconv_ParseFloat ''n/a'' = None"
    using ParseFloat_demo(1) by (auto simp: signed_ParseFloat_def, code_simp)
  show ?thesis
    by (subst coincap_keeps_numeric_prices [OF _ _ _ decode_demo_assets])
      (auto simp: demo_env_def demo_answer_def coincap_numeric_def coincap_zero_def num num(1) [simplified])
qed

text \<open>
  C36: No digit of a CoinGecko number is lost: a fetch keeps exactly the items with a price, in
  order, and every text it hands on reads as the very number that was read from the response
  (an absent optional number becomes the empty text, which reads as none).
\<close>

theorem coingecko_numbers_exact:
  assumes "hc_NewRequest (ae_http env) (coingecko_url p (s # ss)) = None"
    and "hc_Do (ae_http env) (cgp_timeout p) (coingecko_url p (s # ss)) w = (Inr resp, w1)"
    and "rs_StatusCode resp = 200" and "decodeCoinGecko env resp = Inr items"
  shows "list_all2 same_numbers (fst (fst (coingecko_FetchMarketData env p (s # ss) w)))
    (filter (\<lambda>i. cg_CurrentPrice i \<noteq> None) items)"
  using assms coingecko_items_exact [OF decodeCoinGecko_read [OF assms(4)], of env]
  by (simp add: coingecko_FetchMarketData_def exchange_defs split: prod.splits)

theorem coingecko_numbers_exact_witness:
  "list_all2 same_numbers
     (fst (fst (coingecko_FetchMarketData (demo_env (demo_answer demo_markets))
        (NewCoinGeckoProvider ''http://gecko'' 5) [''bitcoin''] 0)))
     [coingecko_zero\<lparr>cg_Symbol := ''btc'', cg_CurrentPrice := Some (False, Fin (135 / 2)),
        cg_PriceChangePct24h := Some (True, Fin 0)\<rparr>]"
proof -
  let ?item = "coingecko_zero\<lparr>cg_Symbol := ''btc'', cg_CurrentPrice := Some (False, Fin (135 / 2)),
    cg_PriceChangePct24h := Some (True, Fin 0)\<rparr>"
  have "list_all2 same_numbers
      (fst (fst (coingecko_FetchMarketData (demo_env (demo_answer demo_markets))
        (NewCoinGeckoProvider ''http://gecko'' 5) [''bitcoin''] 0)))
      (filter (\<lambda>i. cg_CurrentPrice i \<noteq> None) [?item, coingecko_zero])"
    by (rule coingecko_numbers_exact [OF _ _ _ decode_demo_markets]) (simp_all add: demo_env_def demo_answer_def)
  moreover have "filter (\<lambda>i. cg_CurrentPrice i \<noteq> None) [?item, coingecko_zero] = [?item]"
    by (auto simp: coingecko_zero_def)
  ultimately show ?thesis by (simp only:)
qed

end
