(* ===== verification/Fallback.thy ===== *)
theory Fallback
  imports Circuit_Breaker Rate_Limit_Tracker Retry Provider_Adapters
begin

text \<open>
  \<open>internal/provider/fallback.go\<close>: the orchestrator that tries the eligible providers in
  order, skips those whose circuit is open or that are rate limited, retries transient
  failures, and records which provider is in use.

  One call of \<open>FetchMarketData\<close> runs on the world of \<open>Go_Runtime\<close>. The clock is
  read exactly where the code reads it: by \<open>State\<close> only of an open breaker, by
  \<open>ShouldWait\<close> only of a provider with a pending back-off, and a second time by
  \<open>RecordFailure\<close> only when the breaker opens. The breakers live in the manager; a method
  called on one writes it back there. The counters of the retry loop and of the orchestrator
  are the registry \<open>fo_metrics\<close>.
\<close>

record 'w FallbackOrchestrator =
  fo_selector :: "'w Selector"
  fo_cbManager :: Manager
  fo_rateTracker :: RateLimitTracker
  fo_retryConfig :: RetryConfig
  fo_activeProvider :: string
  fo_lastSwitch :: time
  fo_degraded :: bool
  fo_metrics :: metrics

definition NewFallbackOrchestrator ::
    "'w Selector \<Rightarrow> Manager \<Rightarrow> RateLimitTracker \<Rightarrow> RetryConfig \<Rightarrow> 'w FallbackOrchestrator" where
  "NewFallbackOrchestrator selector cbManager rateTracker retryConfig =
     (let fo = \<lparr>fo_selector = selector, fo_cbManager = cbManager, fo_rateTracker = rateTracker,
                fo_retryConfig = retryConfig, fo_activeProvider = '''', fo_lastSwitch = zero_time,
                fo_degraded = False, fo_metrics = m_empty\<rparr>
      in case Primary selector of
           Inl _ \<Rightarrow> fo
         | Inr primary \<Rightarrow>
             fo\<lparr>fo_activeProvider := pv_Name primary,
                fo_metrics := m_set ''provider_active'' [pv_Name primary] 1 (fo_metrics fo)\<rparr>)"

section \<open>The shared components on the world\<close>

definition breaker_State ::
    "'w runtime \<Rightarrow> CircuitBreaker \<Rightarrow> 'w \<Rightarrow> CircuitState \<times> CircuitBreaker \<times> 'w" where
  "breaker_State rt cb w =
     (if cb_state cb = StateOpen
      then case rt_Now rt w of
             (now, w1) \<Rightarrow> (case State now cb of (st, cb1) \<Rightarrow> (st, cb1, w1))
      else (cb_state cb, cb, w))"

definition breaker_RecordFailure :: "'w runtime \<Rightarrow> CircuitBreaker \<Rightarrow> 'w \<Rightarrow> CircuitBreaker \<times> 'w" where
  "breaker_RecordFailure rt cb w =
     (case rt_Now rt w of
        (now1, w1) \<Rightarrow>
          if cb_state cb \<noteq> StateOpen \<and> cb_state (RecordFailure now1 now1 cb) = StateOpen
          then (case rt_Now rt w1 of (now2, w2) \<Rightarrow> (RecordFailure now1 now2 cb, w2))
          else (RecordFailure now1 now1 cb, w1))"

text \<open>\<open>onSuccess\<close> opens no breaker and so reads no clock.\<close>

definition breaker_RecordSuccess :: "CircuitBreaker \<Rightarrow> CircuitBreaker" where
  "breaker_RecordSuccess cb = RecordSuccess zero_time cb"

definition tracker_ShouldWait ::
    "'w runtime \<Rightarrow> string \<Rightarrow> RateLimitTracker \<Rightarrow> 'w \<Rightarrow> (bool \<times> duration) \<times> 'w" where
  "tracker_ShouldWait rt name t w =
     (case gm_get (rlt_providers t) name of
        None \<Rightarrow> ((False, 0), w)
      | Some rl \<Rightarrow>
          if retryAfter rl \<le> 0 then ((False, 0), w)
          else case rt_Now rt w of (now, w1) \<Rightarrow> (ShouldWait name now t, w1))"

definition tracker_RecordRateLimit ::
    "'w runtime \<Rightarrow> string \<Rightarrow> duration \<Rightarrow> RateLimitTracker \<Rightarrow> 'w \<Rightarrow> RateLimitTracker \<times> 'w" where
  "tracker_RecordRateLimit rt name after t w =
     (case rt_Now rt w of (now, w1) \<Rightarrow> (RecordRateLimit name after now t, w1))"

section \<open>Fetching\<close>

definition fetch_once ::
    "'w Provider \<Rightarrow> string list \<Rightarrow> 'w \<Rightarrow> (MarketData list \<times> go_error option) \<times> 'w" where
  "fetch_once prov symbols w =
     (case pv_Fetch prov symbols w of
        ((fetched, Some fetchErr), w1) \<Rightarrow>
          (([], Some (Wrapped (''fetch from '' @ pv_Name prov @ '': '') fetchErr '''')), w1)
      | ((fetched, None), w1) \<Rightarrow> ((fetched, None), w1))"

definition attemptFetch ::
    "'w runtime \<Rightarrow> 'w Provider \<Rightarrow> string list \<Rightarrow> RetryConfig \<Rightarrow> metrics \<Rightarrow> 'w
       \<Rightarrow> (MarketData list \<times> go_error option) \<times> metrics \<times> 'w" where
  "attemptFetch rt prov symbols retryConfig m w =
     (let cfg = retryConfig\<lparr>RetryableFunc :=
                  Some (\<lambda>err. IsTransient (Some err) \<and> \<not> IsPermanent (Some err))\<rparr>
      in case RetryWithResult rt cfg (fetch_once prov symbols) [] m w of
           ((data, Some err), m1, w1) \<Rightarrow>
             (([], Some (Wrapped ''attempt fetch: '' err '''')), m1, w1)
         | ((data, None), m1, w1) \<Rightarrow> ((data, None), m1, w1))"

definition setActiveProvider ::
    "'w runtime \<Rightarrow> string \<Rightarrow> 'w FallbackOrchestrator \<Rightarrow> 'w \<Rightarrow> 'w FallbackOrchestrator \<times> 'w" where
  "setActiveProvider rt name fo w =
     (if fo_activeProvider fo \<noteq> name then
        (case rt_Now rt w of
           (now, w1) \<Rightarrow>
             (let from = fo_activeProvider fo;
                  m1 = (if from \<noteq> ''''
                        then m_inc ''provider_switch_total'' [from, name]
                               (m_set ''provider_active'' [from] 0 (fo_metrics fo))
                        else fo_metrics fo);
                  m2 = m_set ''provider_active'' [name] 1 m1;
                  degraded = (case Primary (fo_selector fo) of
                                Inl _ \<Rightarrow> True | Inr primary \<Rightarrow> pv_Name primary \<noteq> name)
              in (fo\<lparr>fo_activeProvider := name, fo_lastSwitch := now, fo_metrics := m2,
                     fo_degraded := degraded\<rparr>, w1)))
      else (fo, w))"

definition write_breaker ::
    "string \<Rightarrow> CircuitBreaker \<Rightarrow> 'w FallbackOrchestrator \<Rightarrow> 'w FallbackOrchestrator" where
  "write_breaker name cb fo = fo\<lparr>fo_cbManager := Manager_write name cb (fo_cbManager fo)\<rparr>"

text \<open>What the loop does after a provider failed: the whole error branch.\<close>

definition fetch_failed ::
    "'w runtime \<Rightarrow> 'w Provider list \<Rightarrow> nat \<Rightarrow> string \<Rightarrow> CircuitBreaker \<Rightarrow> go_error
       \<Rightarrow> 'w FallbackOrchestrator \<Rightarrow> 'w \<Rightarrow> 'w FallbackOrchestrator \<times> 'w" where
  "fetch_failed rt eligible i name cb err fo w =
     (case breaker_RecordFailure rt cb w of
        (cb1, w1) \<Rightarrow>
          (let fo1 = write_breaker name cb1 fo
           in case (if IsRateLimited (Some err)
                    then tracker_RecordRateLimit rt name DefaultRetryAfter (fo_rateTracker fo1) w1
                    else (fo_rateTracker fo1, w1)) of
                (t, w2) \<Rightarrow>
                  (let fo2 = fo1\<lparr>fo_rateTracker := t\<rparr>
                   in (if i = 0 \<and> 1 < length eligible
                       then fo2\<lparr>fo_metrics := m_inc ''provider_fallback_total''
                                  [name, pv_Name (eligible ! 1)] (fo_metrics fo2)\<rparr>
                       else fo2, w2))))"

definition all_unavailable :: go_error where
  "all_unavailable = ProviderErr ''all'' 0 ''all providers unavailable'' None False True False"

definition none_eligible :: go_error where
  "none_eligible = ProviderErr ''none'' 0 ''no eligible providers available'' None False False True"

text \<open>
  The body of the loop for one provider: it is skipped, it failed and the loop goes on, or its
  data is returned.
\<close>

datatype verdict = Skipped | FailedWith go_error | Fetched "MarketData list"

definition try_provider ::
    "'w runtime \<Rightarrow> string list \<Rightarrow> 'w Provider list \<Rightarrow> nat \<Rightarrow> 'w Provider
       \<Rightarrow> 'w FallbackOrchestrator \<Rightarrow> 'w \<Rightarrow> verdict \<times> 'w FallbackOrchestrator \<times> 'w" where
  "try_provider rt symbols eligible i prov fo w =
     (let name = pv_Name prov
      in case Manager_Get name (fo_cbManager fo) of
           (cb0, mgr) \<Rightarrow>
             (case breaker_State rt cb0 w of
                (st, cb, w1) \<Rightarrow>
                  (let fo1 = write_breaker name cb (fo\<lparr>fo_cbManager := mgr\<rparr>)
                   in if st = StateOpen then (Skipped, fo1, w1)
                      else
                        (case tracker_ShouldWait rt name (fo_rateTracker fo1) w1 of
                           ((wait, remaining), w2) \<Rightarrow>
                             if wait then (Skipped, fo1, w2)
                             else
                               (case attemptFetch rt prov symbols (fo_retryConfig fo1)
                                       (fo_metrics fo1) w2 of
                                  ((data, Some err), m, w3) \<Rightarrow>
                                    (case fetch_failed rt eligible i name cb err
                                            (fo1\<lparr>fo_metrics := m\<rparr>) w3 of
                                       (fo2, w4) \<Rightarrow> (FailedWith err, fo2, w4))
                                | ((data, None), m, w3) \<Rightarrow>
                                    (let fo2 = write_breaker name (breaker_RecordSuccess cb)
                                                 (fo1\<lparr>fo_metrics := m\<rparr>)
                                     in case setActiveProvider rt name fo2 w3 of
                                          (fo3, w4) \<Rightarrow> (Fetched data, fo3, w4)))))))"

fun Fetch_loop ::
    "'w runtime \<Rightarrow> string list \<Rightarrow> 'w Provider list \<Rightarrow> nat \<Rightarrow> 'w Provider list \<Rightarrow> go_error option
       \<Rightarrow> 'w FallbackOrchestrator \<Rightarrow> 'w
       \<Rightarrow> (MarketData list \<times> go_error option) \<times> 'w FallbackOrchestrator \<times> 'w" where
  "Fetch_loop rt symbols eligible i [] lastErr fo w =
     (case lastErr of
        Some e \<Rightarrow> (([], Some e), fo, w)
      | None \<Rightarrow> (([], Some all_unavailable), fo, w))"
| "Fetch_loop rt symbols eligible i (prov # provs) lastErr fo w =
     (case try_provider rt symbols eligible i prov fo w of
        (Skipped, fo1, w1) \<Rightarrow> Fetch_loop rt symbols eligible (Suc i) provs lastErr fo1 w1
      | (FailedWith err, fo1, w1) \<Rightarrow> Fetch_loop rt symbols eligible (Suc i) provs (Some err) fo1 w1
      | (Fetched data, fo1, w1) \<Rightarrow> ((data, None), fo1, w1))"

definition orchestrator_FetchMarketData ::
    "'w runtime \<Rightarrow> string list \<Rightarrow> 'w FallbackOrchestrator \<Rightarrow> 'w
       \<Rightarrow> (MarketData list \<times> go_error option) \<times> 'w FallbackOrchestrator \<times> 'w" where
  "orchestrator_FetchMarketData rt providerSymbols fo w =
     (let eligible = Eligible (fo_selector fo)
      in if eligible = [] then (([], Some none_eligible), fo, w)
         else Fetch_loop rt providerSymbols eligible 0 eligible None fo w)"

section \<open>Readers\<close>

definition ActiveProvider :: "'w FallbackOrchestrator \<Rightarrow> string" where
  "ActiveProvider fo = fo_activeProvider fo"

definition IsDegraded :: "'w FallbackOrchestrator \<Rightarrow> bool" where
  "IsDegraded fo = fo_degraded fo"

definition LastSwitch :: "'w FallbackOrchestrator \<Rightarrow> time" where
  "LastSwitch fo = fo_lastSwitch fo"

definition CircuitStates ::
    "(string \<Rightarrow> time) \<Rightarrow> 'w FallbackOrchestrator \<Rightarrow> (string, string) gomap \<times> 'w FallbackOrchestrator" where
  "CircuitStates now fo =
     (case Manager_States now (fo_cbManager fo) of
        (states, mgr) \<Rightarrow> (states, fo\<lparr>fo_cbManager := mgr\<rparr>))"

record OrchestratorStatus =
  os_ActiveProvider :: string
  os_Degraded :: bool
  os_LastSwitch :: "time option"
  os_CircuitStates :: "(string, string) gomap"
  os_Providers :: "string list"

definition orchestrator_Status ::
    "(string \<Rightarrow> time) \<Rightarrow> 'w FallbackOrchestrator \<Rightarrow> OrchestratorStatus \<times> 'w FallbackOrchestrator" where
  "orchestrator_Status now fo =
     (case CircuitStates now fo of
        (states, fo1) \<Rightarrow>
          (\<lparr>os_ActiveProvider = fo_activeProvider fo, os_Degraded = fo_degraded fo,
            os_LastSwitch = (if \<not> time_IsZero (fo_lastSwitch fo) then Some (fo_lastSwitch fo) else None),
            os_CircuitStates = states,
            os_Providers = Selector_Names (fo_selector fo)\<rparr>, fo1))"

section \<open>Invariant\<close>

text \<open>Every breaker of the manager is sound and carries the manager's configuration and its own name.\<close>

definition breaker_ok :: "CircuitBreakerConfig \<Rightarrow> string \<Rightarrow> CircuitBreaker \<Rightarrow> bool" where
  "breaker_ok cfg name cb \<longleftrightarrow> cb_inv cb \<and> cb_config cb = cfg\<lparr>cbc_Name := name\<rparr>"

definition mgr_inv :: "Manager \<Rightarrow> bool" where
  "mgr_inv m \<longleftrightarrow>
     gm_wf (mgr_breakers m) \<and> cbc_wf (mgr_config m) \<and>
     (\<forall>(name, cb) \<in> set (mgr_breakers m). breaker_ok (mgr_config m) name cb)"

text \<open>
  The flag says whether the active provider is another than the primary, and the gauge shows 1
  for the active provider and 0 for every other one with a name.
\<close>

definition active_ok :: "'w Selector \<Rightarrow> string \<Rightarrow> bool \<Rightarrow> metrics \<Rightarrow> bool" where
  "active_ok sel active degraded m \<longleftrightarrow>
     (case Primary sel of
        Inl _ \<Rightarrow> active = '''' \<and> \<not> degraded
      | Inr primary \<Rightarrow> degraded = (active \<noteq> pv_Name primary) \<and> m (''provider_active'', [active]) = 1) \<and>
     (\<forall>q. q \<noteq> active \<and> q \<noteq> '''' \<longrightarrow> m (''provider_active'', [q]) = 0)"

definition fo_inv :: "'w FallbackOrchestrator \<Rightarrow> bool" where
  "fo_inv fo \<longleftrightarrow>
     mgr_inv (fo_cbManager fo) \<and>
     active_ok (fo_selector fo) (fo_activeProvider fo) (fo_degraded fo) (fo_metrics fo)"

datatype fo_op = FoFetch "string list" | FoStatus "string \<Rightarrow> time"

fun fo_step :: "'w runtime \<Rightarrow> fo_op \<Rightarrow> 'w FallbackOrchestrator \<times> 'w \<Rightarrow> 'w FallbackOrchestrator \<times> 'w" where
  "fo_step rt (FoFetch symbols) (fo, w) = snd (orchestrator_FetchMarketData rt symbols fo w)"
| "fo_step rt (FoStatus now) (fo, w) = (snd (orchestrator_Status now fo), w)"

text \<open>What every part of the loop body leaves alone.\<close>

definition same_providers :: "'w FallbackOrchestrator \<Rightarrow> 'w FallbackOrchestrator \<Rightarrow> bool" where
  "same_providers fo fo' \<longleftrightarrow>
     fo_selector fo' = fo_selector fo \<and> fo_activeProvider fo' = fo_activeProvider fo \<and>
     fo_degraded fo' = fo_degraded fo \<and>
     (\<forall>l. fo_metrics fo' (''provider_active'', l) = fo_metrics fo (''provider_active'', l))"

text \<open>The exits of the loop body once the breaker's state is known.\<close>

definition body_exit ::
    "'w runtime \<Rightarrow> string list \<Rightarrow> 'w Provider list \<Rightarrow> nat \<Rightarrow> 'w Provider \<Rightarrow> 'w FallbackOrchestrator
       \<Rightarrow> CircuitState \<Rightarrow> CircuitBreaker \<Rightarrow> 'w FallbackOrchestrator \<Rightarrow> 'w
       \<Rightarrow> verdict \<Rightarrow> 'w FallbackOrchestrator \<Rightarrow> 'w \<Rightarrow> bool" where
  "body_exit rt syms eligible i prov fo st cb fo1 w1 v fo' w' \<longleftrightarrow>
     st = StateOpen \<and> v = Skipped \<and> fo' = fo1 \<and> w' = w1 \<or>
     st \<noteq> StateOpen \<and>
     (\<exists>wait rem w2. tracker_ShouldWait rt (pv_Name prov) (fo_rateTracker fo) w1 = ((wait, rem), w2) \<and>
       (wait \<and> v = Skipped \<and> fo' = fo1 \<and> w' = w2 \<or>
        \<not> wait \<and>
        (\<exists>data err m w3.
           attemptFetch rt prov syms (fo_retryConfig fo) (fo_metrics fo) w2 = ((data, err), m, w3) \<and>
           (case err of
              Some e \<Rightarrow> v = FailedWith e \<and>
                 fetch_failed rt eligible i (pv_Name prov) cb e (fo1\<lparr>fo_metrics := m\<rparr>) w3 = (fo', w')
            | None \<Rightarrow> v = Fetched data \<and>
                 setActiveProvider rt (pv_Name prov)
                   (write_breaker (pv_Name prov) (breaker_RecordSuccess cb) (fo1\<lparr>fo_metrics := m\<rparr>)) w3
                   = (fo', w')))))"

text \<open>A provider the orchestrator may call: its circuit is not open and no back-off is pending.\<close>

definition available :: "string \<Rightarrow> 'w FallbackOrchestrator \<Rightarrow> bool" where
  "available name fo \<longleftrightarrow>
     (case gm_get (mgr_breakers (fo_cbManager fo)) name of
        None \<Rightarrow> True | Some cb \<Rightarrow> cb_state cb \<noteq> StateOpen) \<and>
     (case gm_get (rlt_providers (fo_rateTracker fo)) name of
        None \<Rightarrow> True | Some rl \<Rightarrow> retryAfter rl \<le> 0)"

text \<open>
  A provider the orchestrator may not call, at whatever time the clock shows during the call: its
  circuit is open and stays so, or its back-off has not passed.
\<close>

definition blocked :: "'w runtime \<Rightarrow> string \<Rightarrow> 'w FallbackOrchestrator \<Rightarrow> bool" where
  "blocked rt name fo \<longleftrightarrow>
     (case gm_get (mgr_breakers (fo_cbManager fo)) name of
        None \<Rightarrow> False
      | Some cb \<Rightarrow>
          cb_state cb = StateOpen \<and>
          (\<forall>w. time_Sub (fst (rt_Now rt w)) (cb_openedAt cb) < OpenDuration (cb_config cb))) \<or>
     (case gm_get (rlt_providers (fo_rateTracker fo)) name of
        None \<Rightarrow> False
      | Some rl \<Rightarrow>
          0 < retryAfter rl \<and>
          (\<forall>w. time_Sub (fst (rt_Now rt w)) (lastRateLimit rl) < retryAfter rl))"

text \<open>
  Closed examples: an orchestrator over both adapters, where CoinGecko's network fails and CoinCap
  answers, and one over CoinCap alone with an open circuit.
\<close>

definition demo_cap :: "int Provider" where
  "demo_cap =
     coincap_Provider (demo_env (demo_answer ''null''))
       (NewCoinCapProvider ''http://cap'' 5)"

definition demo_gecko :: "int Provider" where
  "demo_gecko =
     coingecko_Provider (demo_env (Inl (ErrorString ''connection reset'')))
       (NewCoinGeckoProvider ''http://gecko'' 5)"

definition demo_orchestrator :: "int FallbackOrchestrator" where
  "demo_orchestrator =
     NewFallbackOrchestrator (NewSelector [demo_gecko, demo_cap] [])
       (NewManager (DefaultCircuitBreakerConfig ''default'')) NewRateLimitTracker DefaultRetryConfig"

definition demo_blocked :: "int FallbackOrchestrator" where
  "demo_blocked =
     NewFallbackOrchestrator (NewSelector [demo_cap] [])
       \<lparr>mgr_breakers = [(''coincap'', open_breaker_example)],
        mgr_config = DefaultCircuitBreakerConfig ''default''\<rparr>
       NewRateLimitTracker DefaultRetryConfig"

section \<open>Interface: what the clock, the waits and the random source leave alone\<close>

locale world_frame =
  fixes rt :: "'w runtime"
    and obs :: "'w \<Rightarrow> 'c"
  assumes now_keeps: "obs (snd (rt_Now rt w)) = obs w"
    and wait_keeps: "obs (snd (rt_Wait rt d w)) = obs w"
    and rand_keeps: "obs (snd (rt_Float64 rt w)) = obs w"
begin

lemma delay_keeps: "obs (snd (calculateDelay rt a b c w)) = obs w"
  using rand_keeps [of w] by (simp add: calculateDelay_def Let_def split_beta)

lemma retry_keeps:
  assumes "\<And>w. obs (snd (fn w)) = obs w"
  shows "obs (snd (snd (RetryWithResult_loop rt cfg fn attempt r e m w))) = obs w"
proof (induction "nat (MaxAttempts cfg - attempt)" arbitrary: attempt r e w)
  case 0
  then show ?case by (simp add: RetryWithResult_loop.simps)
next
  case (Suc k)
  have k: "k = nat (MaxAttempts cfg - (attempt + 1))" using Suc.hyps(2) by linarith
  obtain res err w1 where fn: "fn w = ((res, err), w1)" by (metis surj_pair)
  obtain d w2 where d: "calculateDelay rt attempt (BaseDelay cfg) (MaxDelay cfg) w1 = (d, w2)"
    by (metis surj_pair)
  obtain x w3 where x: "rt_Wait rt d w2 = (x, w3)" by (metis surj_pair)
  have keep: "obs w1 = obs w" "obs w2 = obs w" "obs w3 = obs w"
    using assms [of w] fn delay_keeps [of attempt "BaseDelay cfg" "MaxDelay cfg" w1] d
      wait_keeps [of d w2] x by simp_all
  show ?case
    using Suc.hyps(1) [OF k] keep
    by (subst RetryWithResult_loop.simps) (auto simp: fn d x split: option.splits)
qed

lemma fetch_keeps:
  "obs (snd (pv_Fetch prov syms w)) = obs w \<Longrightarrow> obs (snd (fetch_once prov syms w)) = obs w"
  by (auto simp: fetch_once_def split: prod.splits option.splits)

lemma attempt_keeps:
  assumes "\<And>w. obs (snd (pv_Fetch prov syms w)) = obs w"
  shows "obs (snd (snd (attemptFetch rt prov syms cfg m w))) = obs w"
  using retry_keeps [of "fetch_once prov syms", OF fetch_keeps [OF assms]]
  by (auto simp: attemptFetch_def RetryWithResult_def Let_def split: prod.splits option.splits)
    (metis snd_conv)+

lemma failed_keeps: "obs (snd (fetch_failed rt eligible i name cb err fo w)) = obs w"
  using now_keeps
  by (auto simp: fetch_failed_def breaker_RecordFailure_def tracker_RecordRateLimit_def Let_def
      split_beta)

lemma setActive_keeps: "obs (snd (setActiveProvider rt name fo w)) = obs w"
  using now_keeps by (auto simp: setActiveProvider_def Let_def split_beta)

lemma state_keeps: "obs (snd (snd (breaker_State rt cb w))) = obs w"
  using now_keeps by (auto simp: breaker_State_def split_beta)

lemma shouldWait_keeps: "obs (snd (tracker_ShouldWait rt name t w)) = obs w"
  using now_keeps by (auto simp: tracker_ShouldWait_def split_beta split: option.splits)

end

interpretation beside: world_frame "count_rt rt" snd for rt
  by unfold_locales (auto simp: count_rt_def split: prod.splits)

section \<open>Lemmas\<close>

lemma Manager_write_inv:
  assumes "mgr_inv m" and "breaker_ok (mgr_config m) name cb"
  shows "mgr_inv (Manager_write name cb m)"
proof -
  have "\<forall>x \<in> insert (name, cb) (set (mgr_breakers m)). case x of (n, c) \<Rightarrow> breaker_ok (mgr_config m) n c"
    using assms by (auto simp: mgr_inv_def)
  with assms(1) gm_set_put_subset [of name cb "mgr_breakers m"] show ?thesis
    by (simp add: mgr_inv_def Manager_write_def) blast
qed

lemma Manager_Get_inv:
  assumes "mgr_inv m" and "Manager_Get name m = (cb, m')"
  shows "mgr_inv m' \<and> breaker_ok (mgr_config m') name cb"
proof (cases "gm_get (mgr_breakers m) name")
  case None
  have new: "breaker_ok (mgr_config m) name (NewCircuitBreaker ((mgr_config m)\<lparr>cbc_Name := name\<rparr>))"
    using assms(1) NewCircuitBreaker_inv [of "(mgr_config m)\<lparr>cbc_Name := name\<rparr>"]
    by (simp add: breaker_ok_def mgr_inv_def cbc_wf_def) (simp add: NewCircuitBreaker_def)
  moreover have "m' = Manager_write name cb m"
    and "cb = NewCircuitBreaker ((mgr_config m)\<lparr>cbc_Name := name\<rparr>)"
    using assms(2) None by (auto simp: Manager_Get_def Manager_write_def Let_def)
  ultimately show ?thesis using Manager_write_inv [OF assms(1)] by (simp add: Manager_write_def)
next
  case (Some c)
  then show ?thesis
    using assms by (auto simp: Manager_Get_def mgr_inv_def dest!: gm_get_in_set)
qed

lemma breaker_ok_step: "breaker_ok cfg name cb \<Longrightarrow> breaker_ok cfg name (cb_step x cb)"
  by (simp add: breaker_ok_def cb_step_inv)

lemma breaker_State_ok:
  "breaker_ok cfg name cb \<Longrightarrow> breaker_ok cfg name (fst (snd (breaker_State rt cb w)))"
  using breaker_ok_step [of cfg name cb "OpState t" for t]
  by (auto simp: breaker_State_def split_beta)

lemma breaker_RecordFailure_ok:
  "breaker_ok cfg name cb \<Longrightarrow> breaker_ok cfg name (fst (breaker_RecordFailure rt cb w))"
  using breaker_ok_step [of cfg name cb "OpRecordFailure t1 t2" for t1 t2]
  by (auto simp: breaker_RecordFailure_def split_beta)

lemma breaker_RecordSuccess_ok:
  "breaker_ok cfg name cb \<Longrightarrow> breaker_ok cfg name (breaker_RecordSuccess cb)"
  using breaker_ok_step [of cfg name cb "OpRecordSuccess zero_time"]
  by (simp add: breaker_RecordSuccess_def)

lemma Manager_write_config [simp]: "mgr_config (Manager_write name cb m) = mgr_config m"
  by (simp add: Manager_write_def)

lemma Retry_metrics_other:
  assumes "n \<noteq> ''retry_attempts_total''"
  shows "fst (snd (RetryWithResult_loop rt cfg fn attempt r e m w)) (n, l) = m (n, l)"
proof (induction "nat (MaxAttempts cfg - attempt)" arbitrary: attempt r e w)
  case 0
  then show ?case using assms by (simp add: RetryWithResult_loop.simps retry_count_def metric_simps)
next
  case (Suc k)
  have k: "k = nat (MaxAttempts cfg - (attempt + 1))" using Suc.hyps(2) by linarith
  show ?case
    using Suc.hyps(1) [OF k] assms
    by (subst RetryWithResult_loop.simps)
      (auto simp: retry_count_def metric_simps split: option.splits prod.splits)
qed

lemma attemptFetch_metrics:
  "n \<noteq> ''retry_attempts_total'' \<Longrightarrow> fst (snd (attemptFetch rt prov syms cfg m w)) (n, l) = m (n, l)"
  using Retry_metrics_other [of n rt "cfg\<lparr>RetryableFunc := Some (\<lambda>err. IsTransient (Some err) \<and> \<not> IsPermanent (Some err))\<rparr>"
      "fetch_once prov syms" 0 "[]" None m w l]
  by (auto simp: attemptFetch_def RetryWithResult_def Let_def split: prod.splits option.splits)

lemma active_ok_metrics:
  "(\<And>l. m' (''provider_active'', l) = m (''provider_active'', l)) \<Longrightarrow>
     active_ok sel a d m' = active_ok sel a d m"
  unfolding active_ok_def by presburger

lemma setActiveProvider_inv:
  assumes "fo_inv fo" and "Primary (fo_selector fo) = Inr primary"
  shows "fo_inv (fst (setActiveProvider rt name fo w))"
  using assms
  by (auto simp: setActiveProvider_def fo_inv_def active_ok_def metric_simps Let_def split: prod.splits)

lemma same_providers_active:
  "same_providers fo fo' \<Longrightarrow>
     active_ok (fo_selector fo') (fo_activeProvider fo') (fo_degraded fo') (fo_metrics fo')
       = active_ok (fo_selector fo) (fo_activeProvider fo) (fo_degraded fo) (fo_metrics fo)"
  by (simp add: same_providers_def active_ok_def split: sum.split)

lemma fetch_failed_same: "same_providers fo (fst (fetch_failed rt eligible i name cb err fo w))"
  by (simp add: same_providers_def fetch_failed_def write_breaker_def Let_def metric_simps split_beta)

lemma fetch_failed_mgr:
  "fo_cbManager (fst (fetch_failed rt eligible i name cb err fo w))
     = Manager_write name (fst (breaker_RecordFailure rt cb w)) (fo_cbManager fo)"
  by (simp add: fetch_failed_def write_breaker_def Let_def split_beta)

lemma fetch_failed_inv:
  assumes "fo_inv fo" and "breaker_ok (mgr_config (fo_cbManager fo)) name cb"
  shows "fo_inv (fst (fetch_failed rt eligible i name cb err fo w))"
  using assms breaker_RecordFailure_ok [OF assms(2), of rt w]
    same_providers_active [OF fetch_failed_same [of fo rt eligible i name cb err w]]
  by (simp add: fo_inv_def fetch_failed_mgr Manager_write_inv)

lemma fo_inv_write:
  "fo_inv fo \<Longrightarrow> breaker_ok (mgr_config (fo_cbManager fo)) name cb \<Longrightarrow> fo_inv (write_breaker name cb fo)"
  by (simp add: fo_inv_def write_breaker_def Manager_write_inv)

lemma attemptFetch_fo_inv:
  assumes "fo_inv fo" and "attemptFetch rt prov syms cfg (fo_metrics fo) w = (r, m, w')"
  shows "fo_inv (fo\<lparr>fo_metrics := m\<rparr>)"
proof -
  have "m (''provider_active'', l) = fo_metrics fo (''provider_active'', l)" for l
    using attemptFetch_metrics [of "''provider_active''" rt prov syms cfg "fo_metrics fo" w l] assms(2)
    by simp
  with assms(1) show ?thesis by (simp add: fo_inv_def active_ok_def split: sum.splits)
qed

text \<open>The ways through the loop body, one case per exit.\<close>

lemma try_provider_exits:
  assumes "try_provider rt syms eligible i prov fo w = (v, fo', w')"
  obtains cb0 mgr st cb w1 fo1 where
    "Manager_Get (pv_Name prov) (fo_cbManager fo) = (cb0, mgr)"
    "breaker_State rt cb0 w = (st, cb, w1)"
    "fo1 = write_breaker (pv_Name prov) cb (fo\<lparr>fo_cbManager := mgr\<rparr>)"
    "body_exit rt syms eligible i prov fo st cb fo1 w1 v fo' w'"
proof -
  obtain cb0 mgr where 1: "Manager_Get (pv_Name prov) (fo_cbManager fo) = (cb0, mgr)"
    by (cases "Manager_Get (pv_Name prov) (fo_cbManager fo)")
  obtain st cb w1 where 2: "breaker_State rt cb0 w = (st, cb, w1)" by (metis surj_pair)
  obtain wait rem w2
    where 3: "tracker_ShouldWait rt (pv_Name prov) (fo_rateTracker fo) w1 = ((wait, rem), w2)"
    by (metis surj_pair)
  obtain data err m w3
    where 4: "attemptFetch rt prov syms (fo_retryConfig fo) (fo_metrics fo) w2 = ((data, err), m, w3)"
    by (metis surj_pair)
  show ?thesis
    using assms
    by (intro that [OF 1 2 refl])
      (auto simp: body_exit_def try_provider_def 1 2 3 4 write_breaker_def Let_def
        split: option.splits prod.splits if_splits)
qed

lemma body_exitE:
  assumes "body_exit rt syms eligible i prov fo st cb fo1 w1 v fo' w'"
  obtains (skip) "v = Skipped" "fo' = fo1"
  | (failed) data e m w2 w3 where
      "attemptFetch rt prov syms (fo_retryConfig fo) (fo_metrics fo) w2 = ((data, Some e), m, w3)"
      "v = FailedWith e"
      "fetch_failed rt eligible i (pv_Name prov) cb e (fo1\<lparr>fo_metrics := m\<rparr>) w3 = (fo', w')"
  | (fetched) data m w2 w3 where
      "attemptFetch rt prov syms (fo_retryConfig fo) (fo_metrics fo) w2 = ((data, None), m, w3)"
      "v = Fetched data"
      "setActiveProvider rt (pv_Name prov)
         (write_breaker (pv_Name prov) (breaker_RecordSuccess cb) (fo1\<lparr>fo_metrics := m\<rparr>)) w3 = (fo', w')"
  using assms unfolding body_exit_def
  by (auto split: option.splits)

lemma try_provider_inv:
  assumes "fo_inv fo" and "Primary (fo_selector fo) = Inr primary"
    and "try_provider rt syms eligible i prov fo w = (v, fo', w')"
  shows "fo_inv fo'"
  using assms(3)
proof (rule try_provider_exits)
  fix cb0 mgr st cb w1 fo1
  assume get: "Manager_Get (pv_Name prov) (fo_cbManager fo) = (cb0, mgr)"
    and state: "breaker_State rt cb0 w = (st, cb, w1)"
    and fo1: "fo1 = write_breaker (pv_Name prov) cb (fo\<lparr>fo_cbManager := mgr\<rparr>)"
  have mgr: "mgr_inv mgr" "breaker_ok (mgr_config mgr) (pv_Name prov) cb"
    using Manager_Get_inv [OF _ get] breaker_State_ok [of "mgr_config mgr" "pv_Name prov" cb0 rt w]
      assms(1) state by (auto simp: fo_inv_def)
  then have ok: "fo_inv fo1" "breaker_ok (mgr_config (fo_cbManager fo1)) (pv_Name prov) cb"
    using assms(1) fo_inv_write [of "fo\<lparr>fo_cbManager := mgr\<rparr>" "pv_Name prov" cb]
    by (auto simp: fo1 fo_inv_def) (simp add: write_breaker_def)
  have same: "fo_metrics fo1 = fo_metrics fo" "fo_selector fo1 = fo_selector fo"
    by (simp_all add: fo1 write_breaker_def)
  have failed: "fo_inv (fst (fetch_failed rt eligible i (pv_Name prov) cb e (fo1\<lparr>fo_metrics := m\<rparr>) w3))"
    and succeeded: "fo_inv (fst (setActiveProvider rt (pv_Name prov)
      (write_breaker (pv_Name prov) (breaker_RecordSuccess cb) (fo1\<lparr>fo_metrics := m\<rparr>)) w3))"
    if "attemptFetch rt prov syms cfg (fo_metrics fo) w2 = (r, m, w3)" for cfg w2 r m w3 e
  proof -
    have *: "fo_inv (fo1\<lparr>fo_metrics := m\<rparr>)"
      using attemptFetch_fo_inv [OF ok(1)] that same by simp
    then show "fo_inv (fst (fetch_failed rt eligible i (pv_Name prov) cb e (fo1\<lparr>fo_metrics := m\<rparr>) w3))"
      using ok(2) by (intro fetch_failed_inv) simp_all
    show "fo_inv (fst (setActiveProvider rt (pv_Name prov)
      (write_breaker (pv_Name prov) (breaker_RecordSuccess cb) (fo1\<lparr>fo_metrics := m\<rparr>)) w3))"
      using * ok(2) assms(2) same
      by (intro setActiveProvider_inv [where primary = primary] fo_inv_write breaker_RecordSuccess_ok)
        (simp_all add: write_breaker_def)
  qed
  assume "body_exit rt syms eligible i prov fo st cb fo1 w1 v fo' w'"
  then show "fo_inv fo'"
    by (rule body_exitE) (use ok(1) in simp, metis failed fst_conv, metis succeeded fst_conv)
qed

lemma attemptFetch_sound:
  assumes "attemptFetch rt prov syms cfg m w = ((data, None), m', w')" and "1 \<le> MaxAttempts cfg"
  shows "\<exists>w0 w1. pv_Fetch prov syms w0 = ((data, None), w1)"
proof -
  let ?cfg = "cfg\<lparr>RetryableFunc := Some (\<lambda>err. IsTransient (Some err) \<and> \<not> IsPermanent (Some err))\<rparr>"
  have "RetryWithResult_loop rt ?cfg (fetch_once prov syms) 0 [] None m w = ((data, None), m', w')"
    using assms(1) by (auto simp: attemptFetch_def RetryWithResult_def Let_def split: prod.splits option.splits)
  from RetryWithResult_loop_sound [OF this] assms(2)
  obtain w0 where "fst (fetch_once prov syms w0) = (data, None)" by auto
  then show ?thesis
    by (cases "pv_Fetch prov syms w0") (auto simp: fetch_once_def split: prod.splits option.splits)
qed

lemma setActiveProvider_frame:
  assumes "setActiveProvider rt name fo w = (fo', w')"
  shows "fo_activeProvider fo' = name \<and> fo_selector fo' = fo_selector fo \<and>
    fo_retryConfig fo' = fo_retryConfig fo \<and> fo_cbManager fo' = fo_cbManager fo \<and>
    fo_rateTracker fo' = fo_rateTracker fo"
  using assms by (auto simp: setActiveProvider_def Let_def split: if_splits prod.splits)

lemma fetch_failed_frame:
  assumes "fetch_failed rt eligible i name cb err fo w = (fo', w')"
  shows "fo_selector fo' = fo_selector fo \<and> fo_retryConfig fo' = fo_retryConfig fo"
  using assms by (auto simp: fetch_failed_def write_breaker_def Let_def split_beta)

lemma try_provider_frame:
  assumes "try_provider rt syms eligible i prov fo w = (v, fo', w')"
  shows "fo_selector fo' = fo_selector fo \<and> fo_retryConfig fo' = fo_retryConfig fo"
  using assms
proof (rule try_provider_exits)
  fix cb0 mgr st cb w1 fo1
  assume fo1: "fo1 = write_breaker (pv_Name prov) cb (fo\<lparr>fo_cbManager := mgr\<rparr>)"
    and exit: "body_exit rt syms eligible i prov fo st cb fo1 w1 v fo' w'"
  then show ?thesis
    by (auto simp: write_breaker_def elim!: body_exitE
        dest!: setActiveProvider_frame fetch_failed_frame)
qed

lemma try_provider_fetched:
  assumes "try_provider rt syms eligible i prov fo w = (Fetched data, fo', w')"
    and "1 \<le> MaxAttempts (fo_retryConfig fo)"
  shows "fo_activeProvider fo' = pv_Name prov \<and> (\<exists>w0 w1. pv_Fetch prov syms w0 = ((data, None), w1))"
  using assms(1)
proof (rule try_provider_exits)
  fix cb0 mgr st cb w1 fo1
  assume "body_exit rt syms eligible i prov fo st cb fo1 w1 (Fetched data) fo' w'"
  then show ?thesis
    by (rule body_exitE)
      (use assms(2) in \<open>auto dest!: setActiveProvider_frame attemptFetch_sound\<close>)
qed

lemma Fetch_loop_inv:
  assumes "fo_inv fo" and "Primary (fo_selector fo) = Inr primary"
    and "Fetch_loop rt syms eligible i provs lastErr fo w = (out, fo', w')"
  shows "fo_inv fo'"
  using assms
proof (induction provs arbitrary: i lastErr fo w)
  case (Cons prov provs)
  obtain v fo1 w1 where body: "try_provider rt syms eligible i prov fo w = (v, fo1, w1)"
    by (metis surj_pair)
  have "fo_inv fo1" "Primary (fo_selector fo1) = Inr primary"
    using try_provider_inv [OF Cons.prems(1,2) body] try_provider_frame [OF body] Cons.prems(2)
    by simp_all
  with Cons.IH Cons.prems(3) show ?case by (auto simp: body split: verdict.splits)
qed (auto split: option.splits)

lemma Fetch_loop_success:
  assumes "Fetch_loop rt syms eligible i provs lastErr fo w = ((data, None), fo', w')"
    and "1 \<le> MaxAttempts (fo_retryConfig fo)"
  shows "\<exists>p \<in> set provs. fo_activeProvider fo' = pv_Name p \<and>
           (\<exists>w0 w1. pv_Fetch p syms w0 = ((data, None), w1))"
  using assms
proof (induction provs arbitrary: i lastErr fo w)
  case (Cons prov provs)
  obtain v fo1 w1 where body: "try_provider rt syms eligible i prov fo w = (v, fo1, w1)"
    by (metis surj_pair)
  show ?case
    using Cons.prems Cons.IH [of _ _ fo1 w1] try_provider_frame [OF body]
      try_provider_fetched [of rt syms eligible i prov fo w]
    by (cases v) (auto simp: body)
qed (auto split: option.splits)

lemma Manager_States_loop_map:
  "snd (Manager_States_loop now bs) = map (\<lambda>(n, cb). (n, snd (State (now n) cb))) bs"
  by (induction bs) (auto simp: split_beta)

lemma Manager_States_inv: "mgr_inv m \<Longrightarrow> mgr_inv (snd (Manager_States now m))"
  using breaker_ok_step [of "mgr_config m" _ _ "OpState t" for t]
  by (auto simp: Manager_States_def mgr_inv_def Manager_States_loop_map gm_wf_def split_beta comp_def)

lemma Status_inv: "fo_inv fo \<Longrightarrow> fo_inv (snd (orchestrator_Status now fo))"
  using Manager_States_inv [of "fo_cbManager fo" now]
  by (simp add: orchestrator_Status_def CircuitStates_def fo_inv_def split_beta)

lemma FetchMarketData_inv:
  assumes "fo_inv fo"
  shows "fo_inv (fst (snd (orchestrator_FetchMarketData rt syms fo w)))"
proof (cases "Eligible (fo_selector fo)")
  case Nil
  with assms show ?thesis by (simp add: orchestrator_FetchMarketData_def)
next
  case (Cons p ps)
  then have "Primary (fo_selector fo) = Inr p" by (simp add: Primary_def)
  moreover obtain out fo' w' where
    "Fetch_loop rt syms (p # ps) 0 (p # ps) None fo w = (out, fo', w')" by (metis surj_pair)
  ultimately show ?thesis
    using Fetch_loop_inv [OF assms] Cons by (simp add: orchestrator_FetchMarketData_def del: Fetch_loop.simps)
qed

lemma NewFallbackOrchestrator_inv:
  "cbc_wf cfg \<Longrightarrow> fo_inv (NewFallbackOrchestrator sel (NewManager cfg) t rc)"
  by (auto simp: NewFallbackOrchestrator_def NewManager_def fo_inv_def mgr_inv_def active_ok_def
      metric_simps m_empty_def Let_def split: sum.splits)

interpretation fom: machine "fo_step rt"
    "\<lambda>(fo, w). \<exists>sel cfg t rc. fo = NewFallbackOrchestrator sel (NewManager cfg) t rc \<and> cbc_wf cfg"
    "\<lambda>(fo, w). fo_inv fo" for rt
proof unfold_locales
  fix x and s :: "'a FallbackOrchestrator \<times> 'a"
  assume "case s of (fo, w) \<Rightarrow> fo_inv fo"
  then show "case fo_step rt x s of (fo, w) \<Rightarrow> fo_inv fo"
    using FetchMarketData_inv Status_inv
    by (cases s; cases x) (auto simp: split_beta)
qed (auto simp: NewFallbackOrchestrator_inv)

lemma try_provider_other:
  assumes "try_provider rt syms eligible i prov fo w = (v, fo', w')" and "n \<noteq> pv_Name prov"
  shows "gm_get (mgr_breakers (fo_cbManager fo')) n = gm_get (mgr_breakers (fo_cbManager fo)) n \<and>
    gm_get (rlt_providers (fo_rateTracker fo')) n = gm_get (rlt_providers (fo_rateTracker fo)) n"
  using assms(1)
proof (rule try_provider_exits)
  fix cb0 mgr st cb w1 fo1
  assume get: "Manager_Get (pv_Name prov) (fo_cbManager fo) = (cb0, mgr)"
    and fo1: "fo1 = write_breaker (pv_Name prov) cb (fo\<lparr>fo_cbManager := mgr\<rparr>)"
    and exit: "body_exit rt syms eligible i prov fo st cb fo1 w1 v fo' w'"
  have mgr: "gm_get (mgr_breakers mgr) n = gm_get (mgr_breakers (fo_cbManager fo)) n"
    using get assms(2) by (auto simp: Manager_Get_def Let_def gm_simps split: option.splits)
  from exit show ?thesis
  proof (rule body_exitE)
    fix data e m w2 w3
    assume "fetch_failed rt eligible i (pv_Name prov) cb e (fo1\<lparr>fo_metrics := m\<rparr>) w3 = (fo', w')"
    with fo1 mgr assms(2) show ?thesis
      by (auto simp: fetch_failed_def write_breaker_def Manager_write_def tracker_RecordRateLimit_def
          RecordRateLimit_def Let_def split_beta gm_simps)
  qed (use fo1 mgr assms(2) in \<open>auto simp: write_breaker_def Manager_write_def gm_simps
         dest!: setActiveProvider_frame\<close>)
qed

lemma attemptFetch_healthy:
  assumes "snd (fst (pv_Fetch prov syms w)) = None" and "rt_CtxErr rt w = None"
    and "1 \<le> MaxAttempts cfg"
  shows "\<exists>data m' w'. attemptFetch rt prov syms cfg m w = ((data, None), m', w')"
proof -
  obtain data w1 where "pv_Fetch prov syms w = ((data, None), w1)"
    using assms(1) by (metis prod.collapse)
  with assms(2,3) show ?thesis
    by (simp add: attemptFetch_def RetryWithResult_def RetryWithResult_loop.simps fetch_once_def)
qed

lemma try_provider_healthy:
  assumes "available (pv_Name prov) fo" and "\<And>w. snd (fst (pv_Fetch prov syms w)) = None"
    and "\<And>w. rt_CtxErr rt w = None" and "1 \<le> MaxAttempts (fo_retryConfig fo)"
  shows "\<exists>data fo' w'. try_provider rt syms eligible i prov fo w = (Fetched data, fo', w')"
proof -
  obtain cb mgr where get: "Manager_Get (pv_Name prov) (fo_cbManager fo) = (cb, mgr)"
    by (metis surj_pair)
  with assms(1) have "cb_state cb \<noteq> StateOpen"
    by (auto simp: available_def Manager_Get_def Let_def NewCircuitBreaker_def split: option.splits)
  moreover have "tracker_ShouldWait rt (pv_Name prov) (fo_rateTracker fo) w = ((False, 0), w)"
    using assms(1) by (auto simp: available_def tracker_ShouldWait_def split: option.splits)
  moreover obtain data m' w' where
    "attemptFetch rt prov syms (fo_retryConfig fo) (fo_metrics fo) w = ((data, None), m', w')"
    using attemptFetch_healthy [OF assms(2,3,4)] by blast
  ultimately show ?thesis
    by (auto simp: try_provider_def get breaker_State_def write_breaker_def Let_def split: prod.splits)
qed

lemma Fetch_loop_reaches:
  assumes "prov \<in> set provs" and "\<And>q. q \<in> set provs \<Longrightarrow> pv_Name q = pv_Name prov \<Longrightarrow> q = prov"
    and "available (pv_Name prov) fo" and "\<And>w. snd (fst (pv_Fetch prov syms w)) = None"
    and "\<And>w. rt_CtxErr rt w = None" and "1 \<le> MaxAttempts (fo_retryConfig fo)"
  shows "snd (fst (Fetch_loop rt syms eligible i provs lastErr fo w)) = None"
  using assms(1,2,3,6)
proof (induction provs arbitrary: i lastErr fo w)
  case (Cons q provs)
  show ?case
  proof (cases "q = prov")
    case True
    then show ?thesis
      using try_provider_healthy [OF Cons.prems(3) assms(4,5) Cons.prems(4), of eligible i w] by auto
  next
    case False
    then have other: "pv_Name prov \<noteq> pv_Name q" using Cons.prems(2) by fastforce
    obtain v fo1 w1 where body: "try_provider rt syms eligible i q fo w = (v, fo1, w1)"
      by (metis surj_pair)
    have "available (pv_Name prov) fo1" "1 \<le> MaxAttempts (fo_retryConfig fo1)"
      using try_provider_other [OF body other] try_provider_frame [OF body] Cons.prems(3,4)
      by (simp_all add: available_def)
    then show ?thesis
      using Cons.IH Cons.prems(1,2) False by (cases v) (auto simp: body)
  qed
qed simp

lemma blocked_other:
  assumes "try_provider rt syms eligible i prov fo w = (v, fo', w')" and "n \<noteq> pv_Name prov"
  shows "blocked rt n fo' = blocked rt n fo"
  using try_provider_other [OF assms] by (simp add: blocked_def)

lemma blocked_skipped:
  assumes "blocked rt (pv_Name prov) fo" and "try_provider rt syms eligible i prov fo w = (v, fo', w')"
  shows "v = Skipped \<and> blocked rt (pv_Name prov) fo'"
  using assms(2)
proof (rule try_provider_exits)
  fix cb0 mgr st cb w1 fo1
  assume *: "Manager_Get (pv_Name prov) (fo_cbManager fo) = (cb0, mgr)"
    "breaker_State rt cb0 w = (st, cb, w1)"
    "fo1 = write_breaker (pv_Name prov) cb (fo\<lparr>fo_cbManager := mgr\<rparr>)"
    "body_exit rt syms eligible i prov fo st cb fo1 w1 v fo' w'"
  from assms(1) consider
      (breaker) b where "gm_get (mgr_breakers (fo_cbManager fo)) (pv_Name prov) = Some b"
        "cb_state b = StateOpen"
        "\<And>w. time_Sub (fst (rt_Now rt w)) (cb_openedAt b) < OpenDuration (cb_config b)"
    | (limit) rl where "gm_get (rlt_providers (fo_rateTracker fo)) (pv_Name prov) = Some rl"
        "0 < retryAfter rl" "\<And>w. time_Sub (fst (rt_Now rt w)) (lastRateLimit rl) < retryAfter rl"
    by (auto simp: blocked_def split: option.splits)
  then show ?thesis
  proof cases
    case breaker
    then have "cb0 = b" "mgr = fo_cbManager fo" using *(1) by (auto simp: Manager_Get_def)
    with breaker(1,2) breaker(3) [of w] have "st = StateOpen" "cb = b"
      using *(2) by (auto simp: breaker_State_def State_def currentState_def split_beta Let_def)
    with breaker \<open>mgr = fo_cbManager fo\<close> *(3,4) show ?thesis
      by (auto simp: body_exit_def blocked_def write_breaker_def Manager_write_def gm_simps)
  next
    case limit
    have "fst (fst (tracker_ShouldWait rt (pv_Name prov) (fo_rateTracker fo) w1))"
      using limit by (simp add: tracker_ShouldWait_def ShouldWait_def Let_def not_le split_beta)
    then have "v = Skipped" "fo' = fo1"
      using *(4) by (auto simp: body_exit_def)
    then show ?thesis using limit *(3) by (simp add: blocked_def write_breaker_def)
  qed
qed

context world_frame
begin

lemma try_keeps:
  assumes "blocked rt (pv_Name prov) fo \<or> (\<forall>w. obs (snd (pv_Fetch prov syms w)) = obs w)"
    and "try_provider rt syms eligible i prov fo w = (v, fo', w')"
  shows "obs w' = obs w"
  using assms(2)
proof (rule try_provider_exits)
  fix cb0 mgr st cb w1 fo1
  assume state: "breaker_State rt cb0 w = (st, cb, w1)"
    and exit: "body_exit rt syms eligible i prov fo st cb fo1 w1 v fo' w'"
  have w1: "obs w1 = obs w" using state_keeps [of cb0 w] state by simp
  obtain wait rem w2
    where wait: "tracker_ShouldWait rt (pv_Name prov) (fo_rateTracker fo) w1 = ((wait, rem), w2)"
    by (metis surj_pair)
  have w2: "obs w2 = obs w" using shouldWait_keeps [of "pv_Name prov" "fo_rateTracker fo" w1] wait w1 by simp
  obtain data err m w3
    where att: "attemptFetch rt prov syms (fo_retryConfig fo) (fo_metrics fo) w2 = ((data, err), m, w3)"
    by (metis surj_pair)
  have skipped: "v = Skipped" if "blocked rt (pv_Name prov) fo"
    using blocked_skipped [OF that assms(2)] by simp
  have w3: "obs w3 = obs w" if "\<not> blocked rt (pv_Name prov) fo"
    using attempt_keeps [of prov syms "fo_retryConfig fo" "fo_metrics fo" w2] that assms(1) att w2 by auto
  show ?thesis
    using exit skipped w1 w2 w3 failed_keeps setActive_keeps
    by (auto simp: body_exit_def wait att split: option.splits) (metis snd_conv)+
qed

lemma loop_keeps:
  assumes "blocked rt n fo" and "\<And>p w. p \<in> set provs \<Longrightarrow> pv_Name p \<noteq> n \<Longrightarrow> obs (snd (pv_Fetch p syms w)) = obs w"
    and "Fetch_loop rt syms eligible i provs lastErr fo w = (out, fo', w')"
  shows "obs w' = obs w"
  using assms
proof (induction provs arbitrary: i lastErr fo w)
  case (Cons q provs)
  obtain v fo1 w1 where body: "try_provider rt syms eligible i q fo w = (v, fo1, w1)"
    by (metis surj_pair)
  have keep: "obs w1 = obs w"
    using try_keeps [OF _ body] Cons.prems(1,2) by (cases "pv_Name q = n") auto
  have "blocked rt n fo1"
    using blocked_other [OF body] blocked_skipped [OF _ body] Cons.prems(1)
    by (cases "n = pv_Name q") auto
  with Cons.IH Cons.prems(2,3) keep show ?case by (cases v) (auto simp: body)
qed (auto split: option.splits)

lemma loop_keeps_all:
  assumes "\<And>p w. p \<in> set provs \<Longrightarrow> obs (snd (pv_Fetch p syms w)) = obs w"
    and "Fetch_loop rt syms eligible i provs lastErr fo w = (out, fo', w')"
  shows "obs w' = obs w"
  using assms
proof (induction provs arbitrary: i lastErr fo w)
  case (Cons q provs)
  obtain v fo1 w1 where body: "try_provider rt syms eligible i q fo w = (v, fo1, w1)"
    by (metis surj_pair)
  have "obs w1 = obs w" using try_keeps [OF _ body] Cons.prems(1) by simp
  with Cons show ?case by (cases v) (auto simp: body)
qed (auto split: option.splits)

lemma fetch_market_data_keeps_all:
  assumes "\<And>p w. p \<in> set (Eligible (fo_selector fo)) \<Longrightarrow> obs (snd (pv_Fetch p syms w)) = obs w"
  shows "obs (snd (snd (orchestrator_FetchMarketData rt syms fo w))) = obs w"
proof -
  obtain out fo' w' where loop:
    "Fetch_loop rt syms (Eligible (fo_selector fo)) 0 (Eligible (fo_selector fo)) None fo w = (out, fo', w')"
    by (metis surj_pair)
  have "obs w' = obs w" by (rule loop_keeps_all [OF assms loop])
  with loop show ?thesis by (simp add: orchestrator_FetchMarketData_def Let_def)
qed

lemma fetch_market_data_keeps:
  assumes "blocked rt n fo"
    and "\<And>p w. p \<in> set (Eligible (fo_selector fo)) \<Longrightarrow> pv_Name p \<noteq> n \<Longrightarrow> obs (snd (pv_Fetch p syms w)) = obs w"
  shows "obs (snd (snd (orchestrator_FetchMarketData rt syms fo w))) = obs w"
proof -
  obtain out fo' w' where loop:
    "Fetch_loop rt syms (Eligible (fo_selector fo)) 0 (Eligible (fo_selector fo)) None fo w = (out, fo', w')"
    by (metis surj_pair)
  have "obs w' = obs w" by (rule loop_keeps [OF assms loop])
  with loop show ?thesis by (simp add: orchestrator_FetchMarketData_def Let_def)
qed

end

lemmas demo_defs = demo_orchestrator_def demo_blocked_def NewFallbackOrchestrator_def Let_def
  NewSelector_def NewManager_def NewRateLimitTracker_def DefaultRetryConfig_def

lemma demo_names: "pv_Name demo_gecko = ''coingecko''" "pv_Name demo_cap = ''coincap''"
  by (simp_all add: demo_gecko_def demo_cap_def coingecko_Provider_def coincap_Provider_def
      providerName_def coincapProviderName_def)

lemma demo_cap_answers: "snd (fst (pv_Fetch demo_cap [''bitcoin''] w)) = None"
  by (simp add: demo_cap_def coincap_Provider_def coincap_FetchMarketData_def demo_env_def demo_answer_def
      demo_runtime_def StatusOK_def StatusTooManyRequests_def Let_def)

lemma demo_selector:
  "Eligible (fo_selector demo_orchestrator) = [demo_gecko, demo_cap]"
  "Eligible (fo_selector demo_blocked) = [demo_cap]"
  by (simp_all add: demo_defs Eligible_def Eligible_loop_filter gm_true_def Primary_def split: sum.split)

lemma demo_state:
  "fo_retryConfig demo_orchestrator = DefaultRetryConfig"
  "available ''coincap'' demo_orchestrator"
  "blocked quiet_runtime ''coincap'' demo_blocked"
  by (simp_all add: demo_defs available_def blocked_def open_breaker_example_def quiet_runtime_def
      DefaultCircuitBreakerConfig_def time_defs gm_get_def Primary_def Eligible_def Eligible_loop_filter
      gm_true_def)

section \<open>Properties\<close>

text \<open>
  C7: From a new orchestrator, any sequence of fetches and status requests, with any providers
  and any world, keeps the invariant: every circuit breaker of the manager satisfies its own
  invariant and has the configured thresholds under its provider's name, the degraded flag
  is set exactly when the active provider is not the primary, and the gauge is 1 for the
  active provider and 0 for all others.
\<close>

theorem fallback_invariant:
  assumes "cbc_wf cfg"
  shows "fo_inv (fst (fold (fo_step rt) ops
           (NewFallbackOrchestrator sel (NewManager cfg) t rc, w)))"
  using fom.reachable_inv [of "(NewFallbackOrchestrator sel (NewManager cfg) t rc, w)" rt ops] assms
  by (auto simp: split_beta)

theorem fallback_invariant_witness:
  "fo_inv (fst (fold (fo_step (demo_runtime 1000)) [FoFetch [''bitcoin''], FoStatus (\<lambda>_. 7)]
     (NewFallbackOrchestrator (NewSelector [] []) (NewManager (DefaultCircuitBreakerConfig ''x''))
        NewRateLimitTracker DefaultRetryConfig, 0)))"
  by (rule fallback_invariant) (simp add: cbc_wf_def DefaultCircuitBreakerConfig_def is_int64_def)

text \<open>
  Data the orchestrator returns without an error was returned by one eligible provider's own
  fetch of these symbols, and that provider is the active one afterwards: the recorded
  provider is the actual source.
\<close>

theorem fallback_data_from_active:
  assumes "orchestrator_FetchMarketData rt syms fo w = ((data, None), fo', w')"
    and "1 \<le> MaxAttempts (fo_retryConfig fo)"
  shows "\<exists>p \<in> set (Eligible (fo_selector fo)).
           ActiveProvider fo' = pv_Name p \<and> (\<exists>w0 w1. pv_Fetch p syms w0 = ((data, None), w1))"
  using assms Fetch_loop_success
  by (force simp: orchestrator_FetchMarketData_def ActiveProvider_def Let_def split: if_splits)

theorem fallback_data_from_active_witness:
  "\<exists>p \<in> {demo_gecko, demo_cap}.
     ActiveProvider (fst (snd (orchestrator_FetchMarketData quiet_runtime [''bitcoin''] demo_orchestrator 0)))
       = pv_Name p"
proof -
  let ?r = "orchestrator_FetchMarketData quiet_runtime [''bitcoin''] demo_orchestrator 0"
  have "snd (fst (Fetch_loop quiet_runtime [''bitcoin''] [demo_gecko, demo_cap] 0 [demo_gecko, demo_cap]
      None demo_orchestrator 0)) = None"
    by (rule Fetch_loop_reaches [where prov = demo_cap])
      (auto simp: demo_names demo_cap_answers demo_state quiet_runtime_def DefaultRetryConfig_def)
  then have "?r = ((fst (fst ?r), None), fst (snd ?r), snd (snd ?r))"
    by (simp add: orchestrator_FetchMarketData_def demo_selector prod_eq_iff Let_def
        del: Fetch_loop.simps)
  from fallback_data_from_active [OF this] show ?thesis
    by (auto simp: demo_selector demo_state DefaultRetryConfig_def)
qed



text \<open>
  C14: A provider whose circuit is open or whose back-off is pending is not called: anything of
  the world that only its fetch can change is unchanged by the orchestrator's call.
\<close>

theorem fallback_spares_blocked:
  assumes "blocked rt n fo"
    and "\<And>p w. p \<in> set (Eligible (fo_selector fo)) \<Longrightarrow> pv_Name p \<noteq> n \<Longrightarrow>
           obs (snd (pv_Fetch p syms w)) = obs w"
    and "\<And>w. obs (snd (rt_Now rt w)) = obs w" and "\<And>d w. obs (snd (rt_Wait rt d w)) = obs w"
    and "\<And>w. obs (snd (rt_Float64 rt w)) = obs w"
  shows "obs (snd (snd (orchestrator_FetchMarketData rt syms fo w))) = obs w"
proof -
  have "world_frame rt obs" using assms(3-5) by unfold_locales
  from world_frame.fetch_market_data_keeps [OF this assms(1,2)] show ?thesis .
qed

theorem fallback_spares_blocked_witness:
  "snd (snd (orchestrator_FetchMarketData quiet_runtime [''bitcoin''] demo_blocked 5)) = 5"
  by (rule fallback_spares_blocked [where n = "''coincap''" and obs = "\<lambda>w. w", OF demo_state(3)])
    (auto simp: demo_selector demo_names quiet_runtime_def)

end
