(* ===== verification/Stream_Event.thy ===== *)
theory Stream_Event
  imports Provider_Selection
begin

text \<open>
  \<open>internal/stream/event.go\<close>: the event schema and its validation.

  JSON and the RFC 3339 layout are gathered in a record \<open>codec\<close> with the other payloads the
  program marshals, so that the components are stated over any codec; \<open>Event_Codec\<close> has the
  one the program runs with and the contract it keeps.
\<close>

record PriceEvent =
  ev_EventID :: string
  ev_EventType :: string
  ev_Symbol :: string
  ev_PriceUSD :: string
  ev_MarketCap :: string
  ev_Volume24h :: string
  ev_Change24h :: string
  ev_Provider :: string
  ev_ObservedAt :: string
  ev_PublishedAt :: string

text \<open>The anonymous struct \<open>parseLegacyEntry\<close> unmarshals into.\<close>

record legacy_data =
  lg_Symbol :: string
  lg_Name :: string
  lg_PriceUSD :: string
  lg_MarketCap :: string
  lg_Volume24h :: string
  lg_Change24h :: string
  lg_Provider :: string
  lg_CapturedAt :: string

text \<open>Values of a Redis stream entry: strings, or anything else the client may deliver.\<close>

datatype redis_value = RString string | ROther

record XMessage =
  xm_ID :: string
  xm_Values :: "(string, redis_value) gomap"

record StreamMessage =
  sm_StreamID :: string
  sm_Event :: PriceEvent

record codec =
  jc_MarshalEvent :: "PriceEvent \<Rightarrow> go_error + string"
  jc_UnmarshalEvent :: "string \<Rightarrow> go_error + PriceEvent"
  jc_UnmarshalLegacy :: "string \<Rightarrow> go_error + legacy_data"
  jc_MarshalValues :: "(string, redis_value) gomap \<Rightarrow> go_error + string"
  jc_MarshalLatest :: "LatestMarketData \<Rightarrow> go_error + string"
  jc_UnmarshalLatest :: "string \<Rightarrow> go_error + LatestMarketData"
  tf_Parse :: "string \<Rightarrow> time option"
  tf_Format :: "time \<Rightarrow> string"

definition EventTypePriceUpdated :: string where
  "EventTypePriceUpdated = ''market.price.updated''"

definition ErrMissingEventID :: go_error where
  "ErrMissingEventID = ErrorString ''event_id is required''"

definition ErrMissingEventType :: go_error where
  "ErrMissingEventType = ErrorString ''event_type is required''"

definition ErrMissingSymbol :: go_error where
  "ErrMissingSymbol = ErrorString ''symbol is required''"

definition ErrMissingPrice :: go_error where
  "ErrMissingPrice = ErrorString ''price_usd is required''"

definition ErrMissingProvider :: go_error where
  "ErrMissingProvider = ErrorString ''provider is required''"

definition ErrInvalidTimestamp :: go_error where
  "ErrInvalidTimestamp = ErrorString ''invalid timestamp format, expected RFC3339 UTC''"

definition ErrUnknownEventType :: go_error where
  "ErrUnknownEventType = ErrorString ''unknown event_type''"

definition PriceEvent_Validate :: "codec \<Rightarrow> PriceEvent \<Rightarrow> go_error option" where
  "PriceEvent_Validate cd e =
     (if ev_EventID e = '''' then Some ErrMissingEventID
      else if ev_EventType e = '''' then Some ErrMissingEventType
      else if ev_EventType e \<noteq> EventTypePriceUpdated
        then Some (Wrapped '''' ErrUnknownEventType ('': '' @ ev_EventType e))
      else if ev_Symbol e = '''' then Some ErrMissingSymbol
      else if ev_PriceUSD e = '''' then Some ErrMissingPrice
      else if ev_Provider e = '''' then Some ErrMissingProvider
      else if ev_ObservedAt e \<noteq> '''' \<and> tf_Parse cd (ev_ObservedAt e) = None
        then Some (Wrapped ''observed_at: '' ErrInvalidTimestamp '''')
      else if ev_PublishedAt e \<noteq> '''' \<and> tf_Parse cd (ev_PublishedAt e) = None
        then Some (Wrapped ''published_at: '' ErrInvalidTimestamp '''')
      else None)"

definition PublishedTime :: "codec \<Rightarrow> PriceEvent \<Rightarrow> time" where
  "PublishedTime cd e =
     (if ev_PublishedAt e = '''' then zero_time
      else case tf_Parse cd (ev_PublishedAt e) of None \<Rightarrow> zero_time | Some t \<Rightarrow> t)"

definition ParseEvent :: "codec \<Rightarrow> string \<Rightarrow> go_error + PriceEvent" where
  "ParseEvent cd payload =
     (case jc_UnmarshalEvent cd payload of
        Inl err \<Rightarrow> Inl (Wrapped ''unmarshal event: '' err '''')
      | Inr event \<Rightarrow> Inr event)"

section \<open>Specification\<close>

definition timestamp_ok :: "codec \<Rightarrow> string \<Rightarrow> bool" where
  "timestamp_ok cd s \<longleftrightarrow> s = '''' \<or> tf_Parse cd s \<noteq> None"

definition valid_event :: "codec \<Rightarrow> PriceEvent \<Rightarrow> bool" where
  "valid_event cd e \<longleftrightarrow>
     ev_EventID e \<noteq> '''' \<and> ev_EventType e = EventTypePriceUpdated \<and> ev_Symbol e \<noteq> '''' \<and>
     ev_PriceUSD e \<noteq> '''' \<and> ev_Provider e \<noteq> '''' \<and>
     timestamp_ok cd (ev_ObservedAt e) \<and> timestamp_ok cd (ev_PublishedAt e)"

text \<open>A codec for closed examples: the payload of an event is its identifier.\<close>

definition demo_event :: "string \<Rightarrow> PriceEvent" where
  "demo_event i =
     \<lparr>ev_EventID = i, ev_EventType = EventTypePriceUpdated, ev_Symbol = ''BTC'', ev_PriceUSD = ''42'',
      ev_MarketCap = '''', ev_Volume24h = '''', ev_Change24h = '''', ev_Provider = ''coincap'',
      ev_ObservedAt = '''', ev_PublishedAt = ''''\<rparr>"

definition demo_codec :: codec where
  "demo_codec =
     \<lparr>jc_MarshalEvent = (\<lambda>e. Inr (ev_EventID e)),
      jc_UnmarshalEvent = (\<lambda>s. if s = ''bad'' then Inl (ErrorString ''syntax'') else Inr (demo_event s)),
      jc_UnmarshalLegacy = (\<lambda>s. Inl (ErrorString ''syntax'')),
      jc_MarshalValues = (\<lambda>_. Inl (ErrorString ''unsupported'')),
      jc_MarshalLatest = (\<lambda>d. Inr (lmd_Symbol d)),
      jc_UnmarshalLatest = (\<lambda>s. Inl (ErrorString ''syntax'')),
      tf_Parse = (\<lambda>s. if s = '''' then None else Some 0),
      tf_Format = (\<lambda>_. ''2024-01-01T00:00:00Z'')\<rparr>"

section \<open>Lemmas\<close>

lemma EventTypePriceUpdated_not_empty [simp]: "EventTypePriceUpdated \<noteq> ''''"
  by (simp add: EventTypePriceUpdated_def)

lemma Validate_None_iff: "PriceEvent_Validate cd e = None \<longleftrightarrow> valid_event cd e"
  by (auto simp: PriceEvent_Validate_def valid_event_def timestamp_ok_def)

end
