(* ===== verification/Stream_Consumer.thy ===== *)
theory Stream_Consumer
  imports Stream_Event Go_Runtime
begin

text \<open>
  \<open>internal/stream/consumer.go\<close>: the Redis Streams consumer of the realtime gateway.

  The Redis client and the event handler are functions on the world (\<open>stream_env\<close>). An
  operation returns the consumer, the world and, for one entry, its outcome: the branch of
  \<open>processEntry\<close> that was taken, which the code writes to the log. The set \<open>seen\<close> is a
  Go map to the empty struct. \<open>Run\<close> is one iteration of the read loop (\<open>Run_step\<close>) and
  the loop itself, which returns nothing as long as it runs. \<open>claimPendingLoop\<close> runs
  \<open>claimPending\<close> at every tick beside it; entries are processed one at a time here.
\<close>

record ConsumerConfig =
  cc_StreamKey :: string
  cc_ConsumerGroup :: string
  cc_ConsumerName :: string
  cc_BatchSize :: int
  cc_BlockTime :: duration
  cc_ClaimInterval :: duration
  cc_ClaimMinIdle :: duration

definition DefaultConsumerConfig :: ConsumerConfig where
  "DefaultConsumerConfig =
     \<lparr>cc_StreamKey = ''market:events'', cc_ConsumerGroup = ''realtime-gateway'',
      cc_ConsumerName = ''realtime-1'', cc_BatchSize = 100, cc_BlockTime = 5 * second,
      cc_ClaimInterval = 30 * second, cc_ClaimMinIdle = 60 * second\<rparr>"

record 'w stream_env =
  se_XGroupCreateMkStream :: "string \<Rightarrow> string \<Rightarrow> string \<Rightarrow> 'w \<Rightarrow> go_error option \<times> 'w"
  se_XReadGroup :: "ConsumerConfig \<Rightarrow> 'w \<Rightarrow> (go_error + XMessage list list) \<times> 'w"
  se_XAutoClaim :: "ConsumerConfig \<Rightarrow> 'w \<Rightarrow> (go_error + XMessage list) \<times> 'w"
  se_XAck :: "string \<Rightarrow> string \<Rightarrow> string \<Rightarrow> 'w \<Rightarrow> go_error option \<times> 'w"
  se_handler :: "StreamMessage \<Rightarrow> 'w \<Rightarrow> go_error option \<times> 'w"
  se_runtime :: "'w runtime"
  se_codec :: codec
  se_quote :: "string \<Rightarrow> string"

text \<open>
  \<open>se_XReadGroup\<close> reads new entries (\<open>>\<close>) for the group and consumer of the
  configuration, \<open>BatchSize\<close> at most, waiting up to \<open>BlockTime\<close>; \<open>se_XAutoClaim\<close>
  claims entries idle for \<open>ClaimMinIdle\<close> from \<open>0-0\<close> on.
\<close>

record Consumer =
  co_cfg :: ConsumerConfig
  co_seen :: "(string, unit) gomap"
  co_running :: bool
  co_metrics :: metrics

definition NewConsumer :: "ConsumerConfig \<Rightarrow> Consumer" where
  "NewConsumer cfg = \<lparr>co_cfg = cfg, co_seen = [], co_running = False, co_metrics = m_empty\<rparr>"

definition EnsureGroup :: "'w stream_env \<Rightarrow> Consumer \<Rightarrow> 'w \<Rightarrow> go_error option \<times> 'w" where
  "EnsureGroup env c w =
     (case se_XGroupCreateMkStream env (cc_StreamKey (co_cfg c)) (cc_ConsumerGroup (co_cfg c)) ''0'' w of
        (Some err, w1) \<Rightarrow>
          if error_text (se_quote env) err \<noteq> ''BUSYGROUP Consumer Group name already exists''
          then (Some (Wrapped ''create consumer group: '' err ''''), w1)
          else (None, w1)
      | (None, w1) \<Rightarrow> (None, w1))"

section \<open>Parsing entries\<close>

definition string_field :: "string \<Rightarrow> XMessage \<Rightarrow> string option" where
  "string_field k entry =
     (case gm_get (xm_Values entry) k of Some (RString s) \<Rightarrow> Some s | _ \<Rightarrow> None)"

definition validated :: "codec \<Rightarrow> PriceEvent \<Rightarrow> go_error + PriceEvent" where
  "validated cd event =
     (case PriceEvent_Validate cd event of Some err \<Rightarrow> Inl err | None \<Rightarrow> Inr event)"

definition parseLegacyEntry :: "codec \<Rightarrow> time \<Rightarrow> XMessage \<Rightarrow> string \<Rightarrow> go_error + PriceEvent" where
  "parseLegacyEntry cd now entry dataStr =
     (case jc_UnmarshalLegacy cd dataStr of
        Inl err \<Rightarrow> Inl (Wrapped ''parse legacy data: '' err '''')
      | Inr legacy \<Rightarrow>
          (let symbol = (if lg_Symbol legacy = ''''
                         then (case string_field ''symbol'' entry of Some s \<Rightarrow> s | None \<Rightarrow> lg_Symbol legacy)
                         else lg_Symbol legacy)
           in validated cd
                \<lparr>ev_EventID = xm_ID entry, ev_EventType = EventTypePriceUpdated, ev_Symbol = symbol,
                 ev_PriceUSD = lg_PriceUSD legacy, ev_MarketCap = lg_MarketCap legacy,
                 ev_Volume24h = lg_Volume24h legacy, ev_Change24h = lg_Change24h legacy,
                 ev_Provider = lg_Provider legacy, ev_ObservedAt = lg_CapturedAt legacy,
                 ev_PublishedAt = tf_Format cd now\<rparr>))"

definition parseDataField :: "codec \<Rightarrow> time \<Rightarrow> XMessage \<Rightarrow> string \<Rightarrow> go_error + PriceEvent" where
  "parseDataField cd now entry dataStr =
     (case ParseEvent cd dataStr of
        Inl err \<Rightarrow> Inl err
      | Inr event \<Rightarrow>
          if ev_EventID event = '''' then parseLegacyEntry cd now entry dataStr
          else validated cd event)"

definition parseEntry :: "codec \<Rightarrow> time \<Rightarrow> XMessage \<Rightarrow> go_error + PriceEvent" where
  "parseEntry cd now entry =
     (case string_field ''data'' entry of
        Some dataStr \<Rightarrow> parseDataField cd now entry dataStr
      | None \<Rightarrow>
          (case jc_MarshalValues cd (xm_Values entry) of
             Inl err \<Rightarrow> Inl (Wrapped ''marshal entry values: '' err '''')
           | Inr payload \<Rightarrow>
               (case ParseEvent cd payload of
                  Inl err \<Rightarrow> Inl err
                | Inr event \<Rightarrow> validated cd event)))"

section \<open>Processing entries\<close>

definition ack :: "'w stream_env \<Rightarrow> Consumer \<Rightarrow> string \<Rightarrow> 'w \<Rightarrow> 'w" where
  "ack env c i w =
     snd (se_XAck env (cc_StreamKey (co_cfg c)) (cc_ConsumerGroup (co_cfg c)) i w)"

definition isDuplicate :: "string \<Rightarrow> Consumer \<Rightarrow> bool" where
  "isDuplicate eventID c \<longleftrightarrow> gm_get (co_seen c) eventID \<noteq> None"

definition markSeen :: "string \<Rightarrow> Consumer \<Rightarrow> Consumer" where
  "markSeen eventID c =
     (let seen = gm_put eventID () (co_seen c)
      in c\<lparr>co_seen := (if 10000 < length seen then [] else seen)\<rparr>)"

definition consumer_inc :: "string \<Rightarrow> Consumer \<Rightarrow> Consumer" where
  "consumer_inc name c = c\<lparr>co_metrics := m_inc name [] (co_metrics c)\<rparr>"

datatype entry_outcome =
    Malformed go_error
  | DuplicateSkipped string
  | HandlerFailed string go_error
  | Handled string

text \<open>The clock is read for the legacy format only; the reading is an argument.\<close>

definition processEntry ::
    "'w stream_env \<Rightarrow> time \<Rightarrow> XMessage \<Rightarrow> Consumer \<Rightarrow> 'w \<Rightarrow> entry_outcome \<times> Consumer \<times> 'w" where
  "processEntry env now entry c w =
     (case parseEntry (se_codec env) now entry of
        Inl err \<Rightarrow>
          (Malformed err, consumer_inc ''realtime_event_validation_failures_total'' c,
           ack env c (xm_ID entry) w)
      | Inr event \<Rightarrow>
          if isDuplicate (ev_EventID event) c
          then (DuplicateSkipped (ev_EventID event), c, ack env c (xm_ID entry) w)
          else
            (case se_handler env \<lparr>sm_StreamID = xm_ID entry, sm_Event = event\<rparr> w of
               (Some err, w1) \<Rightarrow> (HandlerFailed (ev_EventID event) err, c, w1)
             | (None, w1) \<Rightarrow>
                 (let c1 = consumer_inc ''realtime_events_consumed_total''
                             (markSeen (ev_EventID event) c)
                  in (Handled (ev_EventID event), c1, ack env c1 (xm_ID entry) w1))))"

fun processEntries ::
    "'w stream_env \<Rightarrow> (time \<times> XMessage) list \<Rightarrow> Consumer \<Rightarrow> 'w \<Rightarrow> entry_outcome list \<times> Consumer \<times> 'w" where
  "processEntries env [] c w = ([], c, w)"
| "processEntries env ((now, entry) # entries) c w =
     (case processEntry env now entry c w of
        (out, c1, w1) \<Rightarrow>
          (case processEntries env entries c1 w1 of (outs, c2, w2) \<Rightarrow> (out # outs, c2, w2)))"

section \<open>The loops\<close>

definition handleReadError ::
    "'w stream_env \<Rightarrow> go_error \<Rightarrow> Consumer \<Rightarrow> 'w \<Rightarrow> go_error option \<times> Consumer \<times> 'w" where
  "handleReadError env err c w =
     (if errors_Is err RedisNil then (None, c, w)
      else case rt_CtxErr (se_runtime env) w of
             Some e \<Rightarrow> (Some (Wrapped ''consumer stopped: '' e ''''), c, w)
           | None \<Rightarrow>
               (let c1 = consumer_inc ''realtime_redis_reconnects_total'' c
                in case rt_Wait (se_runtime env) (2 * second) w of
                     (Some e, w1) \<Rightarrow> (Some (Wrapped ''consumer stopped: '' e ''''), c1, w1)
                   | (None, w1) \<Rightarrow> (None, c1, w1)))"

text \<open>
  One iteration: the error that ends the loop, if any. \<open>clock\<close> gives the clock readings for
  the entries of the batch.
\<close>

definition Run_step ::
    "'w stream_env \<Rightarrow> (XMessage \<Rightarrow> time) \<Rightarrow> Consumer \<Rightarrow> 'w \<Rightarrow> go_error option \<times> Consumer \<times> 'w" where
  "Run_step env clock c w =
     (case rt_CtxErr (se_runtime env) w of
        Some e \<Rightarrow> (Some (Wrapped ''consumer stopped: '' e ''''), c, w)
      | None \<Rightarrow>
          (case se_XReadGroup env (co_cfg c) w of
             (Inl err, w1) \<Rightarrow> handleReadError env err c w1
           | (Inr streams, w1) \<Rightarrow>
               (case processEntries env (map (\<lambda>e. (clock e, e)) (concat streams)) c w1 of
                  (outs, c2, w2) \<Rightarrow> (None, c2, w2))))"

partial_function (option) Run_loop ::
    "'w stream_env \<Rightarrow> (XMessage \<Rightarrow> time) \<Rightarrow> Consumer \<Rightarrow> 'w \<Rightarrow> (go_error \<times> Consumer \<times> 'w) option" where
  "Run_loop env clock c w =
     (case Run_step env clock c w of
        (Some e, c1, w1) \<Rightarrow> Some (e, c1, w1)
      | (None, c1, w1) \<Rightarrow> Run_loop env clock c1 w1)"

definition Consumer_Run ::
    "'w stream_env \<Rightarrow> (XMessage \<Rightarrow> time) \<Rightarrow> Consumer \<Rightarrow> 'w \<Rightarrow> (go_error \<times> Consumer \<times> 'w) option" where
  "Consumer_Run env clock c w =
     (case Run_loop env clock (c\<lparr>co_running := True\<rparr>) w of
        None \<Rightarrow> None
      | Some (e, c1, w1) \<Rightarrow> Some (e, c1\<lparr>co_running := False\<rparr>, w1))"

definition claimPending ::
    "'w stream_env \<Rightarrow> (XMessage \<Rightarrow> time) \<Rightarrow> Consumer \<Rightarrow> 'w \<Rightarrow> Consumer \<times> 'w" where
  "claimPending env clock c w =
     (case se_XAutoClaim env (co_cfg c) w of
        (Inl err, w1) \<Rightarrow> (c, w1)
      | (Inr entries, w1) \<Rightarrow>
          (case processEntries env (map (\<lambda>e. (clock e, e)) entries) c w1 of (outs, c2, w2) \<Rightarrow> (c2, w2)))"

section \<open>Specification\<close>

fun handled_ids :: "entry_outcome list \<Rightarrow> string list" where
  "handled_ids [] = []"
| "handled_ids (Handled i # outs) = i # handled_ids outs"
| "handled_ids (_ # outs) = handled_ids outs"

definition seen_inv :: "Consumer \<Rightarrow> bool" where
  "seen_inv c \<longleftrightarrow> gm_wf (co_seen c) \<and> length (co_seen c) \<le> 10000"

text \<open>The identifiers of the entries that must be acknowledged: all whose handler did not fail.\<close>

fun acked_ids :: "(time \<times> XMessage) list \<Rightarrow> entry_outcome list \<Rightarrow> string list" where
  "acked_ids ((_, entry) # entries) (HandlerFailed _ _ # outs) = acked_ids entries outs"
| "acked_ids ((_, entry) # entries) (_ # outs) = xm_ID entry # acked_ids entries outs"
| "acked_ids _ _ = []"

text \<open>A bounded number of rounds of the read loop.\<close>

fun Run_rounds ::
    "nat \<Rightarrow> 'w stream_env \<Rightarrow> (XMessage \<Rightarrow> time) \<Rightarrow> Consumer \<Rightarrow> 'w \<Rightarrow> (go_error \<times> Consumer \<times> 'w) option" where
  "Run_rounds 0 env clock c w = None"
| "Run_rounds (Suc n) env clock c w =
     (case Run_step env clock c w of
        (Some e, c1, w1) \<Rightarrow> Some (e, c1, w1)
      | (None, c1, w1) \<Rightarrow> Run_rounds n env clock c1 w1)"

text \<open>
  A Redis server that records what it is told, for closed examples: the identifiers acknowledged
  and the messages handled, newest first. The handler rejects the event identifier \<open>fail\<close>.
\<close>

definition demo_stream_env :: "(string list \<times> string list) stream_env" where
  "demo_stream_env =
     \<lparr>se_XGroupCreateMkStream = (\<lambda>_ _ _ w. (None, w)),
      se_XReadGroup = (\<lambda>_ w. (Inr [], w)), se_XAutoClaim = (\<lambda>_ w. (Inr [], w)),
      se_XAck = (\<lambda>_ _ i (acks, msgs). (None, (i # acks, msgs))),
      se_handler = (\<lambda>m (acks, msgs).
        if ev_EventID (sm_Event m) = ''fail'' then (Some (ErrorString ''down''), (acks, msgs))
        else (None, (acks, sm_StreamID m # msgs))),
      se_runtime =
        \<lparr>rt_Now = (\<lambda>w. (0, w)), rt_CtxErr = (\<lambda>_. None), rt_Wait = (\<lambda>_ w. (None, w)),
         rt_Float64 = (\<lambda>w. (Fin 0, w))\<rparr>,
      se_codec = demo_codec, se_quote = id\<rparr>"

definition demo_entry :: "string \<Rightarrow> string \<Rightarrow> XMessage" where
  "demo_entry i payload = \<lparr>xm_ID = i, xm_Values = [(''symbol'', RString ''BTC''), (''data'', RString payload)]\<rparr>"

section \<open>Lemmas\<close>

lemma consumer_inc_simps [simp]:
  "co_seen (consumer_inc n c) = co_seen c" "co_cfg (consumer_inc n c) = co_cfg c"
  "co_running (consumer_inc n c) = co_running c"
  by (simp_all add: consumer_inc_def)

lemma markSeen_cfg [simp]: "co_cfg (markSeen i c) = co_cfg c" "co_running (markSeen i c) = co_running c"
  by (simp_all add: markSeen_def Let_def)

lemma markSeen_seen:
  assumes "length (co_seen c) < 10000"
  shows "fst ` set (co_seen (markSeen i c)) = insert i (fst ` set (co_seen c))"
    and "length (co_seen (markSeen i c)) \<le> Suc (length (co_seen c))"
  using assms by (simp_all add: markSeen_def Let_def gm_length_put gm_keys_put)

lemma markSeen_inv: "seen_inv c \<Longrightarrow> seen_inv (markSeen i c)"
  by (simp add: seen_inv_def markSeen_def Let_def)

lemma processEntry_inv:
  "seen_inv c \<Longrightarrow> seen_inv (fst (snd (processEntry env now entry c w)))"
  using markSeen_inv
  by (auto simp: processEntry_def Let_def seen_inv_def split: sum.splits prod.splits option.splits)

text \<open>One entry and the set of seen identifiers, as long as the set does not overflow.\<close>

lemma processEntry_seen:
  assumes "processEntry env now entry c w = (out, c1, w1)" and "length (co_seen c) < 10000"
  shows "length (co_seen c1) \<le> Suc (length (co_seen c)) \<and>
    (case out of
       Handled i \<Rightarrow> i \<notin> fst ` set (co_seen c) \<and> fst ` set (co_seen c1) = insert i (fst ` set (co_seen c))
     | _ \<Rightarrow> co_seen c1 = co_seen c)"
  using assms(1) markSeen_seen [OF assms(2)]
  by (auto simp: processEntry_def isDuplicate_def gm_get_None_iff Let_def
      split: sum.splits prod.splits option.splits if_splits)

lemma processEntries_seen:
  assumes "processEntries env entries c w = (outs, c', w')"
    and "length (co_seen c) + length entries \<le> 10000"
  shows "distinct (handled_ids outs) \<and> set (handled_ids outs) \<inter> fst ` set (co_seen c) = {} \<and>
    fst ` set (co_seen c') = fst ` set (co_seen c) \<union> set (handled_ids outs)"
  using assms
proof (induction entries arbitrary: c w outs)
  case (Cons te entries)
  obtain now entry where te: "te = (now, entry)" by (cases te)
  obtain out c1 w1 where one: "processEntry env now entry c w = (out, c1, w1)" by (metis surj_pair)
  obtain outs1 where rest: "processEntries env entries c1 w1 = (outs1, c', w')" and outs: "outs = out # outs1"
    using Cons.prems(1) by (auto simp: te one split: prod.splits)
  note seen = processEntry_seen [OF one]
  with Cons.prems(2) have "length (co_seen c1) + length entries \<le> 10000" by auto
  from Cons.IH [OF rest this] seen Cons.prems(2) show ?case by (cases out) (auto simp: outs)
qed simp

lemma Run_rounds_Run_loop: "Run_rounds n env clock c w = Some r \<Longrightarrow> Run_loop env clock c w = Some r"
proof (induction n arbitrary: c w)
  case (Suc n)
  then show ?case
    by (subst Run_loop.simps) (auto split: prod.splits option.splits)
qed simp

lemma Run_step_stops:
  "Run_step env clock c w = (Some e, c', w') \<Longrightarrow> \<exists>e'. e = Wrapped ''consumer stopped: '' e' ''''"
  by (auto simp: Run_step_def handleReadError_def Let_def
      split: option.splits prod.splits sum.splits if_splits)

lemma Run_loop_stops:
  assumes "Run_loop env clock c w = Some (e, c', w')"
  shows "\<exists>e'. e = Wrapped ''consumer stopped: '' e' ''''"
proof -
  have "\<exists>e'. fst (e, c', w') = Wrapped ''consumer stopped: '' e' ''''"
    by (rule Run_loop.raw_induct [OF _ assms,
          where P = "\<lambda>env clock c w r. \<exists>e'. fst r = Wrapped ''consumer stopped: '' e' ''''"])
      (auto split: prod.splits option.splits dest: Run_step_stops)
  then show ?thesis by simp
qed

section \<open>Properties\<close>



text \<open>
  C19: Acknowledgement: processing entries acknowledges each of them exactly once and in order,
  except those whose handler failed, which stay pending for a later claim.
\<close>

theorem consumer_acks_all_but_failed:
  assumes "\<And>k g i w. acks (snd (se_XAck env k g i w)) = acks w @ [i]"
    and "\<And>m w. acks (snd (se_handler env m w)) = acks w"
    and "processEntries env entries c w = (outs, c', w')"
  shows "acks w' = acks w @ acked_ids entries outs"
  using assms(3)
proof (induction entries arbitrary: c w outs)
  case (Cons te entries)
  obtain now entry where te: "te = (now, entry)" by (cases te)
  obtain out c1 w1 where one: "processEntry env now entry c w = (out, c1, w1)" by (metis surj_pair)
  obtain outs1 where rest: "processEntries env entries c1 w1 = (outs1, c', w')" and outs: "outs = out # outs1"
    using Cons.prems by (auto simp: te one split: prod.splits)
  have "acks w1 = acks w @ acked_ids [te] [out]"
    using one assms(1)
    by (auto simp: te processEntry_def ack_def Let_def split: sum.splits prod.splits option.splits if_splits
        dest!: arg_cong [where f = "\<lambda>x. acks (snd x)", of "se_handler env m w" for m] simp: assms(2))
  then show ?case using Cons.IH [OF rest] by (cases out) (auto simp: outs te)
qed simp

theorem consumer_acks_all_but_failed_witness:
  "rev (fst (snd (snd (processEntries demo_stream_env
     [(0, demo_entry ''1-0'' ''a''), (0, demo_entry ''2-0'' ''fail''), (0, demo_entry ''3-0'' ''bad'')]
     (NewConsumer DefaultConsumerConfig) ([], []))))) = [''1-0'', ''3-0'']"
proof -
  let ?es = "[(0, demo_entry ''1-0'' ''a''), (0, demo_entry ''2-0'' ''fail''), (0, demo_entry ''3-0'' ''bad'')]"
  let ?r = "processEntries demo_stream_env ?es (NewConsumer DefaultConsumerConfig) ([], [])"
  have outs: "fst ?r = [Handled ''a'', HandlerFailed ''fail'' (ErrorString ''down''),
      Malformed (Wrapped ''unmarshal event: '' (ErrorString ''syntax'') '''')]"
    by (simp add: processEntry_def parseEntry_def parseDataField_def ParseEvent_def string_field_def
        demo_entry_def demo_stream_env_def demo_codec_def demo_event_def validated_def
        PriceEvent_Validate_def isDuplicate_def markSeen_def NewConsumer_def gm_get_def gm_put_def Let_def
        split_beta)
  have "?r = (fst ?r, fst (snd ?r), snd (snd ?r))" by simp
  from consumer_acks_all_but_failed [where acks = "\<lambda>w. rev (fst w)", OF _ _ this]
  have acks: "rev (fst (snd (snd ?r))) = acked_ids ?es (fst ?r)"
    by (simp add: demo_stream_env_def split_beta)
  show ?thesis unfolding acks outs by (simp add: demo_entry_def)
qed

text \<open>
  The set of seen identifiers never exceeds 10000 entries; when a new identifier would
  exceed it, the whole set is dropped, the identifier just handled with it, so that the
  same event delivered again right away is not recognised as a duplicate.
\<close>

theorem markSeen_eviction:
  assumes "seen_inv c" and "\<not> isDuplicate i c"
  shows "seen_inv (markSeen i c) \<and>
    (if length (co_seen c) = 10000 then co_seen (markSeen i c) = [] \<and> \<not> isDuplicate i (markSeen i c)
     else isDuplicate i (markSeen i c))"
  using assms markSeen_inv [OF assms(1)]
  by (auto simp: seen_inv_def isDuplicate_def markSeen_def Let_def gm_length_put gm_simps)

theorem markSeen_eviction_witness:
  "isDuplicate ''x'' (markSeen ''x'' (NewConsumer DefaultConsumerConfig))"
  using markSeen_eviction [of "NewConsumer DefaultConsumerConfig" "''x''"]
  by (simp add: seen_inv_def NewConsumer_def isDuplicate_def)



end
