(* ===== verification/Go_Time.thy ===== *)
theory Go_Time
  imports Go_Strings "HOL-Library.Monad_Syntax"
begin

text \<open>
  Go's \<open>time\<close> package as far as the program reads and writes dates: the proleptic
  Gregorian calendar, \<open>Time.Unix\<close>, and \<open>Format\<close> and \<open>Parse\<close> with the layout
  \<open>time.RFC3339\<close> (formatting is of times in UTC). Parsing follows the library's reader of
  layouts: an hour may have one digit, a fraction of a second is accepted after a point or a
  comma, and an offset may have up to 24 hours and 60 minutes. The times are those of
  \<open>Go_Prelude\<close>: nanoseconds since the first of January of year 1.
\<close>

section \<open>Calendar\<close>

definition is_leap :: "int \<Rightarrow> bool" where
  "is_leap y \<longleftrightarrow> y mod 4 = 0 \<and> (y mod 100 \<noteq> 0 \<or> y mod 400 = 0)"

definition month_lengths :: "bool \<Rightarrow> int list" where
  "month_lengths leap = [31, if leap then 29 else 28, 31, 30, 31, 30, 31, 31, 30, 31, 30, 31]"

definition days_before_year :: "int \<Rightarrow> int" where
  "days_before_year y = 365 * (y - 1) + (y - 1) div 4 - (y - 1) div 100 + (y - 1) div 400"

definition days_of_date :: "int \<times> int \<times> int \<Rightarrow> int" where
  "days_of_date = (\<lambda>(y, m, d).
     days_before_year y + sum_list (take (nat (m - 1)) (month_lengths (is_leap y))) + d - 1)"

text \<open>A day is split by cycles of 400, 100 and 4 years; the last year of a cycle may be longer.\<close>

definition year_of_day :: "int \<Rightarrow> int \<times> int" where
  "year_of_day n =
     (let n400 = n div 146097; r400 = n mod 146097;
          n100 = min 3 (r400 div 36524); r100 = r400 - n100 * 36524;
          n4 = r100 div 1461; r4 = r100 mod 1461;
          n1 = min 3 (r4 div 365)
      in (1 + 400 * n400 + 100 * n100 + 4 * n4 + n1, r4 - n1 * 365))"

fun month_of_day :: "int list \<Rightarrow> int \<Rightarrow> int \<Rightarrow> int \<times> int" where
  "month_of_day [] m d = (m, d + 1)"
| "month_of_day (l # ls) m d = (if d < l then (m, d + 1) else month_of_day ls (m + 1) (d - l))"

definition date_of_day :: "int \<Rightarrow> int \<times> int \<times> int" where
  "date_of_day n =
     (case year_of_day n of (y, yday) \<Rightarrow> (y, month_of_day (month_lengths (is_leap y)) 1 yday))"

definition day_ns :: int where
  "day_ns = 86400 * second"

definition time_Unix :: "time \<Rightarrow> int" where
  "time_Unix t = t div second - 62135596800"

section \<open>Formatting\<close>

definition append_int :: "int \<Rightarrow> nat \<Rightarrow> string" where
  "append_int x w =
     (let ds = dec_digits (nat \<bar>x\<bar>)
      in (if x < 0 then ''-'' else '''') @ replicate (w - length ds) CHR ''0'' @ ds)"

definition format_seconds :: "time \<Rightarrow> string" where
  "format_seconds t =
     (case date_of_day (t div day_ns) of
        (y, m, d) \<Rightarrow>
          (let s = t mod day_ns div second
           in append_int y 4 @ ''-'' @ append_int m 2 @ ''-'' @ append_int d 2 @ ''T''
                @ append_int (s div 3600) 2 @ '':'' @ append_int (s div 60 mod 60) 2 @ '':''
                @ append_int (s mod 60) 2))"

definition format_RFC3339 :: "time \<Rightarrow> string" where
  "format_RFC3339 t = format_seconds t @ ''Z''"

text \<open>\<open>time.RFC3339Nano\<close>: the fraction without trailing zeros, none for a whole second.\<close>

definition format_fraction :: "int \<Rightarrow> string" where
  "format_fraction ns = (if ns = 0 then '''' else CHR ''.'' # strings_TrimRight (append_int ns 9) CHR ''0'')"

definition format_RFC3339Nano :: "time \<Rightarrow> string" where
  "format_RFC3339Nano t = format_seconds t @ format_fraction (t mod second) @ ''Z''"

text \<open>\<open>Time.MarshalJSON\<close>, before quoting: years beyond 9999 are errors.\<close>

definition marshal_time :: "time \<Rightarrow> string option" where
  "marshal_time t =
     (if 0 \<le> fst (date_of_day (t div day_ns)) \<and> fst (date_of_day (t div day_ns)) \<le> 9999
      then Some (format_RFC3339Nano t) else None)"

section \<open>Parsing\<close>

definition expect :: "char \<Rightarrow> string \<Rightarrow> string option" where
  "expect c s = (case s of x # r \<Rightarrow> if x = c then Some r else None | [] \<Rightarrow> None)"

definition getnum :: "bool \<Rightarrow> string \<Rightarrow> (int \<times> string) option" where
  "getnum fixed s =
     (case s of
        [] \<Rightarrow> None
      | c # r \<Rightarrow>
          if \<not> is_digit c then None
          else case r of
                 d # r' \<Rightarrow>
                   if is_digit d then Some (10 * digit_val c + digit_val d, r')
                   else if fixed then None else Some (digit_val c, r)
               | [] \<Rightarrow> if fixed then None else Some (digit_val c, r))"

definition get_year :: "string \<Rightarrow> (int \<times> string) option" where
  "get_year s =
     (if length s < 4 then None
      else map_option (\<lambda>y. (y, drop 4 s)) (digits_value 0 (take 4 s)))"

definition in_range :: "int \<Rightarrow> int \<Rightarrow> int \<Rightarrow> unit option" where
  "in_range lo hi x = (if lo \<le> x \<and> x \<le> hi then Some () else None)"

text \<open>A fraction of a second, in nanoseconds; digits after the ninth are dropped.\<close>

definition get_fraction :: "string \<Rightarrow> int \<times> string" where
  "get_fraction s =
     (let ds = takeWhile is_digit (drop 1 s); p = take 9 ds
      in if (take 1 s = ''.'' \<or> take 1 s = '','') \<and> ds \<noteq> []
         then ((case digits_value 0 p of None \<Rightarrow> 0 | Some v \<Rightarrow> v * 10 ^ (9 - length p)),
               drop (1 + length ds) s)
         else (0, s))"

text \<open>The zone: \<open>Z\<close>, or a sign, two digits, a colon and two digits; in seconds east of UTC.\<close>

definition get_zone :: "string \<Rightarrow> (int \<times> string) option" where
  "get_zone s =
     (if take 1 s = ''Z'' then Some (0, drop 1 s)
      else if length s < 6 \<or> s ! 3 \<noteq> CHR '':'' then None
      else do {
        (hr, _) \<leftarrow> getnum True (take 2 (drop 1 s));
        (mm, _) \<leftarrow> getnum True (take 2 (drop 4 s));
        _ \<leftarrow> in_range 0 24 hr;
        _ \<leftarrow> in_range 0 60 mm;
        (if hd s = CHR ''+'' then Some ((hr * 60 + mm) * 60, drop 6 s)
         else if hd s = CHR ''-'' then Some (- ((hr * 60 + mm) * 60), drop 6 s)
         else None)
      })"

definition parse_RFC3339 :: "string \<Rightarrow> time option" where
  "parse_RFC3339 s0 = do {
     (y, s1) \<leftarrow> get_year s0;
     s2 \<leftarrow> expect CHR ''-'' s1;
     (mo, s3) \<leftarrow> getnum True s2;
     _ \<leftarrow> in_range 1 12 mo;
     s4 \<leftarrow> expect CHR ''-'' s3;
     (d, s5) \<leftarrow> getnum True s4;
     s6 \<leftarrow> expect CHR ''T'' s5;
     (h, s7) \<leftarrow> getnum False s6;
     _ \<leftarrow> in_range 0 23 h;
     s8 \<leftarrow> expect CHR '':'' s7;
     (mi, s9) \<leftarrow> getnum True s8;
     _ \<leftarrow> in_range 0 59 mi;
     s10 \<leftarrow> expect CHR '':'' s9;
     (sec, s11) \<leftarrow> getnum True s10;
     _ \<leftarrow> in_range 0 59 sec;
     (case get_fraction s11 of
        (ns, s12) \<Rightarrow> do {
          (off, s13) \<leftarrow> get_zone s12;
          _ \<leftarrow> (if s13 = [] then Some () else None);
          _ \<leftarrow> in_range 1 (month_lengths (is_leap y) ! nat (mo - 1)) d;
          Some ((days_of_date (y, mo, d) * 86400 + h * 3600 + mi * 60 + sec - off) * second + ns)
        })
   }"

text \<open>\<open>Time.UnmarshalJSON\<close>, on the text between the quotes: stricter than \<open>Parse\<close>.\<close>

definition unmarshal_time :: "string \<Rightarrow> time option" where
  "unmarshal_time s =
     (case parse_RFC3339 s of
        None \<Rightarrow> None
      | Some t \<Rightarrow>
          if s ! 12 = CHR '':'' \<or> s ! 19 = CHR '','' then None
          else if last s \<noteq> CHR ''Z''
            \<and> ((case getnum True (drop (length s - 5) s) of None \<Rightarrow> True | Some (h, _) \<Rightarrow> 24 \<le> h)
               \<or> (case getnum True (drop (length s - 2) s) of None \<Rightarrow> True | Some (m, _) \<Rightarrow> 60 \<le> m))
          then None
          else Some t)"

section \<open>Laws\<close>

lemma int_div_less: "0 < k \<Longrightarrow> t < n * k \<Longrightarrow> t div k < n" for t :: int
  by (metis div_mult_mod_eq mult_less_cancel_right_pos pos_mod_sign le_add_same_cancel1 le_less_trans)

lemma year_of_day_correct:
  assumes "year_of_day n = (y, yday)"
  shows "n = days_before_year y + yday \<and> 0 \<le> yday \<and> yday < 365 + (if is_leap y then 1 else 0)"
proof -
  define a r400 where "a = n div 146097" and "r400 = n mod 146097"
  define b where "b = min 3 (r400 div 36524)"
  define r100 where "r100 = r400 - b * 36524"
  define c r4 where "c = r100 div 1461" and "r4 = r100 mod 1461"
  define d where "d = min 3 (r4 div 365)"
  have r400: "0 \<le> r400" "r400 < 146097" "n = a * 146097 + r400" by (auto simp: a_def r400_def)
  have b: "0 \<le> b" "b \<le> 3" "0 \<le> r100" "r100 < 36524 \<or> b = 3 \<and> r100 \<le> 36524"
    using r400 unfolding b_def r100_def by (auto simp: min_def)
  have r4: "0 \<le> c" "c \<le> 24" "0 \<le> r4" "r4 < 1461" "r100 = c * 1461 + r4"
    using b unfolding c_def r4_def by auto
  have last: "c = 24 \<Longrightarrow> r4 < 1460 \<or> b = 3 \<and> r4 = 1460"
    using b(4) r4(5) by linarith
  have d: "0 \<le> d" "d \<le> 3" "0 \<le> r4 - d * 365" "r4 - d * 365 < 365 \<or> d = 3 \<and> r4 - d * 365 = 365"
    using r4 unfolding d_def by (auto simp: min_def)
  have yd: "y = 1 + 400 * a + 100 * b + 4 * c + d" "yday = r4 - d * 365"
    using assms by (auto simp: year_of_day_def Let_def a_def r400_def b_def r100_def c_def r4_def d_def)
  have q: "(y - 1) div 4 = 100 * a + 25 * b + c" "(y - 1) div 100 = 4 * a + b" "(y - 1) div 400 = a"
    using b r4 d div_mult_self1 [of 4 d "100 * a + 25 * b + c"] div_mult_self1 [of 100 "4 * c + d" "4 * a + b"]
      div_mult_self1 [of 400 "100 * b + 4 * c + d" a]
    unfolding yd by (simp_all add: algebra_simps div_pos_pos_trivial)
  have leap: "is_leap y" if "d = 3" "r4 = 1460"
  proof -
    have y4: "y = 4 * (100 * a + 25 * b + c + 1)" using yd that by simp
    show ?thesis
    proof (cases "c = 24")
      case True
      then have "b = 3" using last that by simp
      then have "y = 400 * (a + 1)" using y4 True by simp
      then show ?thesis by (simp add: is_leap_def)
    next
      case False
      have "y = 4 * (c + 1) + (4 * a + b) * 100" using y4 by simp
      then have "y mod 100 = 4 * (c + 1) mod 100" by (simp only: mod_mult_self1)
      also have "\<dots> = 4 * (c + 1)" using False r4(1,2) by (simp add: mod_pos_pos_trivial)
      finally have "y mod 100 = 4 * (c + 1)" .
      then show ?thesis using y4 r4(1) by (simp add: is_leap_def)
    qed
  qed
  show ?thesis
    using r400(3) r4(5) d leap q yd unfolding days_before_year_def r100_def by auto
qed

lemma month_of_day_correct:
  assumes "0 \<le> d" and "d < sum_list ls" and "month_of_day ls m d = (m', d')"
  shows "m \<le> m' \<and> m' < m + int (length ls) \<and> 1 \<le> d' \<and> d' \<le> ls ! nat (m' - m)
    \<and> d = sum_list (take (nat (m' - m)) ls) + d' - 1"
  using assms
proof (induction ls m d rule: month_of_day.induct)
  case (2 l ls m d)
  show ?case
  proof (cases "d < l")
    case False
    with 2 have IH: "m + 1 \<le> m' \<and> m' < m + 1 + int (length ls) \<and> 1 \<le> d' \<and> d' \<le> ls ! nat (m' - (m + 1))
      \<and> d - l = sum_list (take (nat (m' - (m + 1))) ls) + d' - 1" by simp
    then have "nat (m' - m) = Suc (nat (m' - (m + 1)))" by (simp add: Suc_nat_eq_nat_zadd1)
    with IH show ?thesis by simp
  qed (use 2 in auto)
qed auto

lemma month_lengths_sum: "sum_list (month_lengths leap) = 365 + (if leap then 1 else 0)"
  and month_lengths_length: "length (month_lengths leap) = 12"
  by (simp_all add: month_lengths_def)

lemma date_of_day_correct:
  assumes "date_of_day n = (y, m, d)"
  shows "days_of_date (y, m, d) = n \<and> 1 \<le> m \<and> m \<le> 12 \<and> 1 \<le> d
    \<and> d \<le> month_lengths (is_leap y) ! nat (m - 1)"
proof -
  obtain yday where y: "year_of_day n = (y, yday)" and m: "month_of_day (month_lengths (is_leap y)) 1 yday = (m, d)"
    using assms by (auto simp: date_of_day_def split: prod.splits)
  note Y = year_of_day_correct [OF y]
  then have "yday < sum_list (month_lengths (is_leap y))" by (simp add: month_lengths_sum)
  from month_of_day_correct [OF _ this m] Y show ?thesis
    by (auto simp: days_of_date_def month_lengths_length)
qed

lemma year_of_day_range:
  assumes "0 \<le> n" and "n < 3652059" and "year_of_day n = (y, yday)"
  shows "1 \<le> y \<and> y \<le> 9999"
proof -
  note Y = year_of_day_correct [OF assms(3)]
  have n: "days_before_year y \<le> n" "n < days_before_year y + 366" using Y by (auto split: if_splits)
  define e f where "e = (y - 1) div 400" and "f = (y - 1) mod 400"
  have y: "y - 1 = 400 * e + f" and f: "0 \<le> f" "f < 400" by (simp_all add: e_def f_def)
  have q: "(y - 1) div 4 = 100 * e + f div 4" "(y - 1) div 100 = 4 * e + f div 100"
    unfolding y using div_mult_self1 [of 4 f "100 * e"] div_mult_self1 [of 100 f "4 * e"]
    by (simp_all add: algebra_simps)
  have days: "days_before_year y = 146097 * e + 365 * f + f div 4 - f div 100"
    unfolding days_before_year_def q e_def [symmetric] unfolding y by simp
  have g: "0 \<le> f div 4 - f div 100" "f div 4 \<le> 99" "0 \<le> f div 100" "f = 399 \<Longrightarrow> f div 4 - f div 100 = 96"
    using f int_div_less [of 4 f 100] zdiv_mono2 [of f 4 100] by (simp_all add: pos_imp_zdiv_nonneg_iff)
  have "0 \<le> e"
  proof (rule ccontr)
    assume "\<not> 0 \<le> e"
    then have "e \<le> -1" by simp
    then have "146097 * e + 365 * f + (f div 4 - f div 100) \<le> -366"
      using f g by (cases "f = 399") linarith+
    then show False using n(2) days assms(1) by linarith
  qed
  moreover have "e < 24 \<or> e = 24 \<and> f < 399"
  proof (rule ccontr)
    assume "\<not> ?thesis"
    then have "3652059 \<le> 146097 * e + 365 * f + (f div 4 - f div 100)"
      using f g by (cases "e = 24") linarith+
    then show False using n(1) days assms(2) by linarith
  qed
  ultimately show ?thesis using y f by linarith
qed

lemma date_of_day_range:
  assumes "0 \<le> n" and "n < 3652059" and "date_of_day n = (y, m, d)"
  shows "1 \<le> y \<and> y \<le> 9999 \<and> 1 \<le> m \<and> m \<le> 12 \<and> 1 \<le> d \<and> d \<le> 31"
proof -
  have "y = fst (year_of_day n)" using assms(3) by (auto simp: date_of_day_def split: prod.splits)
  then have y: "1 \<le> y \<and> y \<le> 9999" using year_of_day_range [OF assms(1,2)] by (metis prod.collapse)
  note D = date_of_day_correct [OF assms(3)]
  have "\<forall>l\<in>set (month_lengths leap). l \<le> 31" for leap by (simp add: month_lengths_def)
  moreover have "nat (m - 1) < 12" using D by linarith
  ultimately have "month_lengths (is_leap y) ! nat (m - 1) \<le> 31"
    by (metis month_lengths_length nth_mem)
  with D y show ?thesis by linarith
qed

text \<open>Numbers of a fixed width.\<close>

lemma length_dec_digits: "n < 10 ^ w \<Longrightarrow> 0 < w \<Longrightarrow> length (dec_digits n) \<le> w"
proof (induction w arbitrary: n)
  case (Suc w)
  show ?case
  proof (cases "n < 10")
    case True
    then show ?thesis by (simp add: dec_digits.simps [of n])
  next
    case False
    then have "w \<noteq> 0" using Suc.prems by (cases w) auto
    moreover have "n div 10 < 10 ^ w" using Suc.prems by (simp add: less_mult_imp_div_less mult.commute)
    ultimately show ?thesis using False Suc.IH [of "n div 10"] by (simp add: dec_digits.simps [of n])
  qed
qed simp

lemma digits_value_zeros: "digits_value 0 (replicate k CHR ''0'' @ s) = digits_value 0 s"
  by (induction k) (simp_all add: is_digit_def digit_val_def)

lemma append_int_facts:
  assumes "0 \<le> x" and "x < 10 ^ w" and "0 < w"
  shows "length (append_int x w) = w" "list_all is_digit (append_int x w)"
    "digits_value 0 (append_int x w) = Some x"
proof -
  have "nat x < 10 ^ w" using assms(1,2) by (simp add: nat_less_iff)
  from length_dec_digits [OF this assms(3)] show "length (append_int x w) = w"
    using assms(1) by (simp add: append_int_def Let_def)
  have "is_digit CHR ''0''" by (simp add: is_digit_def)
  then show "list_all is_digit (append_int x w)"
    using assms(1) dec_digits_are_digits [of "nat x"] by (auto simp: append_int_def Let_def list_all_iff)
  show "digits_value 0 (append_int x w) = Some x"
    using assms(1) by (simp add: append_int_def Let_def digits_value_zeros digits_value_dec_digits)
qed

lemma getnum_append_int: "0 \<le> x \<Longrightarrow> x < 100 \<Longrightarrow> getnum fixed (append_int x 2 @ s) = Some (x, s)"
proof -
  assume "0 \<le> x" "x < 100"
  then have f: "length (append_int x 2) = 2" "list_all is_digit (append_int x 2)"
    "digits_value 0 (append_int x 2) = Some x" using append_int_facts [of x 2] by simp_all
  then obtain c d where "append_int x 2 = [c, d]"
    by (metis (no_types, lifting) One_nat_def Suc_1 length_0_conv length_Suc_conv)
  with f show ?thesis by (simp add: getnum_def)
qed

lemma get_year_append_int: "0 \<le> y \<Longrightarrow> y < 10000 \<Longrightarrow> get_year (append_int y 4 @ s) = Some (y, s)"
  using append_int_facts [of y 4] by (simp add: get_year_def)

lemma expect_Cons [simp]: "expect c (c # s) = Some s"
  by (simp add: expect_def)

lemma in_range_Some [simp]: "lo \<le> x \<Longrightarrow> x \<le> hi \<Longrightarrow> in_range lo hi x = Some ()"
  by (simp add: in_range_def)

text \<open>The fields of a formatted date: what they are and what they stand for.\<close>

lemma format_fields:
  assumes "0 \<le> t" and "t < 3652059 * day_ns"
  obtains y m d h mi sec where
    "format_seconds t = append_int y 4 @ ''-'' @ append_int m 2 @ ''-'' @ append_int d 2 @ ''T''
       @ append_int h 2 @ '':'' @ append_int mi 2 @ '':'' @ append_int sec 2"
    "(days_of_date (y, m, d) * 86400 + h * 3600 + mi * 60 + sec) * second = t - t mod second"
    "1 \<le> y \<and> y \<le> 9999 \<and> 1 \<le> m \<and> m \<le> 12 \<and> 1 \<le> d \<and> d \<le> 31 \<and> 0 \<le> h \<and> h \<le> 23 \<and> 0 \<le> mi \<and> mi \<le> 59
       \<and> 0 \<le> sec \<and> sec \<le> 59"
    "d \<le> month_lengths (is_leap y) ! nat (m - 1)"
proof -
  obtain y m d where date: "date_of_day (t div day_ns) = (y, m, d)" by (metis surj_pair)
  define s where "s = t mod day_ns div second"
  have pos: "0 < day_ns" "0 < second" by (simp_all add: day_ns_def second_def)
  have day: "t = t div day_ns * day_ns + t mod day_ns" "0 \<le> t mod day_ns" "t mod day_ns < day_ns"
    using pos by simp_all
  have sec: "t mod day_ns = s * second + t mod day_ns mod second" unfolding s_def by simp
  have s: "0 \<le> s" "s < 86400"
    using day(2,3) pos int_div_less [of second "t mod day_ns" 86400]
    by (simp_all add: s_def day_ns_def pos_imp_zdiv_nonneg_iff)
  have n: "0 \<le> t div day_ns" "t div day_ns < 3652059"
    using assms pos int_div_less [of day_ns t] by (simp_all add: pos_imp_zdiv_nonneg_iff)
  note D = date_of_day_correct [OF date] and R = date_of_day_range [OF n date]
  have hour: "s div 3600 = s div 60 div 60" using zdiv_zmult2_eq [of 60 s 60] by simp
  have h: "s div 3600 * 3600 + s div 60 mod 60 * 60 + s mod 60 = s"
    using div_mult_mod_eq [of s 60] div_mult_mod_eq [of "s div 60" 60] unfolding hour by linarith
  have h': "0 \<le> s div 3600" "s div 3600 < 24"
    using s int_div_less [of 3600 s 24] by (simp_all add: pos_imp_zdiv_nonneg_iff)
  have mod60: "0 \<le> x mod 60 \<and> x mod 60 \<le> 59" for x :: int
    using pos_mod_bound [of 60 x] by (simp add: zle_diff1_eq [symmetric] del: zle_diff1_eq pos_mod_bound)
  have "t mod day_ns mod second = t mod second"
    unfolding day_ns_def by (rule mod_mod_cancel) simp
  then have "(t div day_ns * 86400 + s) * second = t - t mod second"
    using day(1) sec unfolding day_ns_def by (simp add: algebra_simps)
  then have "(days_of_date (y, m, d) * 86400 + s div 3600 * 3600 + s div 60 mod 60 * 60 + s mod 60) * second
      = t - t mod second" using D h by (simp add: add.assoc)
  with D R h' show thesis
    by (intro that [of y m d "s div 3600" "s div 60 mod 60" "s mod 60"])
      (simp_all add: format_seconds_def date s_def [symmetric] mod60)
qed

lemma append_int_2: "0 \<le> x \<Longrightarrow> x \<le> 99 \<Longrightarrow> length (append_int x 2) = 2 \<and> list_all is_digit (append_int x 2)"
  and append_int_4: "0 \<le> x \<Longrightarrow> x \<le> 9999 \<Longrightarrow> length (append_int x 4) = 4 \<and> list_all is_digit (append_int x 4)"
  using append_int_facts [of x 2] append_int_facts [of x 4] by simp_all

text \<open>
  A formatted date, followed by a fraction and the zone, is read back; the layouts differ in
  the fraction only.
\<close>

lemma parse_format_seconds:
  assumes "0 \<le> t" and "t < 3652059 * day_ns" and "get_fraction (fr @ ''Z'') = (ns, ''Z'')"
  shows "parse_RFC3339 (format_seconds t @ fr @ ''Z'') = Some (t - t mod second + ns)"
  using assms(1,2)
  by (rule format_fields)
    (use assms(3) in \<open>simp add: parse_RFC3339_def get_year_append_int getnum_append_int get_zone_def\<close>)

lemma format_seconds_shape:
  assumes "0 \<le> t" and "t < 3652059 * day_ns"
  shows "length (format_seconds t) = 19 \<and> is_digit (format_seconds t ! 12) \<and> list_all is_ascii (format_seconds t)"
  using assms
proof (rule format_fields)
  fix y m d h mi sec
  assume f: "format_seconds t = append_int y 4 @ ''-'' @ append_int m 2 @ ''-'' @ append_int d 2 @ ''T''
       @ append_int h 2 @ '':'' @ append_int mi 2 @ '':'' @ append_int sec 2"
    and r: "1 \<le> y \<and> y \<le> 9999 \<and> 1 \<le> m \<and> m \<le> 12 \<and> 1 \<le> d \<and> d \<le> 31 \<and> 0 \<le> h \<and> h \<le> 23 \<and> 0 \<le> mi \<and> mi \<le> 59
       \<and> 0 \<le> sec \<and> sec \<le> 59"
  have parts: "length (append_int y 4) = 4 \<and> list_all is_digit (append_int y 4)"
    "length (append_int m 2) = 2 \<and> list_all is_digit (append_int m 2)"
    "length (append_int d 2) = 2 \<and> list_all is_digit (append_int d 2)"
    "length (append_int h 2) = 2 \<and> list_all is_digit (append_int h 2)"
    "length (append_int mi 2) = 2 \<and> list_all is_digit (append_int mi 2)"
    "length (append_int sec 2) = 2 \<and> list_all is_digit (append_int sec 2)"
    using r by (intro append_int_2 append_int_4; simp)+
  have ascii: "list_all is_digit p \<Longrightarrow> list_all is_ascii p" for p
    by (auto simp: list_all_iff is_ascii_def is_digit_def)
  have "is_ascii CHR ''-''" "is_ascii CHR '':''" "is_ascii CHR ''T''" by (simp_all add: is_ascii_def)
  then show ?thesis
    using parts ascii by (simp add: f nth_append list_all_length [of is_digit])
qed

lemma parse_format_RFC3339:
  "0 \<le> t \<Longrightarrow> t < 3652059 * day_ns \<Longrightarrow> parse_RFC3339 (format_RFC3339 t) = Some (t - t mod second)"
  using parse_format_seconds [of t "''''" 0] by (simp add: format_RFC3339_def get_fraction_def)

lemma trim_zeros: "\<exists>k. s = strings_TrimRight s c @ replicate k c"
proof -
  have "rev s = takeWhile (\<lambda>x. x = c) (rev s) @ dropWhile (\<lambda>x. x = c) (rev s)" by simp
  moreover have "takeWhile (\<lambda>x. x = c) (rev s) = replicate (length (takeWhile (\<lambda>x. x = c) (rev s))) c"
    by (rule replicate_eqI) (auto dest: set_takeWhileD)
  ultimately have "s = rev (dropWhile (\<lambda>x. x = c) (rev s)) @ rev (replicate (length (takeWhile (\<lambda>x. x = c) (rev s))) c)"
    by (metis rev_append rev_rev_ident)
  then show ?thesis by (auto simp: strings_TrimRight_def)
qed

lemma digits_value_trailing:
  "digits_value a s = Some v \<Longrightarrow> digits_value a (s @ replicate k CHR ''0'') = Some (v * 10 ^ k)"
proof (induction k)
  case (Suc k)
  have "digits_value (v * 10 ^ k) ''0'' = Some (v * 10 ^ Suc k)" by (simp add: is_digit_def digit_val_def)
  moreover have "replicate (Suc k) CHR ''0'' = replicate k CHR ''0'' @ ''0''"
    by (simp add: replicate_append_same)
  ultimately show ?case
    using Suc by (simp only: append_assoc [symmetric] digits_value_append) simp
qed simp

lemma digits_value_defined: "list_all is_digit s \<Longrightarrow> \<exists>v. digits_value a s = Some v"
  by (induction s arbitrary: a) auto

lemma get_fraction_format:
  assumes "0 \<le> ns" and "ns < second"
  shows "get_fraction (format_fraction ns @ ''Z'') = (ns, ''Z'')"
proof (cases "ns = 0")
  case False
  let ?ds = "append_int ns 9"
  let ?p = "strings_TrimRight ?ds CHR ''0''"
  have f: "length ?ds = 9" "list_all is_digit ?ds" "digits_value 0 ?ds = Some ns"
    using append_int_facts [of ns 9] assms by (simp_all add: second_def)
  obtain k where k: "?ds = ?p @ replicate k CHR ''0''" using trim_zeros by blast
  have p: "list_all is_digit ?p" "length ?p + k = 9"
    using f(1,2) arg_cong [OF k, of length] by (subst (asm) (1 2) k; simp)+
  obtain v where v: "digits_value 0 ?p = Some v" using digits_value_defined [OF p(1)] by blast
  have ns: "ns = v * 10 ^ k" using digits_value_trailing [OF v, of k] f(3) k by simp
  have "?p \<noteq> []" using v ns False by auto
  moreover have "\<not> is_digit CHR ''Z''" by (simp add: is_digit_def)
  moreover have "takeWhile is_digit (?p @ ''Z'') = ?p"
    using p(1) \<open>\<not> is_digit CHR ''Z''\<close> by (simp add: takeWhile_append list_all_iff)
  moreover have "9 - length ?p = k" "length ?p \<le> 9" using p(2) by simp_all
  ultimately show ?thesis using False v ns by (simp add: get_fraction_def format_fraction_def Let_def)
qed (simp add: get_fraction_def format_fraction_def)

lemma parse_format_RFC3339Nano:
  assumes "0 \<le> t" and "t < 3652059 * day_ns"
  shows "parse_RFC3339 (format_RFC3339Nano t) = Some t"
  using parse_format_seconds [OF assms get_fraction_format, of "t mod second"]
  by (simp add: format_RFC3339Nano_def second_def)

lemma format_RFC3339_ascii:
  assumes "0 \<le> t" and "t < 3652059 * day_ns"
  shows "list_all is_ascii (format_RFC3339 t)"
  using format_seconds_shape [OF assms] by (simp add: format_RFC3339_def is_ascii_def [of "CHR ''Z''"])

lemma format_RFC3339Nano_ascii:
  assumes "0 \<le> t" and "t < 3652059 * day_ns"
  shows "list_all is_ascii (format_RFC3339Nano t)"
proof -
  have "0 \<le> t mod second" "t mod second < 10 ^ 9" by (simp_all add: second_def)
  then have "list_all is_digit (append_int (t mod second) 9)" using append_int_facts(2) [of _ 9] by simp
  moreover obtain k where "append_int (t mod second) 9
      = strings_TrimRight (append_int (t mod second) 9) CHR ''0'' @ replicate k CHR ''0''"
    using trim_zeros by blast
  ultimately have "list_all is_digit (strings_TrimRight (append_int (t mod second) 9) CHR ''0'')"
    by (metis list_all_append)
  then have "list_all is_ascii (strings_TrimRight (append_int (t mod second) 9) CHR ''0'')"
    by (auto simp: list_all_iff is_ascii_def is_digit_def)
  moreover have "is_ascii CHR ''.''" "is_ascii CHR ''Z''" by (simp_all add: is_ascii_def)
  ultimately show ?thesis
    using format_seconds_shape [OF assms] by (simp add: format_RFC3339Nano_def format_fraction_def)
qed

lemma unmarshal_marshal_time:
  assumes "0 \<le> t" and "t < 3652059 * day_ns"
  shows "marshal_time t = Some (format_RFC3339Nano t)" "unmarshal_time (format_RFC3339Nano t) = Some t"
proof -
  have "0 < day_ns" by (simp add: day_ns_def second_def)
  then have "0 \<le> t div day_ns" "t div day_ns < 3652059"
    using assms int_div_less [of day_ns t] by (simp_all add: pos_imp_zdiv_nonneg_iff)
  from date_of_day_range [OF this] show "marshal_time t = Some (format_RFC3339Nano t)"
    by (cases "date_of_day (t div day_ns)") (auto simp: marshal_time_def)
  let ?fr = "format_fraction (t mod second) @ ''Z''"
  have shape: "length (format_seconds t) = 19" "is_digit (format_seconds t ! 12)"
    using format_seconds_shape [OF assms] by simp_all
  have "?fr ! 0 \<noteq> CHR '',''" by (simp add: format_fraction_def)
  then have "format_RFC3339Nano t ! 19 \<noteq> CHR '',''" "format_RFC3339Nano t ! 12 \<noteq> CHR '':''"
    "last (format_RFC3339Nano t) = CHR ''Z''"
    using shape by (auto simp: format_RFC3339Nano_def nth_append is_digit_def)
  then show "unmarshal_time (format_RFC3339Nano t) = Some t"
    by (simp add: unmarshal_time_def parse_format_RFC3339Nano [OF assms])
qed

end
