(* ===== verification/Event_Codec.thy ===== *)
theory Event_Codec
  imports Stream_Event Go_Json Go_Time
begin

text \<open>
  The codec of the running program: \<open>encoding/json\<close> on the structs \<open>PriceEvent\<close> (of both
  \<open>internal/stream/event.go\<close> and \<open>internal/cache/redis.go\<close>), \<open>LatestMarketData\<close> and
  the legacy wrapper, with their field tags, and \<open>time.RFC3339\<close>. Two things stay parameters:
  the error values the decoder reports (\<open>je\<close>) and the encoding of a map of arbitrary Redis
  values (\<open>mv\<close>). The contract the publisher and the consumer need of a codec is the locale
  \<open>event_codec\<close>; the program's codec is an instance of it.
\<close>

section \<open>Struct fields\<close>

definition event_fields :: "PriceEvent \<Rightarrow> (string \<times> string) list" where
  "event_fields e =
     [(''event_id'', ev_EventID e), (''event_type'', ev_EventType e), (''symbol'', ev_Symbol e),
      (''price_usd'', ev_PriceUSD e), (''market_cap'', ev_MarketCap e), (''volume_24h'', ev_Volume24h e),
      (''change_24h'', ev_Change24h e), (''provider'', ev_Provider e),
      (''observed_at'', ev_ObservedAt e), (''published_at'', ev_PublishedAt e)]"

definition marshal_event :: "PriceEvent \<Rightarrow> string" where
  "marshal_event e = json_object (event_fields e)"

definition event_of_members :: "(string \<times> json) list \<Rightarrow> PriceEvent option" where
  "event_of_members ms = do {
     i \<leftarrow> string_member ''event_id'' '''' ms;
     ty \<leftarrow> string_member ''event_type'' '''' ms;
     sym \<leftarrow> string_member ''symbol'' '''' ms;
     price \<leftarrow> string_member ''price_usd'' '''' ms;
     mcap \<leftarrow> string_member ''market_cap'' '''' ms;
     vol \<leftarrow> string_member ''volume_24h'' '''' ms;
     chg \<leftarrow> string_member ''change_24h'' '''' ms;
     prov \<leftarrow> string_member ''provider'' '''' ms;
     obs \<leftarrow> string_member ''observed_at'' '''' ms;
     pub \<leftarrow> string_member ''published_at'' '''' ms;
     Some \<lparr>ev_EventID = i, ev_EventType = ty, ev_Symbol = sym, ev_PriceUSD = price, ev_MarketCap = mcap,
           ev_Volume24h = vol, ev_Change24h = chg, ev_Provider = prov, ev_ObservedAt = obs,
           ev_PublishedAt = pub\<rparr>
   }"

definition latest_fields :: "LatestMarketData \<Rightarrow> string \<Rightarrow> (string \<times> string) list" where
  "latest_fields d cap =
     [(''symbol'', lmd_Symbol d), (''name'', lmd_Name d), (''price_usd'', lmd_PriceUSD d),
      (''market_cap'', lmd_MarketCap d), (''volume_24h'', lmd_Volume24h d),
      (''change_24h'', lmd_Change24h d), (''provider'', lmd_Provider d), (''captured_at'', cap)]"

text \<open>A time field: an error of \<open>MarshalJSON\<close> or \<open>UnmarshalJSON\<close> fails the whole struct.\<close>

definition marshal_latest :: "LatestMarketData \<Rightarrow> string option" where
  "marshal_latest d = map_option (\<lambda>cap. json_object (latest_fields d cap)) (marshal_time (lmd_CapturedAt d))"

fun time_member :: "string \<Rightarrow> time \<Rightarrow> (string \<times> json) list \<Rightarrow> time option" where
  "time_member name cur [] = Some cur"
| "time_member name cur ((k, v) # ms) =
     (if json_fold k = json_fold name then
        (case v of
           JString t \<Rightarrow> (case unmarshal_time t of None \<Rightarrow> None | Some i \<Rightarrow> time_member name i ms)
         | JNull \<Rightarrow> time_member name cur ms
         | _ \<Rightarrow> None)
      else time_member name cur ms)"

definition latest_of_members :: "(string \<times> json) list \<Rightarrow> LatestMarketData option" where
  "latest_of_members ms = do {
     sym \<leftarrow> string_member ''symbol'' '''' ms;
     name \<leftarrow> string_member ''name'' '''' ms;
     price \<leftarrow> string_member ''price_usd'' '''' ms;
     mcap \<leftarrow> string_member ''market_cap'' '''' ms;
     vol \<leftarrow> string_member ''volume_24h'' '''' ms;
     chg \<leftarrow> string_member ''change_24h'' '''' ms;
     prov \<leftarrow> string_member ''provider'' '''' ms;
     cap \<leftarrow> time_member ''captured_at'' zero_time ms;
     Some \<lparr>lmd_Symbol = sym, lmd_Name = name, lmd_PriceUSD = price, lmd_MarketCap = mcap,
           lmd_Volume24h = vol, lmd_Change24h = chg, lmd_Provider = prov, lmd_CapturedAt = cap\<rparr>
   }"

definition legacy_of_members :: "(string \<times> json) list \<Rightarrow> legacy_data option" where
  "legacy_of_members ms = do {
     sym \<leftarrow> string_member ''symbol'' '''' ms;
     name \<leftarrow> string_member ''name'' '''' ms;
     price \<leftarrow> string_member ''price_usd'' '''' ms;
     mcap \<leftarrow> string_member ''market_cap'' '''' ms;
     vol \<leftarrow> string_member ''volume_24h'' '''' ms;
     chg \<leftarrow> string_member ''change_24h'' '''' ms;
     prov \<leftarrow> string_member ''provider'' '''' ms;
     cap \<leftarrow> string_member ''captured_at'' '''' ms;
     Some \<lparr>lg_Symbol = sym, lg_Name = name, lg_PriceUSD = price, lg_MarketCap = mcap,
           lg_Volume24h = vol, lg_Change24h = chg, lg_Provider = prov, lg_CapturedAt = cap\<rparr>
   }"

definition unmarshal_with ::
    "(string \<Rightarrow> go_error) \<Rightarrow> ((string \<times> json) list \<Rightarrow> 'a option) \<Rightarrow> string \<Rightarrow> go_error + 'a" where
  "unmarshal_with je f s =
     (case Option.bind (json_struct s) f of None \<Rightarrow> Inl (je s) | Some x \<Rightarrow> Inr x)"

definition go_codec ::
    "(string \<Rightarrow> go_error) \<Rightarrow> ((string, redis_value) gomap \<Rightarrow> go_error + string) \<Rightarrow> codec" where
  "go_codec je mv =
     \<lparr>jc_MarshalEvent = (\<lambda>e. Inr (marshal_event e)),
      jc_UnmarshalEvent = unmarshal_with je event_of_members,
      jc_UnmarshalLegacy = unmarshal_with je legacy_of_members,
      jc_MarshalValues = mv,
      jc_MarshalLatest = (\<lambda>d. case marshal_latest d of None \<Rightarrow> Inl (je ''captured_at'') | Some s \<Rightarrow> Inr s),
      jc_UnmarshalLatest = unmarshal_with je latest_of_members,
      tf_Parse = parse_RFC3339,
      tf_Format = format_RFC3339\<rparr>"

section \<open>The contract\<close>

definition event_strings :: "PriceEvent \<Rightarrow> string list" where
  "event_strings e = map snd (event_fields e)"

definition latest_strings :: "LatestMarketData \<Rightarrow> string list" where
  "latest_strings d =
     [lmd_Symbol d, lmd_Name d, lmd_PriceUSD d, lmd_MarketCap d, lmd_Volume24h d, lmd_Change24h d,
      lmd_Provider d]"

text \<open>The times RFC 3339 can write: the days from year 1 to year 10000 are 3652059.\<close>

definition rfc3339_time :: "time \<Rightarrow> bool" where
  "rfc3339_time t \<longleftrightarrow> 0 \<le> t \<and> t < 3652059 * day_ns"

text \<open>
  What is written is read back: JSON for strings of well-formed UTF-8 (other bytes are
  replaced), RFC 3339 for times before the year 10000.
\<close>

locale event_codec =
  fixes cd :: codec
  assumes event_written: "\<exists>s. jc_MarshalEvent cd e = Inr s"
    and event_read:
      "list_all utf8_ValidString (event_strings e) \<Longrightarrow> jc_MarshalEvent cd e = Inr s \<Longrightarrow>
         jc_UnmarshalEvent cd s = Inr e"
    and latest_read:
      "list_all utf8_ValidString (latest_strings d) \<Longrightarrow> rfc3339_time (lmd_CapturedAt d) \<Longrightarrow>
         \<exists>s. jc_MarshalLatest cd d = Inr s \<and> jc_UnmarshalLatest cd s = Inr d"
    and time_read:
      "rfc3339_time t \<Longrightarrow> tf_Parse cd (tf_Format cd t) \<noteq> None \<and> utf8_ValidString (tf_Format cd t)"

section \<open>The program's codec keeps it\<close>

lemma string_member_other:
  "list_all (\<lambda>(k, v). json_fold k \<noteq> json_fold name) ms \<Longrightarrow> string_member name cur ms = Some cur"
  by (induction ms) auto

lemma struct_object:
  assumes "fs \<noteq> []" and "list_all (\<lambda>(k, v). list_all is_ascii k \<and> utf8_ValidString v) fs"
  shows "json_struct (json_object fs) = Some (map (\<lambda>(k, v). (k, JString v)) fs)"
proof -
  have "list_all (\<lambda>(k, v). utf8_ValidString k \<and> utf8_ValidString v) fs"
    using assms(2) by (rule list.pred_mono_strong) (auto intro: utf8_ValidString_ascii)
  with json_parse_object [OF assms(1)] show ?thesis by (simp add: json_struct_def)
qed

lemma event_fields_read:
  "event_of_members (map (\<lambda>(k, v). (k, JString v)) (event_fields e)) = Some e"
  by (simp add: event_of_members_def event_fields_def char_upper_def)

lemma latest_fields_read:
  assumes "unmarshal_time cap = Some (lmd_CapturedAt d)"
  shows "latest_of_members (map (\<lambda>(k, v). (k, JString v)) (latest_fields d cap)) = Some d"
  using assms by (simp add: latest_of_members_def latest_fields_def char_upper_def)

lemma unmarshal_event:
  assumes "list_all utf8_ValidString (event_strings e)"
  shows "unmarshal_with je event_of_members (marshal_event e) = Inr e"
proof -
  have "list_all (\<lambda>(k, v). list_all is_ascii k \<and> utf8_ValidString v) (event_fields e)"
    using assms by (simp add: event_strings_def event_fields_def is_ascii_def)
  then have "json_struct (marshal_event e) = Some (map (\<lambda>(k, v). (k, JString v)) (event_fields e))"
    unfolding marshal_event_def by (intro struct_object) (simp add: event_fields_def)
  then show ?thesis by (simp add: unmarshal_with_def event_fields_read)
qed

lemma unmarshal_latest:
  assumes "list_all utf8_ValidString (latest_strings d)" and "rfc3339_time (lmd_CapturedAt d)"
  shows "\<exists>s. marshal_latest d = Some s \<and> unmarshal_with je latest_of_members s = Inr d"
proof -
  let ?cap = "format_RFC3339Nano (lmd_CapturedAt d)"
  note t = unmarshal_marshal_time [of "lmd_CapturedAt d"] format_RFC3339Nano_ascii [of "lmd_CapturedAt d"]
  have cap: "utf8_ValidString ?cap" using assms(2) t by (simp add: rfc3339_time_def utf8_ValidString_ascii)
  have "list_all (\<lambda>(k, v). list_all is_ascii k \<and> utf8_ValidString v) (latest_fields d ?cap)"
    using assms(1) cap by (simp add: latest_strings_def latest_fields_def is_ascii_def)
  then have "json_struct (json_object (latest_fields d ?cap))
      = Some (map (\<lambda>(k, v). (k, JString v)) (latest_fields d ?cap))"
    by (intro struct_object) (simp_all add: latest_fields_def)
  with t assms(2) show ?thesis
    by (simp add: marshal_latest_def unmarshal_with_def latest_fields_read rfc3339_time_def)
qed

interpretation gc: event_codec "go_codec je mv" for je mv
proof
  fix e show "\<exists>s. jc_MarshalEvent (go_codec je mv) e = Inr s" by (simp add: go_codec_def)
next
  fix e s
  assume "list_all utf8_ValidString (event_strings e)" "jc_MarshalEvent (go_codec je mv) e = Inr s"
  then show "jc_UnmarshalEvent (go_codec je mv) s = Inr e"
    using unmarshal_event [of e je] by (auto simp: go_codec_def)
next
  fix d
  assume "list_all utf8_ValidString (latest_strings d)" "rfc3339_time (lmd_CapturedAt d)"
  from unmarshal_latest [OF this, of je]
  show "\<exists>s. jc_MarshalLatest (go_codec je mv) d = Inr s \<and> jc_UnmarshalLatest (go_codec je mv) s = Inr d"
    by (auto simp: go_codec_def)
next
  fix t assume "rfc3339_time t"
  then show "tf_Parse (go_codec je mv) (tf_Format (go_codec je mv) t) \<noteq> None
      \<and> utf8_ValidString (tf_Format (go_codec je mv) t)"
    using parse_format_RFC3339 [of t] format_RFC3339_ascii [of t]
    by (simp add: go_codec_def rfc3339_time_def utf8_ValidString_ascii)
qed

end
