(* ===== verification/Market_Cache.thy ===== *)
theory Market_Cache
  imports Stream_Consumer Event_Codec
begin

text \<open>
  \<open>internal/cache/redis.go\<close>: the latest value of each symbol under a key of its own, and
  the publication of price events to the Redis stream that the consumer of
  \<open>Stream_Consumer\<close> reads. Redis and the UUID generator are functions on the world
  (\<open>redis_client\<close>). \<open>cache.PriceEvent\<close> has the fields and JSON names of
  \<open>stream.PriceEvent\<close>, so both are the record \<open>PriceEvent\<close>.
\<close>

record 'w redis_client =
  rc_Set :: "string \<Rightarrow> string \<Rightarrow> duration \<Rightarrow> 'w \<Rightarrow> go_error option \<times> 'w"
  rc_Pipeline :: "(string \<times> string \<times> duration) list \<Rightarrow> 'w \<Rightarrow> go_error option \<times> 'w"
  rc_Get :: "string \<Rightarrow> 'w \<Rightarrow> (go_error + string) \<times> 'w"
  rc_MGet :: "string list \<Rightarrow> 'w \<Rightarrow> (go_error + redis_value option list) \<times> 'w"
  rc_XAdd :: "string \<Rightarrow> int \<Rightarrow> bool \<Rightarrow> (string, redis_value) gomap \<Rightarrow> 'w \<Rightarrow> go_error option \<times> 'w"
  rc_XRange :: "string \<Rightarrow> string \<Rightarrow> string \<Rightarrow> 'w \<Rightarrow> (go_error + XMessage list) \<times> 'w"
  rc_Ping :: "'w \<Rightarrow> go_error option \<times> 'w"
  rc_NewUUID :: "'w \<Rightarrow> string \<times> 'w"
  rc_codec :: codec
  rc_Now :: "'w \<Rightarrow> time \<times> 'w"

definition latestKeyPrefix :: string where
  "latestKeyPrefix = ''market:latest:''"

definition streamKey :: string where
  "streamKey = ''market:events''"

definition streamMaxLen :: int where
  "streamMaxLen = 10000"

definition SetLatest :: "'w redis_client \<Rightarrow> LatestMarketData \<Rightarrow> 'w \<Rightarrow> go_error option \<times> 'w" where
  "SetLatest rc data w =
     (let key = latestKeyPrefix @ lmd_Symbol data
      in case jc_MarshalLatest (rc_codec rc) data of
           Inl err \<Rightarrow> (Some (Wrapped ''marshal latest market data: '' err ''''), w)
         | Inr payload \<Rightarrow>
             (case rc_Set rc key payload (5 * minute) w of
                (Some err, w1) \<Rightarrow>
                  (Some (Wrapped (''set latest for '' @ lmd_Symbol data @ '': '') err ''''), w1)
              | (None, w1) \<Rightarrow> (None, w1)))"

fun pipeline_commands ::
    "codec \<Rightarrow> LatestMarketData list \<Rightarrow> go_error + (string \<times> string \<times> duration) list" where
  "pipeline_commands cd [] = Inr []"
| "pipeline_commands cd (data # entries) =
     (case jc_MarshalLatest cd data of
        Inl err \<Rightarrow>
          Inl (Wrapped (''marshal latest market data for '' @ lmd_Symbol data @ '': '') err '''')
      | Inr payload \<Rightarrow>
          (case pipeline_commands cd entries of
             Inl err \<Rightarrow> Inl err
           | Inr cmds \<Rightarrow> Inr ((latestKeyPrefix @ lmd_Symbol data, payload, 5 * minute) # cmds)))"

definition SetLatestBatch :: "'w redis_client \<Rightarrow> LatestMarketData list \<Rightarrow> 'w \<Rightarrow> go_error option \<times> 'w" where
  "SetLatestBatch rc entries w =
     (if entries = [] then (None, w)
      else case pipeline_commands (rc_codec rc) entries of
             Inl err \<Rightarrow> (Some err, w)
           | Inr cmds \<Rightarrow>
               (case rc_Pipeline rc cmds w of
                  (Some err, w1) \<Rightarrow>
                    (Some (Wrapped (''pipeline set batch ('' @ strconv_Itoa (int (length entries))
                                      @ '' entries): '') err ''''), w1)
                | (None, w1) \<Rightarrow> (None, w1)))"

definition GetLatest ::
    "'w redis_client \<Rightarrow> string \<Rightarrow> 'w \<Rightarrow> (go_error + LatestMarketData option) \<times> 'w" where
  "GetLatest rc symbol w =
     (let key = latestKeyPrefix @ symbol
      in case rc_Get rc key w of
           (Inl err, w1) \<Rightarrow>
             if errors_Is err RedisNil then (Inr None, w1)
             else (Inl (Wrapped (''get latest for '' @ symbol @ '': '') err ''''), w1)
         | (Inr payload, w1) \<Rightarrow>
             (case jc_UnmarshalLatest (rc_codec rc) payload of
                Inl err \<Rightarrow> (Inl (Wrapped (''unmarshal latest for '' @ symbol @ '': '') err ''''), w1)
              | Inr data \<Rightarrow> (Inr (Some data), w1)))"

fun decode_payloads :: "codec \<Rightarrow> redis_value option list \<Rightarrow> LatestMarketData list" where
  "decode_payloads cd [] = []"
| "decode_payloads cd (p # ps) =
     (case p of
        Some (RString str) \<Rightarrow>
          (case jc_UnmarshalLatest cd str of
             Inl _ \<Rightarrow> decode_payloads cd ps
           | Inr data \<Rightarrow> data # decode_payloads cd ps)
      | _ \<Rightarrow> decode_payloads cd ps)"

definition GetAllLatest ::
    "'w redis_client \<Rightarrow> string list \<Rightarrow> 'w \<Rightarrow> (go_error + LatestMarketData list) \<times> 'w" where
  "GetAllLatest rc symbols w =
     (if symbols = [] then (Inr [], w)
      else
        let keys = map (\<lambda>s. latestKeyPrefix @ s) symbols
        in case rc_MGet rc keys w of
             (Inl err, w1) \<Rightarrow> (Inl (Wrapped ''mget latest: '' err ''''), w1)
           | (Inr payloads, w1) \<Rightarrow> (Inr (decode_payloads (rc_codec rc) payloads), w1))"

definition published_event :: "codec \<Rightarrow> string \<Rightarrow> time \<Rightarrow> LatestMarketData \<Rightarrow> PriceEvent" where
  "published_event cd uuid now data =
     \<lparr>ev_EventID = uuid, ev_EventType = ''market.price.updated'', ev_Symbol = lmd_Symbol data,
      ev_PriceUSD = lmd_PriceUSD data, ev_MarketCap = lmd_MarketCap data,
      ev_Volume24h = lmd_Volume24h data, ev_Change24h = lmd_Change24h data,
      ev_Provider = lmd_Provider data, ev_ObservedAt = tf_Format cd (lmd_CapturedAt data),
      ev_PublishedAt = tf_Format cd now\<rparr>"

definition stream_values :: "string \<Rightarrow> string \<Rightarrow> (string, redis_value) gomap" where
  "stream_values symbol payload = [(''symbol'', RString symbol), (''data'', RString payload)]"

definition PublishEvent :: "'w redis_client \<Rightarrow> LatestMarketData \<Rightarrow> 'w \<Rightarrow> go_error option \<times> 'w" where
  "PublishEvent rc data w =
     (case rc_Now rc w of
        (now, w1) \<Rightarrow>
          (case rc_NewUUID rc w1 of
             (uuid, w2) \<Rightarrow>
               (case jc_MarshalEvent (rc_codec rc) (published_event (rc_codec rc) uuid now data) of
                  Inl err \<Rightarrow> (Some (Wrapped ''marshal event: '' err ''''), w2)
                | Inr payload \<Rightarrow>
                    (case rc_XAdd rc streamKey streamMaxLen True
                            (stream_values (lmd_Symbol data) payload) w2 of
                       (Some err, w3) \<Rightarrow>
                         (Some (Wrapped (''publish event for '' @ lmd_Symbol data @ '': '') err ''''), w3)
                     | (None, w3) \<Rightarrow> (None, w3)))))"

definition cache_Ping :: "'w redis_client \<Rightarrow> 'w \<Rightarrow> go_error option \<times> 'w" where
  "cache_Ping rc w =
     (case rc_Ping rc w of
        (Some err, w1) \<Rightarrow> (Some (Wrapped ''redis ping: '' err ''''), w1)
      | (None, w1) \<Rightarrow> (None, w1))"

section \<open>What is relied on of Redis\<close>

text \<open>A value that was set is read back as long as nothing else happens.\<close>

definition redis_stores :: "'w redis_client \<Rightarrow> bool" where
  "redis_stores rc \<longleftrightarrow>
     (\<forall>k v ttl w w'. rc_Set rc k v ttl w = (None, w') \<longrightarrow> rc_Get rc k w' = (Inr v, w'))"

text \<open>A record and a codec for closed examples.\<close>

definition demo_latest :: LatestMarketData where
  "demo_latest =
     \<lparr>lmd_Symbol = ''BTC'', lmd_Name = ''Bitcoin'', lmd_PriceUSD = ''42'', lmd_MarketCap = '''',
      lmd_Volume24h = '''', lmd_Change24h = '''', lmd_Provider = ''coincap'', lmd_CapturedAt = 7\<rparr>"

definition plain_codec :: codec where
  "plain_codec = go_codec (\<lambda>_. ErrorString ''invalid'') (\<lambda>_. Inl (ErrorString ''unsupported''))"

text \<open>A Redis server as a table of keys, with the entries of the stream.\<close>

type_synonym kv_world = "(string, string) gomap \<times> XMessage list"

definition kv_client :: "codec \<Rightarrow> kv_world redis_client" where
  "kv_client cd =
     \<lparr>rc_Set = (\<lambda>k v d (kv, xs). (None, (gm_put k v kv, xs))),
      rc_Pipeline = (\<lambda>cmds (kv, xs). (None, (fold (\<lambda>(k, v, d) m. gm_put k v m) cmds kv, xs))),
      rc_Get = (\<lambda>k (kv, xs). (case gm_get kv k of None \<Rightarrow> Inl RedisNil | Some v \<Rightarrow> Inr v, (kv, xs))),
      rc_MGet = (\<lambda>ks (kv, xs). (Inr (map (\<lambda>k. map_option RString (gm_get kv k)) ks), (kv, xs))),
      rc_XAdd = (\<lambda>_ _ _ vals (kv, xs).
        (None, (kv, xs @ [\<lparr>xm_ID = strconv_Itoa (int (length xs)) @ ''-0'', xm_Values = vals\<rparr>]))),
      rc_XRange = (\<lambda>_ _ _ (kv, xs). (Inr xs, (kv, xs))),
      rc_Ping = (\<lambda>w. (None, w)), rc_NewUUID = (\<lambda>w. (''uuid-1'', w)),
      rc_codec = cd, rc_Now = (\<lambda>w. (0, w))\<rparr>"

section \<open>Lemmas\<close>

context event_codec
begin

lemma published_event_valid:
  assumes "uuid \<noteq> ''''" and "lmd_Symbol data \<noteq> ''''"
    and "lmd_PriceUSD data \<noteq> ''''" and "lmd_Provider data \<noteq> ''''"
    and "rfc3339_time now" and "rfc3339_time (lmd_CapturedAt data)"
  shows "valid_event cd (published_event cd uuid now data)"
  using assms time_read
  by (simp add: valid_event_def published_event_def timestamp_ok_def EventTypePriceUpdated_def)

lemma published_event_utf8:
  assumes "utf8_ValidString uuid" and "list_all utf8_ValidString (latest_strings data)"
    and "rfc3339_time now" and "rfc3339_time (lmd_CapturedAt data)"
  shows "list_all utf8_ValidString (event_strings (published_event cd uuid now data))"
proof -
  have "utf8_ValidString ''market.price.updated''"
    by (rule utf8_ValidString_ascii) (simp add: is_ascii_def)
  then show ?thesis
    using assms time_read
    by (simp add: event_strings_def event_fields_def latest_strings_def published_event_def)
qed

text \<open>A published event is one the consumer accepts, unchanged.\<close>

lemma parse_published:
  assumes "uuid \<noteq> ''''" and "lmd_Symbol data \<noteq> ''''"
    and "lmd_PriceUSD data \<noteq> ''''" and "lmd_Provider data \<noteq> ''''"
    and "utf8_ValidString uuid" and "list_all utf8_ValidString (latest_strings data)"
    and "rfc3339_time now" and "rfc3339_time (lmd_CapturedAt data)"
    and "jc_MarshalEvent cd (published_event cd uuid now data) = Inr payload"
  shows "parseEntry cd t \<lparr>xm_ID = i, xm_Values = stream_values symbol payload\<rparr>
    = Inr (published_event cd uuid now data)"
proof -
  let ?e = "published_event cd uuid now data"
  have valid: "valid_event cd ?e" by (rule published_event_valid) (use assms in auto)
  have "jc_UnmarshalEvent cd payload = Inr ?e"
    by (rule event_read [OF published_event_utf8 assms(9)]) (use assms in auto)
  moreover have "ev_EventID ?e \<noteq> ''''" using valid by (simp add: valid_event_def)
  moreover have "PriceEvent_Validate cd ?e = None" using valid by (simp add: Validate_None_iff)
  ultimately show ?thesis
    by (simp add: parseEntry_def string_field_def stream_values_def gm_get_def parseDataField_def
        ParseEvent_def validated_def)
qed

lemma get_after_set:
  assumes "rc_codec rc = cd" and "redis_stores rc"
    and "list_all utf8_ValidString (latest_strings data)" and "rfc3339_time (lmd_CapturedAt data)"
    and "SetLatest rc data w = (None, w1)"
  shows "GetLatest rc (lmd_Symbol data) w1 = (Inr (Some data), w1)"
proof -
  obtain s where s: "jc_MarshalLatest cd data = Inr s" "jc_UnmarshalLatest cd s = Inr data"
    using latest_read [OF assms(3,4)] by blast
  have "rc_Set rc (latestKeyPrefix @ lmd_Symbol data) s (5 * minute) w = (None, w1)"
    using assms(1,5) s(1) by (auto simp: SetLatest_def Let_def split: prod.splits option.splits)
  then have "rc_Get rc (latestKeyPrefix @ lmd_Symbol data) w1 = (Inr s, w1)"
    using assms(2) by (auto simp: redis_stores_def)
  with s(2) assms(1) show ?thesis by (simp add: GetLatest_def Let_def)
qed

end

lemma demo_latest_strings: "list_all utf8_ValidString (''uuid-1'' # latest_strings demo_latest)"
  by (auto simp: demo_latest_def latest_strings_def is_ascii_def intro!: utf8_ValidString_ascii)

lemma rfc3339_time_early: "0 \<le> t \<Longrightarrow> t \<le> 1000 \<Longrightarrow> rfc3339_time t"
  by (simp add: rfc3339_time_def day_ns_def second_def)

lemma plain_codec_event: "jc_MarshalEvent plain_codec e = Inr (marshal_event e)"
  by (simp add: plain_codec_def go_codec_def)

section \<open>Properties\<close>

text \<open>
  What the ingestor publishes the realtime gateway understands: for data with a symbol, a
  price and a provider, in well-formed UTF-8 and at a time before the year 10000, the JSON
  entry \<open>PublishEvent\<close> adds to the stream parses, under any stream identifier, to an event
  that validates, with the UUID as its event identifier and every market field unchanged.
\<close>

theorem publish_parse_roundtrip:
  assumes "uuid \<noteq> ''''" and "lmd_Symbol data \<noteq> ''''"
    and "lmd_PriceUSD data \<noteq> ''''" and "lmd_Provider data \<noteq> ''''"
    and "utf8_ValidString uuid" and "list_all utf8_ValidString (latest_strings data)"
    and "rfc3339_time now" and "rfc3339_time (lmd_CapturedAt data)"
  shows "\<exists>e. parseEntry (go_codec je mv) t
      \<lparr>xm_ID = i, xm_Values = stream_values (lmd_Symbol data)
         (marshal_event (published_event (go_codec je mv) uuid now data))\<rparr> = Inr e \<and>
    PriceEvent_Validate (go_codec je mv) e = None \<and> ev_EventID e = uuid \<and> ev_Symbol e = lmd_Symbol data \<and>
    ev_PriceUSD e = lmd_PriceUSD data \<and> ev_MarketCap e = lmd_MarketCap data \<and>
    ev_Volume24h e = lmd_Volume24h data \<and> ev_Change24h e = lmd_Change24h data \<and>
    ev_Provider e = lmd_Provider data"
proof -
  have "jc_MarshalEvent (go_codec je mv) e = Inr (marshal_event e)" for e by (simp add: go_codec_def)
  from gc.parse_published [OF assms this] gc.published_event_valid [OF assms(1-4,7,8), of je mv]
  show ?thesis by (auto simp: Validate_None_iff) (simp_all add: published_event_def)
qed

theorem publish_parse_roundtrip_witness:
  "\<exists>e. parseEntry plain_codec 0
      \<lparr>xm_ID = ''1-0'', xm_Values = stream_values ''BTC''
         (marshal_event (published_event plain_codec ''uuid-1'' 0 demo_latest))\<rparr> = Inr e \<and>
     ev_EventID e = ''uuid-1'' \<and> ev_PriceUSD e = ''42''"
  using publish_parse_roundtrip [of "''uuid-1''" demo_latest 0 "\<lambda>_. ErrorString ''invalid''"
      "\<lambda>_. Inl (ErrorString ''unsupported'')" 0 "''1-0''"] demo_latest_strings rfc3339_time_early
  unfolding plain_codec_def [symmetric] by (auto simp: demo_latest_def)

text \<open>
  The cache reads back what it stored: when Redis keeps the value it was given, a record in
  well-formed UTF-8 with a time before the year 10000 that \<open>SetLatest\<close> stored is the record
  \<open>GetLatest\<close> returns, to the nanosecond.
\<close>

theorem cache_get_after_set:
  assumes "rc_codec rc = go_codec je mv" and "redis_stores rc"
    and "list_all utf8_ValidString (latest_strings data)" and "rfc3339_time (lmd_CapturedAt data)"
    and "SetLatest rc data w = (None, w1)"
  shows "GetLatest rc (lmd_Symbol data) w1 = (Inr (Some data), w1)"
  by (rule gc.get_after_set [OF assms])

theorem cache_get_after_set_witness:
  "fst (GetLatest (kv_client plain_codec) ''BTC'' (snd (SetLatest (kv_client plain_codec) demo_latest ([], []))))
     = Inr (Some demo_latest)"
proof -
  let ?rc = "kv_client plain_codec"
  have codec: "rc_codec ?rc = go_codec (\<lambda>_. ErrorString ''invalid'') (\<lambda>_. Inl (ErrorString ''unsupported''))"
    by (simp add: kv_client_def plain_codec_def)
  have stores: "redis_stores ?rc" by (auto simp: redis_stores_def kv_client_def gm_simps)
  have time: "rfc3339_time (lmd_CapturedAt demo_latest)" by (simp add: demo_latest_def rfc3339_time_early)
  have strings: "list_all utf8_ValidString (latest_strings demo_latest)" using demo_latest_strings by simp
  obtain s where "jc_MarshalLatest plain_codec demo_latest = Inr s"
    using gc.latest_read [OF strings time] unfolding plain_codec_def by blast
  then have "SetLatest ?rc demo_latest ([], []) = (None, snd (SetLatest ?rc demo_latest ([], [])))"
    by (simp add: SetLatest_def kv_client_def split_beta)
  from cache_get_after_set [OF codec stores strings time this] show ?thesis
    by (simp add: demo_latest_def)
qed

end
