(* ===== verification/Ingestor.thy ===== *)
theory Ingestor
  imports Fallback Market_Cache
begin

text \<open>
  \<open>internal/worker/ingestor.go\<close> and \<open>internal/scheduler/scheduler.go\<close>: one ingestion
  cycle (load coins, fetch, validate, store, log, cache, publish) and its periodic execution.

  The repositories are functions on the world, as are Redis and the clock; the provider is a
  single one or the orchestrator of \<open>Fallback\<close>, whose state the cycle returns. A histogram
  observation counts one in the cell of its metric. Validation reads the clock once per
  record.
\<close>

record 'w ingest_env =
  ie_GetActiveCoins :: "'w \<Rightarrow> (go_error + Coin list) \<times> 'w"
  ie_InsertBatch :: "PriceSnapshot list \<Rightarrow> 'w \<Rightarrow> go_error option \<times> 'w"
  ie_InsertSyncLog :: "ProviderSyncLog \<Rightarrow> 'w \<Rightarrow> go_error option \<times> 'w"
  ie_redis :: "'w redis_client"
  ie_runtime :: "'w runtime"
  ie_parse_err :: "string \<Rightarrow> string"
  ie_show_time :: "time \<Rightarrow> string"
  ie_quote :: "string \<Rightarrow> string"

text \<open>Where the data comes from: exactly one of the two pointers of the struct is set.\<close>

datatype 'w source = SingleProvider "'w Provider" | Orchestrated "'w FallbackOrchestrator"

record 'w Ingestor =
  ing_source :: "'w source"
  ing_metrics :: metrics

definition NewIngestor :: "'w Provider \<Rightarrow> 'w Ingestor" where
  "NewIngestor prov = \<lparr>ing_source = SingleProvider prov, ing_metrics = m_empty\<rparr>"

definition NewIngestorWithFallback :: "'w FallbackOrchestrator \<Rightarrow> 'w Ingestor" where
  "NewIngestorWithFallback orchestrator =
     \<lparr>ing_source = Orchestrated orchestrator, ing_metrics = m_empty\<rparr>"

definition ingestor_providerName :: "'w Ingestor \<Rightarrow> string" where
  "ingestor_providerName ing =
     (case ing_source ing of Orchestrated fo \<Rightarrow> ActiveProvider fo | SingleProvider p \<Rightarrow> pv_Name p)"

fun findCoin :: "Coin list \<Rightarrow> string \<Rightarrow> Coin option" where
  "findCoin [] symbol = None"
| "findCoin (c # cs) symbol = (if coin_Symbol c = symbol then Some c else findCoin cs symbol)"

definition dur_Milliseconds :: "duration \<Rightarrow> int" where
  "dur_Milliseconds d = sgn d * (\<bar>d\<bar> div 1000000)"

definition ing_count :: "string \<Rightarrow> string list \<Rightarrow> 'w Ingestor \<Rightarrow> 'w Ingestor" where
  "ing_count name labels ing = ing\<lparr>ing_metrics := m_inc name labels (ing_metrics ing)\<rparr>"

definition recordSuccess ::
    "'w ingest_env \<Rightarrow> time \<Rightarrow> string \<Rightarrow> 'w Ingestor \<Rightarrow> 'w \<Rightarrow> 'w Ingestor \<times> 'w" where
  "recordSuccess env start provName ing w =
     (case rt_Now (ie_runtime env) w of
        (finished, w1) \<Rightarrow>
          (case rt_Now (ie_runtime env) w1 of
             (now, w2) \<Rightarrow>
               (let log = \<lparr>psl_ID = 0, psl_Provider = provName,
                           psl_RequestDurationMs = dur_Milliseconds (time_Sub now start),
                           psl_Status = ''success'', psl_ErrorMessage = None, psl_StartedAt = start,
                           psl_FinishedAt = Some finished\<rparr>
                in (ing, snd (ie_InsertSyncLog env log w2)))))"

definition recordFailure ::
    "'w ingest_env \<Rightarrow> time \<Rightarrow> string \<Rightarrow> go_error \<Rightarrow> 'w Ingestor \<Rightarrow> 'w \<Rightarrow> 'w Ingestor \<times> 'w" where
  "recordFailure env start provName cause ing w =
     (let ing1 = ing_count ''ingestion_failure_total'' [] ing
      in case rt_Now (ie_runtime env) w of
           (finished, w1) \<Rightarrow>
             (case rt_Now (ie_runtime env) w1 of
                (now, w2) \<Rightarrow>
                  (let log = \<lparr>psl_ID = 0, psl_Provider = provName,
                              psl_RequestDurationMs = dur_Milliseconds (time_Sub now start),
                              psl_Status = ''failure'',
                              psl_ErrorMessage = Some (error_text (ie_quote env) cause),
                              psl_StartedAt = start, psl_FinishedAt = Some finished\<rparr>
                   in (ing1, snd (ie_InsertSyncLog env log w2)))))"

section \<open>Building the snapshots\<close>

definition make_snapshot :: "Coin \<Rightarrow> time \<Rightarrow> MarketData \<Rightarrow> PriceSnapshot" where
  "make_snapshot coin now md =
     \<lparr>ps_ID = 0, ps_CoinID = coin_ID coin, ps_PriceUSD = md_PriceUSD md, ps_MarketCap = md_MarketCap md,
      ps_Volume24h = md_Volume24h md, ps_Change24h = md_Change24h md, ps_Provider = md_Provider md,
      ps_CapturedAt = now\<rparr>"

definition make_latest :: "Coin \<Rightarrow> time \<Rightarrow> MarketData \<Rightarrow> LatestMarketData" where
  "make_latest coin now md =
     \<lparr>lmd_Symbol = coin_Symbol coin, lmd_Name = coin_Name coin, lmd_PriceUSD = md_PriceUSD md,
      lmd_MarketCap = md_MarketCap md, lmd_Volume24h = md_Volume24h md,
      lmd_Change24h = md_Change24h md, lmd_Provider = md_Provider md, lmd_CapturedAt = now\<rparr>"

fun build_snapshots ::
    "'w ingest_env \<Rightarrow> Coin list \<Rightarrow> time \<Rightarrow> MarketData list \<Rightarrow> metrics \<Rightarrow> 'w
       \<Rightarrow> (PriceSnapshot list \<times> LatestMarketData list) \<times> metrics \<times> 'w" where
  "build_snapshots env coins now [] m w = (([], []), m, w)"
| "build_snapshots env coins now (md # mds) m w =
     (case rt_Now (ie_runtime env) w of
        (t, w1) \<Rightarrow>
          (case MarketData_Validate (ie_parse_err env) (ie_show_time env) t md m of
             (Some err, m1) \<Rightarrow> build_snapshots env coins now mds m1 w1
           | (None, m1) \<Rightarrow>
               (case findCoin coins (md_Symbol md) of
                  None \<Rightarrow> build_snapshots env coins now mds m1 w1
                | Some coin \<Rightarrow>
                    (case build_snapshots env coins now mds m1 w1 of
                       ((snaps, latest), m2, w2) \<Rightarrow>
                         ((make_snapshot coin now md # snaps, make_latest coin now md # latest), m2, w2)))))"

fun publish_all :: "'w ingest_env \<Rightarrow> LatestMarketData list \<Rightarrow> 'w \<Rightarrow> 'w" where
  "publish_all env [] w = w"
| "publish_all env (ld # lds) w =
     publish_all env lds (snd (PublishEvent (ie_redis env) ld (snd (SetLatest (ie_redis env) ld w))))"

section \<open>The cycle\<close>

definition fetch_from ::
    "'w ingest_env \<Rightarrow> string list \<Rightarrow> 'w Ingestor \<Rightarrow> 'w
       \<Rightarrow> (MarketData list \<times> go_error option) \<times> string \<times> 'w Ingestor \<times> 'w" where
  "fetch_from env syms ing w =
     (case ing_source ing of
        Orchestrated fo \<Rightarrow>
          (case orchestrator_FetchMarketData (ie_runtime env) syms fo w of
             (r, fo1, w1) \<Rightarrow> (r, ActiveProvider fo1, ing\<lparr>ing_source := Orchestrated fo1\<rparr>, w1))
      | SingleProvider p \<Rightarrow>
          (case pv_Fetch p syms w of (r, w1) \<Rightarrow> (r, pv_Name p, ing, w1)))"

text \<open>From the fetched data on: steps 3 to 8 of the cycle.\<close>

definition store_and_publish ::
    "'w ingest_env \<Rightarrow> time \<Rightarrow> Coin list \<Rightarrow> string \<Rightarrow> MarketData list \<Rightarrow> 'w Ingestor \<Rightarrow> 'w
       \<Rightarrow> go_error option \<times> 'w Ingestor \<times> 'w" where
  "store_and_publish env start coins usedProvider dataList ing w =
     (case rt_Now (ie_runtime env) w of
        (now, w1) \<Rightarrow>
          (case build_snapshots env coins now dataList (ing_metrics ing) w1 of
             ((snapshots, latestData), m, w2) \<Rightarrow>
               (let ing1 = ing\<lparr>ing_metrics := m\<rparr>
                in if snapshots = []
                   then (case recordFailure env start usedProvider
                                (ErrorString ''no valid snapshots after validation'') ing1 w2 of
                           (ing2, w3) \<Rightarrow>
                             (Some (ErrorString ''no valid market data after validation''), ing2, w3))
                   else
                     (case ie_InsertBatch env snapshots w2 of
                        (Some err, w3) \<Rightarrow>
                          (case recordFailure env start usedProvider err ing1 w3 of
                             (ing2, w4) \<Rightarrow> (Some (Wrapped ''store snapshots: '' err ''''), ing2, w4))
                      | (None, w3) \<Rightarrow>
                          (case recordSuccess env start usedProvider ing1 w3 of
                             (ing2, w4) \<Rightarrow>
                               (let w5 = publish_all env latestData w4
                                in case rt_Now (ie_runtime env) w5 of
                                     (_, w6) \<Rightarrow>
                                       (let ing3 = ing_count ''ingestion_duration_seconds_count'' [] ing2;
                                            ing4 = ing_count ''ingestion_success_total'' [] ing3;
                                            ing5 = ing4\<lparr>ing_metrics :=
                                                     m_set ''data_freshness_seconds'' [] 0 (ing_metrics ing4)\<rparr>
                                        in (None, ing5, w6))))))))"

definition RunCycle ::
    "'w ingest_env \<Rightarrow> 'w Ingestor \<Rightarrow> 'w \<Rightarrow> go_error option \<times> 'w Ingestor \<times> 'w" where
  "RunCycle env ing w =
     (case rt_Now (ie_runtime env) w of
        (start, w1) \<Rightarrow>
          (case ie_GetActiveCoins env w1 of
             (Inl err, w2) \<Rightarrow>
               (case recordFailure env start (ingestor_providerName ing) err ing w2 of
                  (ing1, w3) \<Rightarrow> (Some (Wrapped ''load active coins: '' err ''''), ing1, w3))
           | (Inr coins, w2) \<Rightarrow>
               if coins = [] then (None, ing, w2)
               else
                 (let providerSymbols = map coin_ProviderSymbol coins
                  in case rt_Now (ie_runtime env) w2 of
                       (providerStart, w3) \<Rightarrow>
                         (case fetch_from env providerSymbols ing w3 of
                            ((dataList, fetchErr), usedProvider, ing1, w4) \<Rightarrow>
                              (case rt_Now (ie_runtime env) w4 of
                                 (providerEnd, w5) \<Rightarrow>
                                   (case fetchErr of
                                      Some err \<Rightarrow>
                                        (case recordFailure env start usedProvider err
                                                (ing_count ''provider_request_duration_seconds_count''
                                                   [usedProvider, ''error''] ing1) w5 of
                                           (ing2, w6) \<Rightarrow>
                                             (Some (Wrapped ''fetch market data: '' err ''''), ing2, w6))
                                    | None \<Rightarrow>
                                        store_and_publish env start coins usedProvider dataList
                                          (ing_count ''provider_request_duration_seconds_count''
                                             [usedProvider, ''success''] ing1) w5))))))"

section \<open>Scheduler\<close>

text \<open>
  \<open>execute\<close> runs the function only if it gets the lock. The lock is taken and released inside
  \<open>execute\<close>; calls may overlap in time, so a call is split into its start and its end.
\<close>

record Scheduler =
  sch_running :: bool
  sch_active :: nat
  sch_started :: nat
  sch_skipped :: nat

definition scheduler_New :: Scheduler where
  "scheduler_New = \<lparr>sch_running = False, sch_active = 0, sch_started = 0, sch_skipped = 0\<rparr>"

definition execute_begin :: "Scheduler \<Rightarrow> bool \<times> Scheduler" where
  "execute_begin s =
     (if sch_running s then (False, s\<lparr>sch_skipped := Suc (sch_skipped s)\<rparr>)
      else (True, s\<lparr>sch_running := True, sch_active := Suc (sch_active s),
                    sch_started := Suc (sch_started s)\<rparr>))"

definition execute_end :: "Scheduler \<Rightarrow> Scheduler" where
  "execute_end s = s\<lparr>sch_running := False, sch_active := sch_active s - 1\<rparr>"

text \<open>
  \<open>Start\<close> as a function of the ready cases of its \<open>select\<close>: the first execution, then one per
  tick until the context is done. The ticker runs in the same goroutine.
\<close>

datatype sched_case = SchedDone | SchedTick

fun scheduler_loop :: "('w \<Rightarrow> go_error option \<times> 'w) \<Rightarrow> sched_case list \<Rightarrow> Scheduler \<Rightarrow> 'w \<Rightarrow> bool \<times> Scheduler \<times> 'w" where
  "scheduler_loop fn [] s w = (False, s, w)"
| "scheduler_loop fn (SchedDone # xs) s w = (True, s, w)"
| "scheduler_loop fn (SchedTick # xs) s w =
     (case execute_begin s of
        (False, s1) \<Rightarrow> scheduler_loop fn xs s1 w
      | (True, s1) \<Rightarrow> (case fn w of (_, w1) \<Rightarrow> scheduler_loop fn xs (execute_end s1) w1))"

definition scheduler_Start ::
    "('w \<Rightarrow> go_error option \<times> 'w) \<Rightarrow> sched_case list \<Rightarrow> Scheduler \<Rightarrow> 'w \<Rightarrow> bool \<times> Scheduler \<times> 'w" where
  "scheduler_Start fn xs s w = scheduler_loop fn (SchedTick # xs) s w"

section \<open>What the services leave alone\<close>

text \<open>
  An observation of the world that the clock, the coin table and the providers do not change. Each
  theorem adds which of the writing services may change it.
\<close>

definition source_keeps :: "('w \<Rightarrow> 'c) \<Rightarrow> 'w source \<Rightarrow> bool" where
  "source_keeps obs src \<longleftrightarrow>
     (case src of
        SingleProvider p \<Rightarrow> (\<forall>syms w. obs (snd (pv_Fetch p syms w)) = obs w)
      | Orchestrated fo \<Rightarrow>
          (\<forall>p \<in> set (Eligible (fo_selector fo)). \<forall>syms w. obs (snd (pv_Fetch p syms w)) = obs w))"

definition reads_keep :: "('w \<Rightarrow> 'c) \<Rightarrow> 'w ingest_env \<Rightarrow> bool" where
  "reads_keep obs env \<longleftrightarrow>
     (\<forall>w. obs (snd (rt_Now (ie_runtime env) w)) = obs w) \<and>
     (\<forall>d w. obs (snd (rt_Wait (ie_runtime env) d w)) = obs w) \<and>
     (\<forall>w. obs (snd (rt_Float64 (ie_runtime env) w)) = obs w) \<and>
     (\<forall>w. obs (snd (ie_GetActiveCoins env w)) = obs w)"

definition redis_keeps :: "('w \<Rightarrow> 'c) \<Rightarrow> 'w redis_client \<Rightarrow> bool" where
  "redis_keeps obs rc \<longleftrightarrow>
     (\<forall>k v d w. obs (snd (rc_Set rc k v d w)) = obs w) \<and>
     (\<forall>k n a vs w. obs (snd (rc_XAdd rc k n a vs w)) = obs w) \<and>
     (\<forall>w. obs (snd (rc_NewUUID rc w)) = obs w) \<and> (\<forall>w. obs (snd (rc_Now rc w)) = obs w)"

text \<open>The scheduler's lock with calls that may overlap: a call ends only after it began.\<close>

datatype sched_op = CallBegins | CallEnds

fun sched_step :: "sched_op \<Rightarrow> Scheduler \<Rightarrow> Scheduler" where
  "sched_step CallBegins s = snd (execute_begin s)"
| "sched_step CallEnds s = (if 0 < sch_active s then execute_end s else s)"

definition sched_inv :: "Scheduler \<Rightarrow> bool" where
  "sched_inv s \<longleftrightarrow> sch_active s = (if sch_running s then 1 else 0)"

text \<open>What a record handed to the store comes from.\<close>

definition comes_from :: "Coin list \<Rightarrow> time \<Rightarrow> MarketData list \<Rightarrow> PriceSnapshot \<Rightarrow> LatestMarketData \<Rightarrow> bool" where
  "comes_from coins now mds s l \<longleftrightarrow>
     (\<exists>md \<in> set mds. \<exists>coin \<in> set coins. \<exists>t.
        valid_market_data t md \<and> coin_Symbol coin = md_Symbol md \<and>
        s = make_snapshot coin now md \<and> l = make_latest coin now md)"

text \<open>The log entry of a cycle agrees with what the cycle returned.\<close>

definition log_matches :: "go_error option \<Rightarrow> ProviderSyncLog \<Rightarrow> bool" where
  "log_matches err l \<longleftrightarrow>
     psl_Status l = (if err = None then ''success'' else ''failure'') \<and>
     (psl_ErrorMessage l = None \<longleftrightarrow> err = None)"

text \<open>The exits of the second half of the cycle once the snapshots are built.\<close>

definition store_exit ::
    "'w ingest_env \<Rightarrow> time \<Rightarrow> string \<Rightarrow> 'w Ingestor \<Rightarrow> PriceSnapshot list \<Rightarrow> LatestMarketData list \<Rightarrow> 'w
       \<Rightarrow> go_error option \<Rightarrow> 'w \<Rightarrow> bool" where
  "store_exit env start used ing1 snaps latest w2 err w' \<longleftrightarrow>
     (\<exists>cause e. err = Some e \<and> w' = snd (recordFailure env start used cause ing1 w2)) \<or>
     (\<exists>w3. ie_InsertBatch env snaps w2 = (None, w3) \<and> err = None \<and>
        w' = snd (rt_Now (ie_runtime env) (publish_all env latest (snd (recordSuccess env start used ing1 w3))))) \<or>
     (\<exists>cause w3 e. ie_InsertBatch env snaps w2 = (Some cause, w3) \<and> err = Some e \<and>
        w' = snd (recordFailure env start used cause ing1 w3))"

text \<open>
  Closed examples: a world that is the number of sync log entries and the number of Redis writes, and
  a provider that fails.
\<close>

definition demo_ingest :: "Coin list \<Rightarrow> (ProviderSyncLog list \<times> nat) ingest_env" where
  "demo_ingest coins =
     \<lparr>ie_GetActiveCoins = (\<lambda>w. (Inr coins, w)), ie_InsertBatch = (\<lambda>_ w. (None, w)),
      ie_InsertSyncLog = (\<lambda>l (logs, n). (None, (logs @ [l], n))),
      ie_redis =
        \<lparr>rc_Set = (\<lambda>_ _ _ (logs, n). (None, (logs, Suc n))), rc_Pipeline = (\<lambda>_ w. (None, w)),
         rc_Get = (\<lambda>_ w. (Inl RedisNil, w)), rc_MGet = (\<lambda>_ w. (Inr [], w)),
         rc_XAdd = (\<lambda>_ _ _ _ (logs, n). (None, (logs, Suc n))), rc_XRange = (\<lambda>_ _ _ w. (Inr [], w)),
         rc_Ping = (\<lambda>w. (None, w)), rc_NewUUID = (\<lambda>w. (''uuid'', w)), rc_codec = demo_codec,
         rc_Now = (\<lambda>w. (0, w))\<rparr>,
      ie_runtime =
        \<lparr>rt_Now = (\<lambda>w. (0, w)), rt_CtxErr = (\<lambda>_. None), rt_Wait = (\<lambda>_ w. (None, w)),
         rt_Float64 = (\<lambda>w. (Fin 0, w))\<rparr>,
      ie_parse_err = (\<lambda>_. ''''), ie_show_time = (\<lambda>_. ''''), ie_quote = id\<rparr>"

definition demo_coin :: Coin where
  "demo_coin =
     \<lparr>coin_ID = 1, coin_Symbol = ''BTC'', coin_Name = ''Bitcoin'', coin_ProviderSymbol = ''bitcoin'',
      coin_IsActive = True, coin_CreatedAt = 0, coin_UpdatedAt = 0\<rparr>"

definition failing_provider :: "'w Provider" where
  "failing_provider = \<lparr>pv_Name = ''coincap'', pv_Fetch = (\<lambda>_ w. (([], Some Canceled), w))\<rparr>"

section \<open>Lemmas\<close>

lemma reads_keep_frame: "reads_keep obs env \<Longrightarrow> world_frame (ie_runtime env) obs"
  by unfold_locales (auto simp: reads_keep_def)

lemma fetch_from_keeps:
  assumes "reads_keep obs env" and "source_keeps obs (ing_source ing)"
    and "fetch_from env syms ing w = (r, used, ing', w')"
  shows "obs w' = obs w"
proof (cases "ing_source ing")
  case (SingleProvider p)
  with assms(2,3) show ?thesis
    by (auto simp: fetch_from_def source_keeps_def split: prod.splits) (metis snd_conv)
next
  case (Orchestrated fo)
  then have "obs (snd (snd (orchestrator_FetchMarketData (ie_runtime env) syms fo w))) = obs w"
    using assms(2)
    by (intro world_frame.fetch_market_data_keeps_all [OF reads_keep_frame [OF assms(1)]])
      (auto simp: source_keeps_def)
  with assms(3) Orchestrated show ?thesis by (auto simp: fetch_from_def split: prod.splits)
qed

lemma build_snapshots_keeps:
  assumes "reads_keep obs env"
  shows "obs (snd (snd (build_snapshots env coins now mds m w))) = obs w"
proof (induction mds arbitrary: m w)
  case (Cons md mds)
  obtain t w1 where now: "rt_Now (ie_runtime env) w = (t, w1)" by (metis surj_pair)
  then have "obs w1 = obs w" using assms unfolding reads_keep_def by (metis snd_conv)
  with Cons show ?case by (auto simp: now split: prod.splits option.splits) (metis snd_conv)+
qed simp

lemma publish_all_keeps:
  assumes "redis_keeps obs (ie_redis env)"
  shows "obs (publish_all env lds w) = obs w"
proof -
  have set: "obs (snd (SetLatest (ie_redis env) ld w)) = obs w" for ld w
    using assms by (auto simp: SetLatest_def redis_keeps_def Let_def split: sum.splits prod.splits option.splits)
      (metis snd_conv)+
  have pub: "obs (snd (PublishEvent (ie_redis env) ld w)) = obs w" for ld w
    using assms unfolding PublishEvent_def redis_keeps_def
    by (auto simp: split_beta split: sum.splits option.splits)
  show ?thesis by (induction lds arbitrary: w) (simp_all add: set pub)
qed

lemma now_keeps: "reads_keep obs env \<Longrightarrow> obs (snd (rt_Now (ie_runtime env) w)) = obs w"
  by (simp add: reads_keep_def)

lemma recordFailure_logs:
  assumes "reads_keep logs env" and "\<And>l w. logs (snd (ie_InsertSyncLog env l w)) = logs w @ [l]"
  shows "\<exists>l. logs (snd (recordFailure env start p cause ing w)) = logs w @ [l] \<and> log_matches (Some e) l"
  using assms(2) now_keeps [OF assms(1)]
  by (simp add: recordFailure_def log_matches_def Let_def split_beta)

lemma recordSuccess_logs:
  assumes "reads_keep logs env" and "\<And>l w. logs (snd (ie_InsertSyncLog env l w)) = logs w @ [l]"
  shows "\<exists>l. logs (snd (recordSuccess env start p ing w)) = logs w @ [l] \<and> log_matches None l"
  using assms(2) now_keeps [OF assms(1)]
  by (simp add: recordSuccess_def log_matches_def Let_def split_beta)

lemma recordFailure_keeps:
  assumes "reads_keep obs env" and "\<And>l w. obs (snd (ie_InsertSyncLog env l w)) = obs w"
  shows "obs (snd (recordFailure env start p cause ing w)) = obs w"
  using assms(2) now_keeps [OF assms(1)] by (simp add: recordFailure_def Let_def split_beta)

text \<open>The ways through the second half of the cycle.\<close>

lemma store_and_publish_exits:
  assumes "store_and_publish env start coins used mds ing w = (err, ing', w')"
  obtains now w1 snaps latest m w2 ing1 where
    "rt_Now (ie_runtime env) w = (now, w1)"
    "build_snapshots env coins now mds (ing_metrics ing) w1 = ((snaps, latest), m, w2)"
    "store_exit env start used ing1 snaps latest w2 err w'"
proof -
  obtain now w1 where 1: "rt_Now (ie_runtime env) w = (now, w1)" by (metis surj_pair)
  obtain snaps latest m w2
    where 2: "build_snapshots env coins now mds (ing_metrics ing) w1 = ((snaps, latest), m, w2)"
    by (metis surj_pair)
  obtain ierr w3 where 3: "ie_InsertBatch env snaps w2 = (ierr, w3)" by (metis surj_pair)
  let ?ing = "ing\<lparr>ing_metrics := m\<rparr>"
  show ?thesis
    by (rule that [OF 1 2, of ?ing])
      (use assms in \<open>cases ierr; auto simp: store_exit_def store_and_publish_def 1 2 3 Let_def
         split: if_splits prod.splits; metis snd_conv\<close>)
qed

lemma store_logs:
  assumes "reads_keep logs env" and "redis_keeps logs (ie_redis env)"
    and "\<And>ss w. logs (snd (ie_InsertBatch env ss w)) = logs w"
    and "\<And>l w. logs (snd (ie_InsertSyncLog env l w)) = logs w @ [l]"
    and "store_and_publish env start coins used mds ing w = (err, ing', w')"
  shows "\<exists>l. logs w' = logs w @ [l] \<and> log_matches err l"
  using assms(5)
proof (rule store_and_publish_exits)
  fix now w1 snaps latest m w2 ing1
  assume 1: "rt_Now (ie_runtime env) w = (now, w1)"
    and 2: "build_snapshots env coins now mds (ing_metrics ing) w1 = ((snaps, latest), m, w2)"
    and exit: "store_exit env start used ing1 snaps latest w2 err w'"
  have w2: "logs w2 = logs w"
    using now_keeps [OF assms(1), of w] build_snapshots_keeps [OF assms(1), of coins now mds "ing_metrics ing" w1] 1 2
    by simp
  have w3: "logs w3 = logs w" if "ie_InsertBatch env snaps w2 = (r, w3)" for r w3
    using assms(3) [of snaps w2] that w2 by simp
  note failure = recordFailure_logs [OF assms(1,4)] and success = recordSuccess_logs [OF assms(1,4)]
  from exit show ?thesis
    unfolding store_exit_def
  proof (elim disjE exE conjE)
    fix cause e assume "err = Some e" "w' = snd (recordFailure env start used cause ing1 w2)"
    then show ?thesis using failure [of start used cause ing1 w2 e] w2 by simp
  next
    fix w3 assume *: "ie_InsertBatch env snaps w2 = (None, w3)" "err = None"
      "w' = snd (rt_Now (ie_runtime env) (publish_all env latest (snd (recordSuccess env start used ing1 w3))))"
    then have "logs w' = logs (snd (recordSuccess env start used ing1 w3))"
      by (simp add: now_keeps [OF assms(1)] publish_all_keeps [OF assms(2)])
    then show ?thesis using success [of start used ing1 w3] w3 [OF *(1)] *(2) by simp
  next
    fix cause w3 e assume *: "ie_InsertBatch env snaps w2 = (Some cause, w3)" "err = Some e"
      "w' = snd (recordFailure env start used cause ing1 w3)"
    then show ?thesis using failure [of start used cause ing1 w3 e] w3 [OF *(1)] by simp
  qed
qed

lemma store_error_keeps:
  assumes "reads_keep obs env" and "\<And>ss w. obs (snd (ie_InsertBatch env ss w)) = obs w"
    and "\<And>l w. obs (snd (ie_InsertSyncLog env l w)) = obs w"
    and "store_and_publish env start coins used mds ing w = (Some err, ing', w')"
  shows "obs w' = obs w"
  using assms(4)
proof (rule store_and_publish_exits)
  fix now w1 snaps latest m w2 ing1
  assume 1: "rt_Now (ie_runtime env) w = (now, w1)"
    and 2: "build_snapshots env coins now mds (ing_metrics ing) w1 = ((snaps, latest), m, w2)"
    and exit: "store_exit env start used ing1 snaps latest w2 (Some err) w'"
  have "obs w2 = obs w"
    using now_keeps [OF assms(1), of w] build_snapshots_keeps [OF assms(1), of coins now mds "ing_metrics ing" w1] 1 2
    by simp
  with exit recordFailure_keeps [OF assms(1,3)] assms(2) [of snaps w2] show ?thesis
    by (auto simp: store_exit_def)
qed

text \<open>The ways through a cycle, with an observation no service has changed so far.\<close>

lemma RunCycle_exits:
  assumes "reads_keep obs env" and "source_keeps obs (ing_source ing)"
    and "RunCycle env ing w = (err, ing', w')"
  obtains (idle) "err = None" "obs w' = obs w"
  | (failed) start p cause ing1 w1 e where "obs w1 = obs w" "err = Some e"
      "w' = snd (recordFailure env start p cause ing1 w1)"
  | (fetched) start coins used mds ing1 w1 where "obs w1 = obs w"
      "store_and_publish env start coins used mds ing1 w1 = (err, ing', w')"
proof -
  obtain start w1 where 1: "rt_Now (ie_runtime env) w = (start, w1)" by (metis surj_pair)
  obtain r w2 where 2: "ie_GetActiveCoins env w1 = (r, w2)" by (metis surj_pair)
  have w2: "obs w2 = obs w" using assms(1) 1 2 by (metis reads_keep_def snd_conv)
  show ?thesis
  proof (cases r)
    case (Inl e)
    then have "err = Some (Wrapped ''load active coins: '' e '''') \<and>
        w' = snd (recordFailure env start (ingestor_providerName ing) e ing w2)"
      using assms(3) by (auto simp: RunCycle_def 1 2 split_beta)
    with w2 failed show ?thesis by blast
  next
    case (Inr coins)
    obtain t1 w3 where 3: "rt_Now (ie_runtime env) w2 = (t1, w3)" by (metis surj_pair)
    obtain mds ferr used ing1 w4
      where 4: "fetch_from env (map coin_ProviderSymbol coins) ing w3 = ((mds, ferr), used, ing1, w4)"
      by (metis surj_pair)
    obtain t2 w5 where 5: "rt_Now (ie_runtime env) w4 = (t2, w5)" by (metis surj_pair)
    have w5: "obs w5 = obs w"
      using now_keeps [OF assms(1)] fetch_from_keeps [OF assms(1,2) 4] w2 3 5 by (metis snd_conv)
    let ?ing = "\<lambda>st. ing_count ''provider_request_duration_seconds_count'' [used, st] ing1"
    consider "coins = []" | e where "coins \<noteq> []" "ferr = Some e" | "coins \<noteq> []" "ferr = None"
      by (cases ferr) auto
    then show ?thesis
    proof cases
      case 1
      with assms(3) w2 idle show ?thesis by (simp add: RunCycle_def \<open>rt_Now _ w = _\<close> 2 Inr)
    next
      case (2 e)
      then have "err = Some (Wrapped ''fetch market data: '' e '''') \<and>
          w' = snd (recordFailure env start used e (?ing ''error'') w5)"
        using assms(3) by (auto simp: RunCycle_def 1 \<open>ie_GetActiveCoins env w1 = _\<close> 3 4 5 Inr split_beta)
      with w5 failed show ?thesis by blast
    next
      case 3
      then have "store_and_publish env start coins used mds (?ing ''success'') w5 = (err, ing', w')"
        using assms(3) by (simp add: RunCycle_def 1 2 \<open>rt_Now _ w2 = _\<close> 4 5 Inr)
      with w5 fetched show ?thesis by blast
    qed
  qed
qed

lemma findCoin_Some: "findCoin coins s = Some c \<Longrightarrow> c \<in> set coins \<and> coin_Symbol c = s"
  by (induction coins) (auto split: if_splits)

lemma comes_from_mono: "comes_from coins now mds s l \<Longrightarrow> comes_from coins now (md # mds) s l"
  by (auto simp: comes_from_def)

lemma build_snapshots_sound:
  assumes "build_snapshots env coins now mds m w = ((snaps, latest), m', w')"
  shows "list_all2 (comes_from coins now mds) snaps latest"
  using assms
proof (induction mds arbitrary: m w snaps latest m' w')
  case (Cons md mds)
  obtain t w1 where now: "rt_Now (ie_runtime env) w = (t, w1)" by (metis surj_pair)
  obtain verr m1 where val: "MarketData_Validate (ie_parse_err env) (ie_show_time env) t md m = (verr, m1)"
    by (metis surj_pair)
  obtain snaps1 latest1 m2 w2
    where rest: "build_snapshots env coins now mds m1 w1 = ((snaps1, latest1), m2, w2)" by (metis surj_pair)
  have IH: "list_all2 (comes_from coins now (md # mds)) snaps1 latest1"
    by (rule list_all2_mono [OF Cons.IH [OF rest]]) (rule comes_from_mono)
  have new: "comes_from coins now (md # mds) (make_snapshot c now md) (make_latest c now md)"
    if "verr = None" "findCoin coins (md_Symbol md) = Some c" for c
  proof -
    have "valid_market_data t md"
      using that(1) val MarketData_Validate_None [of "ie_parse_err env" "ie_show_time env" t md m] by simp
    with findCoin_Some [OF that(2)] show ?thesis by (auto simp: comes_from_def)
  qed
  show ?case
    using Cons.prems IH new by (auto simp: now val rest split: option.splits)
qed simp

lemma valid_market_data_fields:
  "valid_market_data t md \<Longrightarrow> md_Symbol md \<noteq> '''' \<and> md_PriceUSD md \<noteq> '''' \<and> md_Provider md \<noteq> ''''"
  by (auto simp: valid_market_data_def ParseFloat_empty)

lemma sched_step_inv: "sched_inv s \<Longrightarrow> sched_inv (sched_step x s)"
  by (cases x) (auto simp: sched_inv_def execute_begin_def execute_end_def)

interpretation schm: machine sched_step "\<lambda>s. s = scheduler_New" sched_inv
  by unfold_locales (auto simp: sched_step_inv, simp add: sched_inv_def scheduler_New_def)

section \<open>Properties\<close>



text \<open>
  C16: Nothing reaches Redis unless it was stored: whenever a cycle returns an error (no coins, a failed
  fetch, no valid data, a failed insert), neither the latest values nor the event stream
  were touched.
\<close>

theorem failed_cycle_publishes_nothing:
  assumes "reads_keep obs env" and "source_keeps obs (ing_source ing)"
    and "\<And>ss w. obs (snd (ie_InsertBatch env ss w)) = obs w"
    and "\<And>l w. obs (snd (ie_InsertSyncLog env l w)) = obs w"
    and "RunCycle env ing w = (Some err, ing', w')"
  shows "obs w' = obs w"
  using assms(1,2,5)
proof (cases rule: RunCycle_exits)
  case (failed start p cause ing1 w1 e)
  then show ?thesis using recordFailure_keeps [OF assms(1,4)] by simp
next
  case (fetched start coins used mds ing1 w1)
  then show ?thesis using store_error_keeps [OF assms(1,3,4) fetched(2)] by simp
qed simp

theorem failed_cycle_publishes_nothing_witness:
  "snd (snd (snd (RunCycle (demo_ingest [demo_coin]) (NewIngestor failing_provider) ([], 0)))) = 0"
proof -
  let ?env = "demo_ingest [demo_coin]" and ?ing = "NewIngestor failing_provider"
  let ?r = "RunCycle ?env ?ing ([], 0)"
  obtain e where "fst ?r = Some e"
    by (simp add: RunCycle_def demo_ingest_def fetch_from_def NewIngestor_def failing_provider_def split_beta)
  then have r: "?r = (Some e, fst (snd ?r), snd (snd ?r))" by (simp add: prod_eq_iff)
  have keeps: "reads_keep snd ?env" "source_keeps snd (ing_source ?ing)"
    "\<And>ss w. snd (snd (ie_InsertBatch ?env ss w)) = snd w"
    "\<And>l w. snd (snd (ie_InsertSyncLog ?env l w)) = snd w"
    by (auto simp: reads_keep_def source_keeps_def demo_ingest_def NewIngestor_def failing_provider_def
        split_beta)
  from failed_cycle_publishes_nothing [OF keeps r] show ?thesis by simp
qed

text \<open>
  What a cycle stores and publishes is sound: snapshots and latest values come in pairs, each pair
  from one fetched record that passed validation and from the active coin with its symbol,
  with the record's own figures.
\<close>

theorem stored_data_sound:
  assumes "build_snapshots env coins now mds m w = ((snaps, latest), m', w')"
  shows "list_all2 (comes_from coins now mds) snaps latest"
  by (rule build_snapshots_sound [OF assms])

theorem stored_data_sound_witness:
  "list_all2 (comes_from [demo_coin] 5 [btc_data ''42'']) 
     (fst (fst (build_snapshots (demo_ingest []) [demo_coin] 5 [btc_data ''42''] m_empty ([], 0))))
     (snd (fst (build_snapshots (demo_ingest []) [demo_coin] 5 [btc_data ''42''] m_empty ([], 0))))"
  by (rule stored_data_sound [where env = "demo_ingest []" and m = m_empty and w = "([], 0)"])
    (simp add: prod_eq_iff)

text \<open>
  Cycles never overlap: however calls of \<open>execute\<close> interleave, at most one is running the
  function, and the lock is held exactly while one is.
\<close>

theorem scheduler_no_overlap:
  "sch_active (fold sched_step ops scheduler_New)
     = (if sch_running (fold sched_step ops scheduler_New) then 1 else 0)"
  using schm.reachable_inv [of scheduler_New ops] by (simp add: sched_inv_def)

end
