(* ===== verification/API_Http.thy ===== *)
theory API_Http
  imports Freshness Anomaly Ingestor
begin

text \<open>
  What the API's handlers and middleware share: requests, the response writer of
  \<open>net/http\<close>, handlers as functions, and \<open>internal/api/response.go\<close>.

  \<^item> A request has its headers under their canonical names. \<open>rq_RequestID\<close> is the value the
    middleware puts into the request's context, \<open>rq_URLParams\<close> the parameters the router puts
    there, and \<open>rq_BodyLimit\<close> the limit on its body; no handler reads a body.
  \<^item> A response writer has the header map, the status and headers once they are sent, the body
    written so far, and the codes of the explicit calls of \<open>WriteHeader\<close>, which the wrapper
    types of the middleware observe. Only the first \<open>WriteHeader\<close> counts; the first
    \<open>Write\<close> sends status 200 if none was sent. A body is a list of chunks: a value encoded
    as JSON, the compressed form of other chunks, or what a handler outside the source wrote.
    A value \<open>encoding/json\<close> cannot encode leaves the body empty.
  \<^item> A handler takes the request, the writer and the server's state and returns a panic, if one
    escapes it, the writer and the state. The state is the rate limiter's clients, the metrics,
    the access log, and whatever the routed handlers keep (\<open>'a\<close>).
\<close>

section \<open>Status documents\<close>

datatype DegradedState = StateHealthy | StateDegraded | StateStale | StateUnavailable

fun DegradedState_string :: "DegradedState \<Rightarrow> string" where
  "DegradedState_string StateHealthy = ''healthy''"
| "DegradedState_string StateDegraded = ''degraded''"
| "DegradedState_string StateStale = ''stale''"
| "DegradedState_string StateUnavailable = ''unavailable''"

record IngestionStatus =
  is_Active :: bool
  is_ActiveProvider :: string
  is_Degraded :: bool

record DependencyStatus =
  ds_PostgreSQL :: string
  ds_Redis :: string

text \<open>\<open>ost_Provider\<close> is the zero value of the struct until the orchestrator's status is filled in.\<close>

record OperationsStatus =
  ost_Status :: DegradedState
  ost_Timestamp :: time
  ost_Ingestion :: IngestionStatus
  ost_Provider :: OrchestratorStatus
  ost_Freshness :: "FreshnessSummary option"
  ost_Dependencies :: DependencyStatus
  ost_RecentAnomalies :: "Anomaly list"

section \<open>Responses\<close>

text \<open>The values the handlers encode; a page carries its count.\<close>

datatype payload =
    ErrorResponse string
  | StringMap "(string \<times> string) list"
  | LatestPage "LatestMarketData list" int
  | CoinPage "Coin list" int
  | SnapshotPage "PriceSnapshot list" int
  | ProviderPage "ProviderStatus list" int
  | LatestBody LatestMarketData
  | NoDataBody string string
  | StatusBody OperationsStatus

text \<open>
  Whether \<open>encoding/json\<close> can encode a value: it fails on times outside the years 0 to 9999
  and on floating-point values that are not finite.
\<close>

definition time_encodable :: "time \<Rightarrow> bool" where
  "time_encodable t \<longleftrightarrow> marshal_time t \<noteq> None"

definition anomaly_encodable :: "Anomaly \<Rightarrow> bool" where
  "anomaly_encodable a \<longleftrightarrow>
     (case an_Value a of Fin x \<Rightarrow> True | _ \<Rightarrow> False) \<and> time_encodable (an_DetectedAt a)"

fun encodable :: "payload \<Rightarrow> bool" where
  "encodable (LatestPage ds n) = list_all (\<lambda>d. time_encodable (lmd_CapturedAt d)) ds"
| "encodable (CoinPage cs n) =
     list_all (\<lambda>c. time_encodable (coin_CreatedAt c) \<and> time_encodable (coin_UpdatedAt c)) cs"
| "encodable (SnapshotPage ss n) = list_all (\<lambda>s. time_encodable (ps_CapturedAt s)) ss"
| "encodable (ProviderPage ps n) = list_all (\<lambda>p. pred_option time_encodable (pst_LastSyncAt p)) ps"
| "encodable (LatestBody d) = time_encodable (lmd_CapturedAt d)"
| "encodable (StatusBody s) =
     (time_encodable (ost_Timestamp s) \<and> pred_option time_encodable (os_LastSwitch (ost_Provider s)) \<and>
      list_all anomaly_encodable (ost_RecentAnomalies s))"
| "encodable _ = True"

text \<open>\<open>RawChunk\<close> is what a handler outside the source writes.\<close>

datatype chunk = JsonChunk payload | GzipChunk "chunk list" | RawChunk string

record writer =
  wr_Header :: "(string, string) gomap"
  wr_sent :: "(int \<times> (string, string) gomap) option"
  wr_body :: "chunk list"
  wr_codes :: "int list"

definition new_writer :: writer where
  "new_writer = \<lparr>wr_Header = [], wr_sent = None, wr_body = [], wr_codes = []\<rparr>"

text \<open>\<open>CanonicalMIMEHeaderKey\<close> for names made of token characters.\<close>

fun canonical_key :: "bool \<Rightarrow> string \<Rightarrow> string" where
  "canonical_key up [] = []"
| "canonical_key up (c # s) =
     (if up then char_upper c else char_lower c) # canonical_key (c = CHR ''-'') s"

definition header_key :: "string \<Rightarrow> string" where
  "header_key k = canonical_key True k"

definition Header_Set :: "string \<Rightarrow> string \<Rightarrow> writer \<Rightarrow> writer" where
  "Header_Set k v w = w\<lparr>wr_Header := gm_put (header_key k) v (wr_Header w)\<rparr>"

definition send_header :: "int \<Rightarrow> writer \<Rightarrow> writer" where
  "send_header code w =
     (case wr_sent w of Some _ \<Rightarrow> w | None \<Rightarrow> w\<lparr>wr_sent := Some (code, wr_Header w)\<rparr>)"

definition WriteHeader :: "int \<Rightarrow> writer \<Rightarrow> writer" where
  "WriteHeader code w = (send_header code w)\<lparr>wr_codes := wr_codes w @ [code]\<rparr>"

definition Write :: "chunk \<Rightarrow> writer \<Rightarrow> writer" where
  "Write ch w = (let w1 = send_header 200 w in w1\<lparr>wr_body := wr_body w1 @ [ch]\<rparr>)"

definition writeJSON :: "int \<Rightarrow> payload \<Rightarrow> writer \<Rightarrow> writer" where
  "writeJSON status v w =
     (let w1 = WriteHeader status (Header_Set ''Content-Type'' ''application/json'' w)
      in if encodable v then Write (JsonChunk v) w1 else w1)"

definition writeError :: "int \<Rightarrow> string \<Rightarrow> writer \<Rightarrow> writer" where
  "writeError status msg w = writeJSON status (ErrorResponse msg) w"

section \<open>Requests and handlers\<close>

record http_request =
  rq_Method :: string
  rq_Path :: string
  rq_RawQuery :: string
  rq_Header :: "(string, string list) gomap"
  rq_RemoteAddr :: string
  rq_ContentLength :: int
  rq_BodyLimit :: "int option"
  rq_RequestID :: "string option"
  rq_URLParams :: "(string, string) gomap"

text \<open>\<open>Header.Get\<close>: the first value, or the empty string.\<close>

definition Header_Get :: "string \<Rightarrow> http_request \<Rightarrow> string" where
  "Header_Get k r = (case gm_get (rq_Header r) (header_key k) of Some (v # _) \<Rightarrow> v | _ \<Rightarrow> '''')"

definition Query_Get :: "string \<Rightarrow> http_request \<Rightarrow> string" where
  "Query_Get k r = Values_Get (url_Query (rq_RawQuery r)) k"

record rl_client =
  rl_tokens :: float64
  rl_lastSeen :: time

record access_entry =
  ac_RequestID :: string
  ac_Method :: string
  ac_Path :: string
  ac_Status :: int
  ac_Duration :: duration

record 'a api_state =
  as_clients :: "(string, rl_client) gomap"
  as_metrics :: metrics
  as_log :: "access_entry list"
  as_app :: 'a

type_synonym 'a handler =
  "http_request \<Rightarrow> writer \<Rightarrow> 'a api_state \<Rightarrow> string option \<times> writer \<times> 'a api_state"

type_synonym 'a middleware = "'a handler \<Rightarrow> 'a handler"

text \<open>The clock and \<open>crypto/rand\<close>, which reads the given number of bytes.\<close>

record 'a api_env =
  ae_Now :: "'a \<Rightarrow> time \<times> 'a"
  ae_Rand :: "nat \<Rightarrow> 'a \<Rightarrow> string \<times> 'a"

definition api_Now :: "'a api_env \<Rightarrow> 'a api_state \<Rightarrow> time \<times> 'a api_state" where
  "api_Now env st = (case ae_Now env (as_app st) of (t, a) \<Rightarrow> (t, st\<lparr>as_app := a\<rparr>))"

text \<open>A server whose clock stands still, and plain requests, for closed examples.\<close>

definition demo_api_env :: "time api_env" where
  "demo_api_env = \<lparr>ae_Now = (\<lambda>a. (a, a)), ae_Rand = (\<lambda>n a. (replicate n (char_of (0 :: nat)), a))\<rparr>"

definition demo_api_state :: "'a \<Rightarrow> 'a api_state" where
  "demo_api_state a = \<lparr>as_clients = [], as_metrics = m_empty, as_log = [], as_app = a\<rparr>"

definition get_request :: "string \<Rightarrow> (string, string list) gomap \<Rightarrow> http_request" where
  "get_request path hs =
     \<lparr>rq_Method = ''GET'', rq_Path = path, rq_RawQuery = '''', rq_Header = hs,
      rq_RemoteAddr = ''10.0.0.1:4711'', rq_ContentLength = 0, rq_BodyLimit = None, rq_RequestID = None,
      rq_URLParams = []\<rparr>"

section \<open>Lemmas\<close>

named_theorems writer_defs \<open>the response writer\<close>

declare Header_Set_def [writer_defs] send_header_def [writer_defs] WriteHeader_def [writer_defs]
  Write_def [writer_defs] writeJSON_def [writer_defs] writeError_def [writer_defs] Let_def [writer_defs]

lemma writeJSON_new:
  assumes "wr_sent w = None"
  shows "wr_sent (writeJSON status v w)
      = Some (status, gm_put ''Content-Type'' ''application/json'' (wr_Header w))"
    "encodable v \<Longrightarrow> wr_body (writeJSON status v w) = wr_body w @ [JsonChunk v]"
  using assms by (simp_all add: writer_defs header_key_def char_upper_def char_lower_def)

lemma writeJSON_sent:
  assumes "wr_sent w = Some s"
  shows "wr_sent (writeJSON status v w) = Some s"
    "encodable v \<Longrightarrow> wr_body (writeJSON status v w) = wr_body w @ [JsonChunk v]"
  using assms by (simp_all add: writer_defs)

lemma writeJSON_codes [simp]: "wr_codes (writeJSON status v w) = wr_codes w @ [status]"
  by (simp add: writer_defs split: option.split)

lemma api_Now_frame:
  "as_clients (snd (api_Now env st)) = as_clients st" "as_metrics (snd (api_Now env st)) = as_metrics st"
  "as_log (snd (api_Now env st)) = as_log st"
  by (simp_all add: api_Now_def split_beta)

end
