(* ===== verification/API_Auth.thy ===== *)
theory API_Auth
  imports API_Http
begin

text \<open>
  \<open>internal/api/auth.go\<close>: API keys and JSON web tokens. Base64, JSON, SHA-256 and HMAC are
  the functions of \<open>Go_Encoding\<close> and \<open>Go_Json\<close>; \<open>hmac.Equal\<close> compares byte slices. The
  errors of \<open>verifyJWT\<close> are the constructors of \<open>jwt_error\<close>. The specification
  \<open>authorized\<close> says who may pass without following the code's order of checks.
\<close>

record AuthConfig =
  ac_Enabled :: bool
  ac_APIKeys :: "(string, bool) gomap"
  ac_JWTSecret :: string
  ac_JWTIssuer :: string
  ac_PublicPaths :: "(string, bool) gomap"

definition NewAuthConfig :: "bool \<Rightarrow> string list \<Rightarrow> string \<Rightarrow> string \<Rightarrow> AuthConfig" where
  "NewAuthConfig enabled apiKeys jwtSecret jwtIssuer =
     (let keySet = fold (\<lambda>k m. if k \<noteq> '''' then gm_put k True m else m) apiKeys []
      in \<lparr>ac_Enabled = enabled, ac_APIKeys = keySet, ac_JWTSecret = jwtSecret, ac_JWTIssuer = jwtIssuer,
          ac_PublicPaths = [(''/health'', True), (''/ready'', True), (''/metrics'', True)]\<rparr>)"

definition tryAPIKey :: "http_request \<Rightarrow> AuthConfig \<Rightarrow> bool" where
  "tryAPIKey r cfg =
     (if ac_APIKeys cfg = [] then False
      else
        let key0 = Header_Get ''X-API-Key'' r;
            key = (if key0 = '''' then Query_Get ''api_key'' r else key0)
        in if key = '''' then False else gm_true (ac_APIKeys cfg) key)"

record jwtClaims =
  jc_Subject :: string
  jc_Issuer :: string
  jc_ExpiresAt :: int
  jc_IssuedAt :: int

datatype jwt_error =
    InvalidTokenFormat nat
  | InvalidSignatureEncoding
  | SignatureVerificationFailed
  | InvalidPayloadEncoding
  | InvalidClaims

definition base64URLDecode :: "string \<Rightarrow> string option" where
  "base64URLDecode s =
     (let s' = (if length s mod 4 = 2 then s @ ''=='' else if length s mod 4 = 3 then s @ ''='' else s)
      in URLEncoding_DecodeString s')"

definition computeHMACSHA256 :: "string \<Rightarrow> string \<Rightarrow> string" where
  "computeHMACSHA256 data key = hmac_sha256 key data"

definition unmarshal_claims :: "string \<Rightarrow> jwtClaims option" where
  "unmarshal_claims payload = do {
     ms \<leftarrow> json_struct payload;
     sub \<leftarrow> string_member ''sub'' '''' ms;
     iss \<leftarrow> string_member ''iss'' '''' ms;
     expi \<leftarrow> int_member ''exp'' 0 ms;
     iat \<leftarrow> int_member ''iat'' 0 ms;
     Some \<lparr>jc_Subject = sub, jc_Issuer = iss, jc_ExpiresAt = expi, jc_IssuedAt = iat\<rparr>
   }"

definition verifyJWT :: "string \<Rightarrow> string \<Rightarrow> jwt_error + jwtClaims" where
  "verifyJWT token secret =
     (let parts = strings_Split (CHR ''.'') token
      in if length parts \<noteq> 3 then Inl (InvalidTokenFormat (length parts))
         else
           let signingInput = parts ! 0 @ ''.'' @ parts ! 1;
               expectedSig = computeHMACSHA256 signingInput secret
           in case base64URLDecode (parts ! 2) of
                None \<Rightarrow> Inl InvalidSignatureEncoding
              | Some actualSig \<Rightarrow>
                  if expectedSig \<noteq> actualSig then Inl SignatureVerificationFailed
                  else
                    (case base64URLDecode (parts ! 1) of
                       None \<Rightarrow> Inl InvalidPayloadEncoding
                     | Some payload \<Rightarrow>
                         (case unmarshal_claims payload of
                            None \<Rightarrow> Inl InvalidClaims
                          | Some claims \<Rightarrow> Inr claims)))"

text \<open>The clock is read only for a token with an expiry.\<close>

definition tryJWT :: "'a api_env \<Rightarrow> http_request \<Rightarrow> AuthConfig \<Rightarrow> 'a api_state \<Rightarrow> bool \<times> 'a api_state" where
  "tryJWT env r cfg st =
     (if ac_JWTSecret cfg = '''' then (False, st)
      else
        let authHeader = Header_Get ''Authorization'' r
        in if authHeader = '''' then (False, st)
           else
             let parts = strings_SplitN2 (CHR '' '') authHeader
             in if length parts \<noteq> 2 \<or> ascii_lower (parts ! 0) \<noteq> ''bearer'' then (False, st)
                else
                  (case verifyJWT (parts ! 1) (ac_JWTSecret cfg) of
                     Inl err \<Rightarrow> (False, st)
                   | Inr claims \<Rightarrow>
                       if ac_JWTIssuer cfg \<noteq> '''' \<and> jc_Issuer claims \<noteq> ac_JWTIssuer cfg then (False, st)
                       else if 0 < jc_ExpiresAt claims then
                         (case api_Now env st of
                            (now, st1) \<Rightarrow> (\<not> jc_ExpiresAt claims < time_Unix now, st1))
                       else (True, st)))"

definition unauthorized_message :: string where
  "unauthorized_message = ''authentication required: provide X-API-Key header or Bearer token''"

definition challenge :: string where
  "challenge =
     ''Bearer realm='' @ [dquote] @ ''cryptomarket'' @ [dquote] @ '', error='' @ [dquote]
       @ ''invalid_token'' @ [dquote]"

definition Authenticate :: "'a api_env \<Rightarrow> AuthConfig \<Rightarrow> 'a middleware" where
  "Authenticate env cfg next r w st =
     (if \<not> ac_Enabled cfg then next r w st
      else if gm_true (ac_PublicPaths cfg) (rq_Path r) then next r w st
      else if tryAPIKey r cfg then next r w st
      else case tryJWT env r cfg st of
             (True, st1) \<Rightarrow> next r w st1
           | (False, st1) \<Rightarrow>
               (None, writeJSON 401 (ErrorResponse unauthorized_message)
                        (Header_Set ''WWW-Authenticate'' challenge w), st1))"

section \<open>Specification\<close>

text \<open>The key a request presents: the header goes before the query parameter.\<close>

definition presented_key :: "http_request \<Rightarrow> string" where
  "presented_key r = (if Header_Get ''X-API-Key'' r \<noteq> '''' then Header_Get ''X-API-Key'' r else Query_Get ''api_key'' r)"

text \<open>The token of a request: what follows the scheme and a space in \<open>Authorization\<close>.\<close>

definition bearer_token :: "http_request \<Rightarrow> string \<Rightarrow> bool" where
  "bearer_token r token \<longleftrightarrow>
     (\<exists>scheme. Header_Get ''Authorization'' r = scheme @ '' '' @ token \<and> ascii_lower scheme = ''bearer'')"

text \<open>A token signed with a secret: its signature is the keyed hash of the rest.\<close>

definition signed_token :: "string \<Rightarrow> string \<Rightarrow> jwtClaims \<Rightarrow> bool" where
  "signed_token secret token claims \<longleftrightarrow>
     (\<exists>h p s payload. token = h @ ''.'' @ p @ ''.'' @ s \<and> CHR ''.'' \<notin> set (h @ p @ s) \<and>
        base64URLDecode s = Some (hmac_sha256 secret (h @ ''.'' @ p)) \<and>
        base64URLDecode p = Some payload \<and> unmarshal_claims payload = Some claims)"

definition claims_ok :: "AuthConfig \<Rightarrow> time \<Rightarrow> jwtClaims \<Rightarrow> bool" where
  "claims_ok cfg now claims \<longleftrightarrow>
     (ac_JWTIssuer cfg = '''' \<or> jc_Issuer claims = ac_JWTIssuer cfg) \<and>
     (jc_ExpiresAt claims \<le> 0 \<or> time_Unix now \<le> jc_ExpiresAt claims)"

definition authorized :: "AuthConfig \<Rightarrow> time \<Rightarrow> http_request \<Rightarrow> bool" where
  "authorized cfg now r \<longleftrightarrow>
     \<not> ac_Enabled cfg \<or> gm_true (ac_PublicPaths cfg) (rq_Path r) \<or>
     presented_key r \<noteq> '''' \<and> gm_true (ac_APIKeys cfg) (presented_key r) \<or>
     ac_JWTSecret cfg \<noteq> '''' \<and>
       (\<exists>token claims. bearer_token r token \<and> signed_token (ac_JWTSecret cfg) token claims \<and>
          claims_ok cfg now claims)"

text \<open>How an issuer makes a token.\<close>

definition mint_token :: "string \<Rightarrow> string \<Rightarrow> string \<Rightarrow> string" where
  "mint_token secret header payload =
     (let input = RawURLEncoding_EncodeToString header @ ''.'' @ RawURLEncoding_EncodeToString payload
      in input @ ''.'' @ RawURLEncoding_EncodeToString (hmac_sha256 secret input))"

section \<open>Lemmas\<close>

lemma Split_three:
  "strings_Split c s = [a, b, d] \<longleftrightarrow> s = a @ c # b @ c # d \<and> c \<notin> set (a @ b @ d)"
proof
  assume "strings_Split c s = [a, b, d]"
  then show "s = a @ c # b @ c # d \<and> c \<notin> set (a @ b @ d)"
    using strings_Join_Split [of c s] strings_Split_no_sep [of _ c s] by auto
qed (auto simp: strings_Split_append strings_Split_no_char)

lemma verifyJWT_Inr: "verifyJWT token secret = Inr claims \<longleftrightarrow> signed_token secret token claims"
proof (cases "length (strings_Split (CHR ''.'') token) = 3")
  case True
  then obtain h p s where parts: "strings_Split (CHR ''.'') token = [h, p, s]"
    by (auto simp: numeral_3_eq_3 length_Suc_conv)
  then have uniq: "token = h' @ ''.'' @ p' @ ''.'' @ s' \<and> CHR ''.'' \<notin> set (h' @ p' @ s') \<longleftrightarrow> h' = h \<and> p' = p \<and> s' = s"
    for h' p' s' using Split_three [of "CHR ''.''" token h' p' s'] by auto
  have "signed_token secret token claims \<longleftrightarrow>
      (\<exists>h' p' s' payload. (token = h' @ ''.'' @ p' @ ''.'' @ s' \<and> CHR ''.'' \<notin> set (h' @ p' @ s')) \<and>
        base64URLDecode s' = Some (hmac_sha256 secret (h' @ ''.'' @ p')) \<and>
        base64URLDecode p' = Some payload \<and> unmarshal_claims payload = Some claims)"
    unfolding signed_token_def by (simp only: conj_assoc)
  also have "\<dots> \<longleftrightarrow> base64URLDecode s = Some (hmac_sha256 secret (h @ ''.'' @ p)) \<and>
      (\<exists>payload. base64URLDecode p = Some payload \<and> unmarshal_claims payload = Some claims)"
    unfolding uniq by auto
  finally show ?thesis
    by (simp add: verifyJWT_def parts computeHMACSHA256_def Let_def split: option.split)
next
  case False
  have "\<not> signed_token secret token claims"
  proof
    assume "signed_token secret token claims"
    then obtain h p s where "token = h @ ''.'' @ p @ ''.'' @ s" "CHR ''.'' \<notin> set (h @ p @ s)"
      unfolding signed_token_def by blast
    then have "strings_Split (CHR ''.'') token = [h, p, s]" using Split_three [of "CHR ''.''" token h p s] by simp
    with False show False by simp
  qed
  with False show ?thesis by (simp add: verifyJWT_def Let_def)
qed

lemma SplitN2_two: "strings_SplitN2 c s = [a, b] \<longleftrightarrow> s = a @ c # b \<and> c \<notin> set a"
proof
  assume "strings_SplitN2 c s = [a, b]"
  then obtain x where x: "dropWhile (\<lambda>x. x \<noteq> c) s = x # b" "a = takeWhile (\<lambda>x. x \<noteq> c) s"
    by (auto simp: strings_SplitN2_def split: list.splits)
  then have "x = c" using hd_dropWhile [of "\<lambda>x. x \<noteq> c" s] by simp
  with x takeWhile_dropWhile_id [of "\<lambda>x. x \<noteq> c" s] show "s = a @ c # b \<and> c \<notin> set a"
    by (auto dest: set_takeWhileD)
qed (auto simp: SplitN2_append)

lemma lower_no_space: "ascii_lower s = ''bearer'' \<Longrightarrow> CHR '' '' \<notin> set s"
proof
  assume "ascii_lower s = ''bearer''" "CHR '' '' \<in> set s"
  then have "char_lower (CHR '' '') \<in> set ''bearer''" unfolding ascii_lower_def by (metis image_eqI list.set_map)
  then show False by (simp add: char_lower_def)
qed

lemma bearer_token_iff:
  "length (strings_SplitN2 (CHR '' '') h) = 2 \<and> ascii_lower (strings_SplitN2 (CHR '' '') h ! 0) = ''bearer''
     \<longleftrightarrow> (\<exists>scheme token. h = scheme @ '' '' @ token \<and> ascii_lower scheme = ''bearer'')"
  (is "?l \<longleftrightarrow> ?r")
proof
  assume l: ?l
  then obtain a b where "strings_SplitN2 (CHR '' '') h = [a, b]"
    by (auto simp: numeral_2_eq_2 length_Suc_conv)
  with l SplitN2_two [of "CHR '' ''" h a b] show ?r by auto
next
  assume ?r
  then obtain scheme token where "h = scheme @ '' '' @ token" "ascii_lower scheme = ''bearer''" by blast
  with SplitN2_two [of "CHR '' ''" h scheme token] lower_no_space show ?l by simp
qed

lemma tryAPIKey_iff:
  "tryAPIKey r cfg \<longleftrightarrow> presented_key r \<noteq> '''' \<and> gm_true (ac_APIKeys cfg) (presented_key r)"
  by (auto simp: tryAPIKey_def presented_key_def Let_def gm_true_def)

lemma tryJWT_state: "snd (tryJWT env r cfg st) = st \<or> snd (tryJWT env r cfg st) = snd (api_Now env st)"
  by (auto simp: tryJWT_def Let_def split_beta split: sum.split)

lemma claims_decision:
  "fst (if ac_JWTIssuer cfg \<noteq> '''' \<and> jc_Issuer claims \<noteq> ac_JWTIssuer cfg then (False, st)
        else if 0 < jc_ExpiresAt claims then
          (case api_Now env st of (now, st1) \<Rightarrow> (\<not> jc_ExpiresAt claims < time_Unix now, st1))
        else (True, st))
   \<longleftrightarrow> claims_ok cfg (fst (api_Now env st)) claims"
  by (auto simp: claims_ok_def split_beta)

lemma tryJWT_iff:
  "fst (tryJWT env r cfg st) \<longleftrightarrow>
     ac_JWTSecret cfg \<noteq> '''' \<and>
     (\<exists>token claims. bearer_token r token \<and> signed_token (ac_JWTSecret cfg) token claims \<and>
        claims_ok cfg (fst (api_Now env st)) claims)"
  (is "_ \<longleftrightarrow> _ \<and> ?valid")
proof -
  let ?h = "Header_Get ''Authorization'' r"
  let ?parts = "strings_SplitN2 (CHR '' '') ?h"
  show ?thesis
  proof (cases "length ?parts = 2 \<and> ascii_lower (?parts ! 0) = ''bearer''")
    case True
    then obtain scheme token where h: "?h = scheme @ '' '' @ token" "ascii_lower scheme = ''bearer''"
      using bearer_token_iff by blast
    have parts: "?parts = [scheme, token]" "?h \<noteq> ''''"
      using SplitN2_two [of "CHR '' ''" ?h scheme token] h lower_no_space by auto
    have only: "bearer_token r t \<longleftrightarrow> t = token" for t
    proof
      assume "bearer_token r t"
      then obtain sch where "?h = sch @ '' '' @ t" "ascii_lower sch = ''bearer''" by (auto simp: bearer_token_def)
      then have "?parts = [sch, t]" using SplitN2_two [of "CHR '' ''" ?h sch t] lower_no_space by simp
      with parts show "t = token" by simp
    qed (use h in \<open>auto simp: bearer_token_def\<close>)
    have "fst (tryJWT env r cfg st) \<longleftrightarrow> ac_JWTSecret cfg \<noteq> '''' \<and>
        (\<exists>claims. verifyJWT token (ac_JWTSecret cfg) = Inr claims \<and> claims_ok cfg (fst (api_Now env st)) claims)"
      using parts True claims_decision [of cfg _ st env]
      by (auto simp: tryJWT_def Let_def simp del: One_nat_def split: sum.split)
    then show ?thesis unfolding verifyJWT_Inr only by blast
  next
    case False
    then have "\<not> fst (tryJWT env r cfg st)" by (simp add: tryJWT_def Let_def)
    moreover have "\<not> ?valid" using False bearer_token_iff [of ?h] unfolding bearer_token_def by blast
    ultimately show ?thesis by blast
  qed
qed

lemma base64URLDecode_Encode: "base64URLDecode (RawURLEncoding_EncodeToString s) = Some s"
  using Decode_Encode [of s] by (simp add: base64URLDecode_def b64_padding_def Let_def split: if_splits)

lemma mint_token_signed:
  assumes "unmarshal_claims payload = Some claims"
  shows "signed_token secret (mint_token secret header payload) claims"
proof -
  let ?h = "RawURLEncoding_EncodeToString header" and ?p = "RawURLEncoding_EncodeToString payload"
  let ?s = "RawURLEncoding_EncodeToString (hmac_sha256 secret (?h @ ''.'' @ ?p))"
  have "CHR ''.'' \<notin> set (?h @ ?p @ ?s)" using Encode_chars by fastforce
  moreover have "mint_token secret header payload = ?h @ ''.'' @ ?p @ ''.'' @ ?s"
    by (simp add: mint_token_def Let_def)
  moreover have "base64URLDecode ?s = Some (hmac_sha256 secret (?h @ ''.'' @ ?p))" "base64URLDecode ?p = Some payload"
    by (rule base64URLDecode_Encode)+
  ultimately show ?thesis using assms unfolding signed_token_def by blast
qed

lemma Authenticate_gate:
  "\<exists>st1. (st1 = st \<or> st1 = snd (api_Now env st)) \<and>
     Authenticate env cfg next r w st =
       (if authorized cfg (fst (api_Now env st)) r then next r w st1
        else (None, writeJSON 401 (ErrorResponse unauthorized_message)
                      (Header_Set ''WWW-Authenticate'' challenge w), st1))"
proof (cases "\<not> ac_Enabled cfg \<or> gm_true (ac_PublicPaths cfg) (rq_Path r) \<or> tryAPIKey r cfg")
  case True
  then have "authorized cfg (fst (api_Now env st)) r" by (auto simp: authorized_def tryAPIKey_iff)
  with True show ?thesis by (intro exI [of _ st]) (auto simp: Authenticate_def)
next
  case False
  then have "authorized cfg (fst (api_Now env st)) r \<longleftrightarrow> fst (tryJWT env r cfg st)"
    unfolding tryJWT_iff by (auto simp: authorized_def tryAPIKey_iff)
  with False tryJWT_state [of env r cfg st] show ?thesis
    by (intro exI [of _ "snd (tryJWT env r cfg st)"])
      (auto simp: Authenticate_def split: prod.split bool.split)
qed

section \<open>Properties\<close>

text \<open>
  C6: Authentication is exactly the policy: a request reaches the protected handler if and only
  if authentication is off, its path is public, it presents a configured API key, or it
  carries a bearer token whose signature is the HMAC-SHA256 of its first two segments under
  the configured secret, with the configured issuer and not expired. Every other request is
  answered 401 with a challenge, and the handler does not run.
\<close>

theorem authentication_policy:
  "\<exists>st1. (st1 = st \<or> st1 = snd (api_Now env st)) \<and>
     Authenticate env cfg next r w st =
       (if authorized cfg (fst (api_Now env st)) r then next r w st1
        else (None, writeJSON 401 (ErrorResponse unauthorized_message)
                      (Header_Set ''WWW-Authenticate'' challenge w), st1))"
  by (rule Authenticate_gate)

text \<open>
  C29: A token made with the configured secret is accepted: whatever its header, a token whose
  payload is JSON with acceptable claims, signed with the secret and sent as a bearer token,
  lets the request through.
\<close>

theorem minted_token_accepted:
  assumes "ac_JWTSecret cfg \<noteq> ''''" and "unmarshal_claims payload = Some claims"
    and "claims_ok cfg (fst (api_Now env st)) claims"
    and "bearer_token r (mint_token (ac_JWTSecret cfg) header payload)"
  shows "\<exists>st1. Authenticate env cfg next r w st = next r w st1"
proof -
  have "authorized cfg (fst (api_Now env st)) r"
    using assms mint_token_signed [OF assms(2), of "ac_JWTSecret cfg" header] by (auto simp: authorized_def)
  then show ?thesis using Authenticate_gate [of st env cfg "next" r w] by auto
qed

theorem minted_token_accepted_witness:
  "\<exists>st1. Authenticate demo_api_env (NewAuthConfig True [] ''secret'' ''cryptomarket'')
     (\<lambda>r w st. (Some ''reached'', w, st))
     (get_request ''/coins'' [(''Authorization'',
        [''Bearer '' @ mint_token ''secret'' ''h'' (json_object [(''iss'', ''cryptomarket'')])])])
     new_writer (demo_api_state 0) = (Some ''reached'', new_writer, st1)"
proof -
  let ?cfg = "NewAuthConfig True [] ''secret'' ''cryptomarket''"
  let ?payload = "json_object [(''iss'', ''cryptomarket'')]"
  let ?claims = "\<lparr>jc_Subject = '''', jc_Issuer = ''cryptomarket'', jc_ExpiresAt = 0, jc_IssuedAt = 0\<rparr>"
  let ?r = "get_request ''/coins'' [(''Authorization'', [''Bearer '' @ mint_token ''secret'' ''h'' ?payload])]"
  have cfg: "ac_JWTSecret ?cfg = ''secret''" "ac_JWTIssuer ?cfg = ''cryptomarket''"
    by (simp_all add: NewAuthConfig_def)
  have "json_struct ?payload = Some [(''iss'', JString ''cryptomarket'')]"
    by (subst struct_object) (auto simp: is_ascii_def intro!: utf8_ValidString_ascii)
  then have claims: "unmarshal_claims ?payload = Some ?claims"
    by (simp add: unmarshal_claims_def char_upper_def)
  have hdr: "Header_Get ''Authorization'' ?r = ''Bearer '' @ mint_token ''secret'' ''h'' ?payload"
    by (simp add: Header_Get_def get_request_def header_key_def char_upper_def char_lower_def gm_get_def)
  have lower: "ascii_lower ''Bearer'' = ''bearer''" by code_simp
  have bearer: "bearer_token ?r (mint_token ''secret'' ''h'' ?payload)"
    unfolding bearer_token_def hdr by (intro exI [of _ "''Bearer''"]) (simp add: lower)
  have "claims_ok ?cfg (fst (api_Now demo_api_env (demo_api_state 0))) ?claims"
    by (simp add: claims_ok_def cfg)
  from minted_token_accepted [OF _ claims this, of ?r "''h''" "\<lambda>r w st. (Some ''reached'', w, st)" new_writer]
    bearer cfg show ?thesis by simp
qed

end
