(* ===== verification/API_Rate_Limit.thy ===== *)
theory API_Rate_Limit
  imports API_Http
begin

text \<open>
  The token buckets of \<open>RateLimit\<close> in \<open>internal/api/middleware.go\<close>, in the floating-point
  arithmetic of the code: \<open>rate_take\<close> is the section that holds the lock, \<open>rate_cleanup\<close>
  the body of the cleanup goroutine. Any sequence of the two keeps every bucket between empty
  and full; a full bucket admits exactly its size at once, an idle client is admitted again
  after a second, and over any time a client gets no more than the bucket and the refill
  allow, plus one request for rounding.
\<close>

definition rate_take ::
    "int \<Rightarrow> int \<Rightarrow> string \<Rightarrow> time \<Rightarrow> (string, rl_client) gomap \<Rightarrow> bool \<times> (string, rl_client) gomap" where
  "rate_take requestsPerSecond burst ip now clients =
     (let c = (case gm_get clients ip of
                 None \<Rightarrow> \<lparr>rl_tokens = f_of_int burst, rl_lastSeen = now\<rparr>
               | Some c \<Rightarrow> c);
          elapsed = dur_Seconds (time_Sub now (rl_lastSeen c));
          filled = f_add (rl_tokens c) (f_mul elapsed (f_of_int requestsPerSecond));
          tokens = (if f_less (f_of_int burst) filled then f_of_int burst else filled)
      in if f_less tokens (Fin 1)
         then (False, gm_put ip \<lparr>rl_tokens = tokens, rl_lastSeen = now\<rparr> clients)
         else (True, gm_put ip \<lparr>rl_tokens = f_sub tokens (Fin 1), rl_lastSeen = now\<rparr> clients))"

definition rate_cleanup :: "time \<Rightarrow> (string, rl_client) gomap \<Rightarrow> (string, rl_client) gomap" where
  "rate_cleanup now clients = filter (\<lambda>(ip, c). \<not> 10 * minute < time_Sub now (rl_lastSeen c)) clients"

section \<open>Runs\<close>

text \<open>The answers to the requests of one client at given times.\<close>

fun rate_run ::
    "int \<Rightarrow> int \<Rightarrow> string \<Rightarrow> time list \<Rightarrow> (string, rl_client) gomap \<Rightarrow> bool list \<times> (string, rl_client) gomap" where
  "rate_run rps burst ip [] clients = ([], clients)"
| "rate_run rps burst ip (t # ts) clients =
     (case rate_take rps burst ip t clients of
        (ok, clients1) \<Rightarrow>
          (case rate_run rps burst ip ts clients1 of (oks, clients2) \<Rightarrow> (ok # oks, clients2)))"

definition accepted :: "bool list \<Rightarrow> rat" where
  "accepted oks = of_nat (length (filter (\<lambda>ok. ok) oks))"

text \<open>All clients and the cleanup, on a clock that does not go back.\<close>

datatype rl_op = RlTake string nat | RlClean nat

fun rl_step :: "int \<Rightarrow> int \<Rightarrow> rl_op \<Rightarrow> time \<times> (string, rl_client) gomap \<Rightarrow> time \<times> (string, rl_client) gomap" where
  "rl_step rps burst (RlTake ip dt) (t, clients) =
     (t + int dt, snd (rate_take rps burst ip (t + int dt) clients))"
| "rl_step rps burst (RlClean dt) (t, clients) = (t + int dt, rate_cleanup (t + int dt) clients)"

definition client_ok :: "int \<Rightarrow> time \<Rightarrow> rl_client \<Rightarrow> bool" where
  "client_ok burst now c \<longleftrightarrow>
     (\<exists>x. rl_tokens c = Fin x \<and> 0 \<le> x \<and> x \<le> of_int burst \<and> is_double x) \<and> rl_lastSeen c \<le> now"

definition rl_inv :: "int \<Rightarrow> time \<times> (string, rl_client) gomap \<Rightarrow> bool" where
  "rl_inv burst s \<longleftrightarrow> gm_wf (snd s) \<and> (\<forall>(ip, c) \<in> set (snd s). client_ok burst (fst s) c)"

definition sane_limit :: "int \<Rightarrow> int \<Rightarrow> bool" where
  "sane_limit rps burst \<longleftrightarrow> 0 \<le> rps \<and> rps \<le> 2 ^ 20 \<and> 1 \<le> burst \<and> burst \<le> 2 ^ 20"

text \<open>The client a request finds or makes.\<close>

definition rl_entry :: "int \<Rightarrow> string \<Rightarrow> time \<Rightarrow> (string, rl_client) gomap \<Rightarrow> rl_client" where
  "rl_entry burst ip now clients =
     (case gm_get clients ip of None \<Rightarrow> \<lparr>rl_tokens = f_of_int burst, rl_lastSeen = now\<rparr> | Some c \<Rightarrow> c)"

text \<open>The refill of a second and the error of a request, with all roundings upwards.\<close>

definition refill_rate :: "int \<Rightarrow> rat" where
  "refill_rate rps = of_int rps * (1 + 1 / 2 ^ 50)"

definition step_error :: "int \<Rightarrow> rat" where
  "step_error burst = of_int burst / 2 ^ 52 + 1 / 2 ^ 1000"

section \<open>Lemmas\<close>

lemma is_double_pow2: "-1074 \<le> e \<Longrightarrow> is_double (pow2 e)"
  unfolding is_double_def by (intro exI [of _ 1] exI [of _ e]) simp

lemma is_double_0: "is_double 0"
  using is_double_of_int [of 0] by simp

lemma of_int_le_pow2: "n \<le> 2 ^ k \<Longrightarrow> of_int n \<le> pow2 (int k)"
proof -
  assume "n \<le> 2 ^ k"
  then have "(of_int n :: rat) \<le> of_int (2 ^ k)" by (simp only: of_int_le_iff)
  then show ?thesis by (simp add: pow2_def)
qed

lemma pow2_below: "e < 1024 \<Longrightarrow> pow2 e < pow2 1024"
  using pow2_mono [of "e + 1" 1024] pow2_Suc [of e] pow2_pos [of e] by linarith

text \<open>A refill that has happened: the tokens grow, up to the size of the bucket.\<close>

lemma refill:
  assumes "sane_limit rps burst" and "0 \<le> x" and "x \<le> of_int burst" and "is_double x"
    and "0 \<le> d" and "is_int64 d"
  obtains p v where "f_add (Fin x) (f_mul (dur_Seconds d) (f_of_int rps)) = Fin v"
    "dur_Seconds d = Fin p" "is_double v" "x \<le> v" "fl (p * of_int rps) \<noteq> PosInf" "0 \<le> p"
    "v = round_mag (x + round_mag (p * of_int rps))"
proof -
  obtain p where p: "dur_Seconds d = Fin p" "of_int (d div second) \<le> p" "p \<le> of_int (d div second + 1)"
    using dur_Seconds_bounds [OF assms(5,6)] by blast
  have p0: "0 \<le> p"
  proof -
    have "0 \<le> d div second" using assms(5) by (simp add: second_def pos_imp_zdiv_nonneg_iff)
    then have "(0 :: rat) \<le> of_int (d div second)" by simp
    then show ?thesis using p(2) by linarith
  qed
  have "d div second \<le> 2 ^ 63 div second"
    using assms(6) by (intro zdiv_mono1) (simp_all add: is_int64_def second_def)
  then have "d div second + 1 \<le> 2 ^ 34" by (simp add: second_def)
  then have p34: "p \<le> pow2 34" using p(3) of_int_le_pow2 [of "d div second + 1" 34] by simp
  have rps: "0 \<le> (of_int rps :: rat)" "of_int rps \<le> pow2 20" "f_of_int rps = Fin (of_int rps)"
    using assms(1) of_int_le_pow2 [of rps 20] by (auto simp: sane_limit_def intro: f_of_int_exact)
  have "p * of_int rps \<le> pow2 34 * pow2 20" using p0 p34 rps by (intro mult_mono) auto
  also have "\<dots> = pow2 54" by (simp add: pow2_add [symmetric])
  finally obtain q where q: "fl (p * of_int rps) = Fin q" "0 \<le> q" "q \<le> pow2 54"
    using fl_le_double [of "p * of_int rps" "pow2 54"] p0 rps(1) is_double_pow2 [of 54] pow2_below [of 54]
    by auto
  have "of_int burst \<le> pow2 54"
    using assms(1) of_int_le_pow2 [of burst 20] pow2_mono [of 20 54] by (auto simp: sane_limit_def)
  then have sum: "x + q \<le> pow2 55" using assms(3) q(3) pow2_Suc [of 54] by simp
  then obtain v where v: "fl (x + q) = Fin v" "x \<le> v"
    using fl_between [OF assms(4,2), of "x + q" "pow2 55"] q is_double_pow2 [of 55] pow2_below [of 55] by auto
  have dv: "is_double v" using fl_Fin_double [OF v(1)] v(2) assms(2) by simp
  have rm: "q = round_mag (p * of_int rps)" "v = round_mag (x + q)"
    using q v fl_Fin_nonneg [of "p * of_int rps" q] fl_Fin_nonneg [of "x + q" v] p0 rps(1) assms(2) by auto
  show thesis
    by (rule that [of v p]) (use p(1) p0 rps q v dv rm in auto)
qed

text \<open>One request of a client in a sound state, in exact numbers.\<close>

lemma rate_take_ok:
  assumes "sane_limit rps burst" and "client_ok burst now c" and "c = rl_entry burst ip now clients"
  obtains x p y where "rl_tokens c = Fin x" "0 \<le> x" "x \<le> of_int burst"
    "dur_Seconds (time_Sub now (rl_lastSeen c)) = Fin p" "0 \<le> p"
    "y = min (of_int burst) (round_mag (x + round_mag (p * of_int rps)))"
    "x \<le> y" "is_double y"
    "rate_take rps burst ip now clients =
       (if y < 1 then (False, gm_put ip \<lparr>rl_tokens = Fin y, rl_lastSeen = now\<rparr> clients)
        else (True, gm_put ip \<lparr>rl_tokens = Fin (round_mag (y - 1)), rl_lastSeen = now\<rparr> clients))"
proof -
  obtain x where x: "rl_tokens c = Fin x" "0 \<le> x" "x \<le> of_int burst" "is_double x"
    using assms(2) by (auto simp: client_ok_def)
  have d: "0 \<le> time_Sub now (rl_lastSeen c)" "is_int64 (time_Sub now (rl_lastSeen c))"
    using assms(2) time_Sub_mono [of "rl_lastSeen c" now "rl_lastSeen c"] time_Sub_is_int64
    by (auto simp: client_ok_def)
  obtain p v where v: "f_add (Fin x) (f_mul (dur_Seconds (time_Sub now (rl_lastSeen c))) (f_of_int rps)) = Fin v"
    "dur_Seconds (time_Sub now (rl_lastSeen c)) = Fin p" "is_double v" "x \<le> v" "0 \<le> p"
    "v = round_mag (x + round_mag (p * of_int rps))"
    using refill [OF assms(1) x(2-4) d] by metis
  have b: "f_of_int burst = Fin (of_int burst)" "is_double (of_int burst)" "(of_int burst :: rat) < pow2 1024"
    using assms(1) by (auto simp: sane_limit_def intro!: f_of_int_exact is_double_of_int int_below_pow2_1024)
  let ?y = "min (of_int burst) v"
  have y: "is_double ?y" "x \<le> ?y" "0 \<le> ?y" "?y \<le> of_int burst" using b v x by (auto simp: min_def)
  have sub: "f_sub (Fin ?y) (Fin 1) = Fin (round_mag (?y - 1))" if "1 \<le> ?y"
  proof -
    have "?y - 1 \<le> of_int burst" "0 \<le> ?y - 1" using that y by linarith+
    from fl_le_double [OF this(2,1) b(2,3)] \<open>0 \<le> ?y - 1\<close> show ?thesis
      by (auto simp: f_sub_def fl_def Let_def split: if_splits)
  qed
  have "rate_take rps burst ip now clients =
      (if ?y < 1 then (False, gm_put ip \<lparr>rl_tokens = Fin ?y, rl_lastSeen = now\<rparr> clients)
       else (True, gm_put ip \<lparr>rl_tokens = Fin (round_mag (?y - 1)), rl_lastSeen = now\<rparr> clients))"
    unfolding rate_take_def rl_entry_def [symmetric] assms(3) [symmetric]
    using sub by (auto simp: x(1) v(1) b(1) Let_def min_def)
  with x v y show thesis by (intro that [of x p ?y]) auto
qed

lemma fresh_client_ok:
  assumes "sane_limit rps burst" and "gm_get clients ip = None"
  shows "client_ok burst now (rl_entry burst ip now clients)"
  using assms f_of_int_exact [of burst] is_double_of_int [of burst]
  by (auto simp: client_ok_def rl_entry_def sane_limit_def)

lemma rate_take_keeps_ok:
  assumes "sane_limit rps burst" and "client_ok burst now (rl_entry burst ip now clients)"
  obtains c where "client_ok burst now c" "rl_lastSeen c = now"
    "snd (rate_take rps burst ip now clients) = gm_put ip c clients"
proof -
  obtain x p y where y: "0 \<le> x" "x \<le> y" "is_double y" "y \<le> of_int burst"
    and take: "rate_take rps burst ip now clients =
       (if y < 1 then (False, gm_put ip \<lparr>rl_tokens = Fin y, rl_lastSeen = now\<rparr> clients)
        else (True, gm_put ip \<lparr>rl_tokens = Fin (round_mag (y - 1)), rl_lastSeen = now\<rparr> clients))"
    using rate_take_ok [OF assms refl] by (metis min.cobounded1)
  have "0 \<le> round_mag (y - 1)" "round_mag (y - 1) \<le> y" "is_double (round_mag (y - 1))"
    using round_mag_mono [of "y - 1" y] round_mag_double [OF y(3)] round_mag_is_double by auto
  with y show thesis
    by (intro that [of "\<lparr>rl_tokens = Fin (if y < 1 then y else round_mag (y - 1)), rl_lastSeen = now\<rparr>"])
      (auto simp: client_ok_def take)
qed

lemma client_ok_later: "client_ok burst t c \<Longrightarrow> t \<le> t' \<Longrightarrow> client_ok burst t' c"
  by (auto simp: client_ok_def)

lemma entry_ok:
  assumes "sane_limit rps burst" and "rl_inv burst (t, clients)" and "t \<le> t'"
  shows "client_ok burst t' (rl_entry burst ip t' clients)"
proof (cases "gm_get clients ip")
  case None
  then show ?thesis by (rule fresh_client_ok [OF assms(1)])
next
  case (Some c)
  then have "client_ok burst t c" using assms(2) gm_get_in_set [OF Some] by (auto simp: rl_inv_def)
  then show ?thesis using Some assms(3) by (auto simp: rl_entry_def intro: client_ok_later)
qed

lemma rl_step_inv:
  assumes "sane_limit rps burst" and "rl_inv burst s"
  shows "rl_inv burst (rl_step rps burst x s)"
proof (cases x)
  case (RlTake ip dt)
  obtain t clients where s: "s = (t, clients)" by (cases s)
  obtain c where "client_ok burst (t + int dt) c"
    "snd (rate_take rps burst ip (t + int dt) clients) = gm_put ip c clients"
    using rate_take_keeps_ok [OF assms(1) entry_ok [OF assms(1), of t clients "t + int dt" ip]] assms(2) s
    by auto
  moreover have "client_ok burst (t + int dt) c'" if "(ip', c') \<in> set clients" for ip' c'
    using that assms(2) by (auto simp: rl_inv_def s intro: client_ok_later)
  ultimately show ?thesis
    using assms(2) gm_set_put_subset [of ip c clients] by (auto simp: RlTake s rl_inv_def)
next
  case (RlClean dt)
  obtain t clients where s: "s = (t, clients)" by (cases s)
  have "gm_wf (rate_cleanup t' clients)" for t'
    using assms(2) by (auto simp: rl_inv_def s gm_wf_def rate_cleanup_def distinct_map_filter)
  then show ?thesis
    using assms(2) by (auto simp: RlClean s rl_inv_def rate_cleanup_def intro: client_ok_later)
qed

lemma deployed_limit: "sane_limit 100 200"
  by (simp add: sane_limit_def)

interpretation rlm: machine "rl_step 100 200" "\<lambda>s. snd s = []" "rl_inv 200"
  by unfold_locales (simp_all add: rl_step_inv deployed_limit, simp add: rl_inv_def)

subsection \<open>Requests at one instant\<close>

lemma round_mag_int: "0 \<le> n \<Longrightarrow> n \<le> 2 ^ 53 \<Longrightarrow> round_mag (of_int n) = of_int n"
  by (intro round_mag_double is_double_of_int)

lemma rate_take_whole:
  assumes "sane_limit rps burst" and "rl_entry burst ip t clients = \<lparr>rl_tokens = Fin (of_int m), rl_lastSeen = t\<rparr>"
    and "0 \<le> m" and "m \<le> burst"
  shows "fst (rate_take rps burst ip t clients) \<longleftrightarrow> 1 \<le> m"
    "rl_entry burst ip t (snd (rate_take rps burst ip t clients))
       = \<lparr>rl_tokens = Fin (of_int (if 1 \<le> m then m - 1 else m)), rl_lastSeen = t\<rparr>"
proof -
  have b: "burst \<le> 2 ^ 53" using assms(1) by (simp add: sane_limit_def)
  have ok: "client_ok burst t (rl_entry burst ip t clients)"
    using assms(2-4) b by (auto simp: client_ok_def intro: is_double_of_int)
  obtain x p y where "rl_tokens (rl_entry burst ip t clients) = Fin x"
    "dur_Seconds (time_Sub t (rl_lastSeen (rl_entry burst ip t clients))) = Fin p"
    "y = min (of_int burst) (round_mag (x + round_mag (p * of_int rps)))"
    and take: "rate_take rps burst ip t clients =
       (if y < 1 then (False, gm_put ip \<lparr>rl_tokens = Fin y, rl_lastSeen = t\<rparr> clients)
        else (True, gm_put ip \<lparr>rl_tokens = Fin (round_mag (y - 1)), rl_lastSeen = t\<rparr> clients))"
    by (rule rate_take_ok [OF assms(1) ok refl])
  then have y': "y = min (of_int burst) (round_mag (of_int m))" using assms(2) by auto
  have "m \<le> 2 ^ 53" using assms(4) b by linarith
  then have "round_mag (of_int m) = of_int m" by (intro round_mag_int assms(3))
  then have y: "y = of_int m" using assms(4) by (simp add: y')
  have one: "y - 1 = of_int (m - 1)" by (simp add: y)
  have lt: "y < 1 \<longleftrightarrow> \<not> 1 \<le> m" unfolding y by (metis not_le of_int_1 of_int_less_iff)
  show "fst (rate_take rps burst ip t clients) \<longleftrightarrow> 1 \<le> m" using take lt by simp
  have dec: "round_mag (y - 1) = of_int (m - 1)" if "1 \<le> m"
    unfolding one using that assms(4) b by (intro round_mag_int) auto
  show "rl_entry burst ip t (snd (rate_take rps burst ip t clients))
       = \<lparr>rl_tokens = Fin (of_int (if 1 \<le> m then m - 1 else m)), rl_lastSeen = t\<rparr>"
    using take lt dec y by (simp add: rl_entry_def gm_simps)
qed

lemma rate_run_instant:
  assumes "sane_limit rps burst"
    and "rl_entry burst ip t clients = \<lparr>rl_tokens = Fin (of_int (int m)), rl_lastSeen = t\<rparr>"
    and "int m \<le> burst"
  shows "fst (rate_run rps burst ip (replicate n t) clients) = replicate (min n m) True @ replicate (n - m) False"
  using assms
proof (induction n arbitrary: clients m)
  case (Suc n)
  obtain ok clients1 where take: "rate_take rps burst ip t clients = (ok, clients1)" by (metis surj_pair)
  note w = rate_take_whole [OF Suc.prems(1,2) _ Suc.prems(3), unfolded take]
  show ?case
  proof (cases m)
    case 0
    with w have "\<not> ok" "rl_entry burst ip t clients1 = \<lparr>rl_tokens = Fin (of_int (int 0)), rl_lastSeen = t\<rparr>"
      by simp_all
    with Suc.IH [of clients1 0] Suc.prems 0 take show ?thesis by (simp add: split_beta)
  next
    case (Suc k)
    with w have "ok" "rl_entry burst ip t clients1 = \<lparr>rl_tokens = Fin (of_int (int k)), rl_lastSeen = t\<rparr>"
      by simp_all
    with Suc.IH [of clients1 k] Suc.prems Suc take show ?thesis by (simp add: split_beta)
  qed
qed simp

subsection \<open>Requests over time\<close>

lemma refill_growth:
  assumes "0 \<le> A" and "0 \<le> r" and "r \<le> 2 ^ 20" and "0 \<le> x" and "x \<le> B"
  shows "grow (x + grow (grow (grow A) * r)) \<le> x + r * (1 + 1 / 2 ^ 50) * A + B / 2 ^ 53 + 1 / 2 ^ 1001"
proof -
  define d e where "d = (1 / 2 ^ 53 :: rat)" and "e = (1 / 2 ^ 1075 :: rat)"
  have g: "grow z = z + z * d + e" for z by (simp add: grow_def d_def e_def)
  have "grow (x + grow (grow (grow A) * r))
      = x + x * d + (1 + d) ^ 4 * (r * A) + (r * ((1 + d) ^ 3 + (1 + d) ^ 2) + (1 + d) + 1) * e"
    unfolding g by (simp add: power_numeral_reduce algebra_simps)
  moreover have "(1 + d) ^ 4 \<le> 1 + 1 / 2 ^ 50" by (simp add: d_def power_numeral_reduce)
  then have "(1 + d) ^ 4 * (r * A) \<le> (1 + 1 / 2 ^ 50) * (r * A)" using assms by (intro mult_right_mono) auto
  moreover have "x * d \<le> B * d" using assms by (intro mult_right_mono) (simp_all add: d_def)
  moreover have "(r * ((1 + d) ^ 3 + (1 + d) ^ 2) + (1 + d) + 1) * e \<le> 1 / 2 ^ 1001"
  proof -
    have d: "0 \<le> d" "(1 + d) ^ 3 + (1 + d) ^ 2 \<le> 4" "d \<le> 1" by (simp_all add: d_def power_numeral_reduce)
    have "r * ((1 + d) ^ 3 + (1 + d) ^ 2) \<le> 2 ^ 20 * 4"
      using assms d by (intro mult_mono) auto
    then have "r * ((1 + d) ^ 3 + (1 + d) ^ 2) + (1 + d) + 1 \<le> 2 ^ 23" using d(3) by simp
    then have "(r * ((1 + d) ^ 3 + (1 + d) ^ 2) + (1 + d) + 1) * e \<le> 2 ^ 23 * e"
      by (intro mult_right_mono) (simp_all add: e_def)
    also have "\<dots> \<le> 1 / 2 ^ 1001" by (simp add: e_def)
    finally show ?thesis .
  qed
  ultimately show ?thesis by (simp add: d_def algebra_simps)
qed

text \<open>One request: what it takes and leaves is at most what was there and the refill.\<close>

lemma rate_take_bound:
  assumes "sane_limit rps burst" and "client_ok burst now c" and "c = rl_entry burst ip now clients"
    and "rl_tokens c = Fin x" and "is_int64 (now - rl_lastSeen c)"
  obtains z where "rl_entry burst ip now' (snd (rate_take rps burst ip now clients))
      = \<lparr>rl_tokens = Fin z, rl_lastSeen = now\<rparr>"
    "(if fst (rate_take rps burst ip now clients) then 1 else 0) + z
      \<le> x + refill_rate rps * (of_int (now - rl_lastSeen c) / 1000000000) + step_error burst"
proof -
  let ?A = "of_int (now - rl_lastSeen c) / 1000000000 :: rat" and ?B = "of_int burst :: rat"
  obtain x' p y where o: "rl_tokens c = Fin x'" "0 \<le> x'" "x' \<le> ?B"
    "dur_Seconds (time_Sub now (rl_lastSeen c)) = Fin p" "0 \<le> p"
    "y = min ?B (round_mag (x' + round_mag (p * of_int rps)))"
    "x' \<le> y" "is_double y"
    "rate_take rps burst ip now clients =
       (if y < 1 then (False, gm_put ip \<lparr>rl_tokens = Fin y, rl_lastSeen = now\<rparr> clients)
        else (True, gm_put ip \<lparr>rl_tokens = Fin (round_mag (y - 1)), rl_lastSeen = now\<rparr> clients))"
    by (rule rate_take_ok [OF assms(1-3)])
  have x: "x' = x" using o(1) assms(4) by simp
  have last: "0 \<le> now - rl_lastSeen c" using assms(2) by (simp add: client_ok_def)
  then have A: "0 \<le> ?A" by simp
  have r: "0 \<le> (of_int rps :: rat)" "(of_int rps :: rat) \<le> 2 ^ 20" "0 \<le> ?B"
    using assms(1) of_int_le_pow2 [of rps 20] by (simp_all add: sane_limit_def pow2_def)
  have "p \<le> grow (grow ?A)"
    using dur_Seconds_grow [OF _ assms(5)] o(4) last by (simp add: time_Sub_exact [OF assms(5)])
  then have "p * of_int rps \<le> grow (grow ?A) * of_int rps" using r by (intro mult_right_mono) auto
  then have "round_mag (p * of_int rps) \<le> grow (grow (grow ?A) * of_int rps)"
    using o(5) r by (intro round_mag_grow) auto
  then have "round_mag (x + round_mag (p * of_int rps)) \<le> grow (x + grow (grow (grow ?A) * of_int rps))"
    using o(2) x by (intro round_mag_grow) auto
  also have "\<dots> \<le> x + refill_rate rps * ?A + ?B / 2 ^ 53 + 1 / 2 ^ 1001"
    unfolding refill_rate_def using refill_growth [OF A r(1,2)] o(2,3) x by blast
  finally have y: "y \<le> x + refill_rate rps * ?A + ?B / 2 ^ 53 + 1 / 2 ^ 1001" using o(6) x by simp
  have z: "round_mag (y - 1) \<le> (y - 1) + ?B / 2 ^ 53 + 1 / 2 ^ 1001" if "1 \<le> y"
  proof -
    have "(y - 1) / 2 ^ 53 \<le> ?B / 2 ^ 53" using o(6) by (intro divide_right_mono) auto
    moreover have "(1 :: rat) / 2 ^ 1075 \<le> 1 / 2 ^ 1001" by simp
    ultimately show ?thesis using round_mag_error [of "y - 1"] that by linarith
  qed
  have err: "step_error burst = ?B / 2 ^ 53 + ?B / 2 ^ 53 + 1 / 2 ^ 1001 + 1 / 2 ^ 1001" "0 \<le> ?B / 2 ^ 53"
    "(0 :: rat) \<le> 1 / 2 ^ 1001"
    using r(3) by (simp_all add: step_error_def)
  show thesis
  proof (cases "y < 1")
    case True
    then show ?thesis
      using o(9) y err by (intro that [of y]) (auto simp: rl_entry_def gm_simps)
  next
    case False
    then show ?thesis
      using o(9) y z err by (intro that [of "round_mag (y - 1)"]) (auto simp: rl_entry_def gm_simps)
  qed
qed

lemma rate_run_bound:
  assumes "sane_limit rps burst" and "sorted (t0 # ts)" and "is_int64 (last (t0 # ts) - t0)"
    and "\<And>t. t \<in> set (take 1 ts) \<Longrightarrow> rl_entry burst ip t clients = c"
    and "client_ok burst t0 c" and "rl_tokens c = Fin x" and "rl_lastSeen c = t0"
  shows "accepted (fst (rate_run rps burst ip ts clients))
    \<le> x + refill_rate rps * (of_int (last (t0 # ts) - t0) / 1000000000) + of_nat (length ts) * step_error burst"
  using assms(2-)
proof (induction ts arbitrary: t0 clients c x)
  case Nil
  then show ?case by (auto simp: accepted_def client_ok_def)
next
  case (Cons t ts)
  let ?T = "last (t0 # t # ts)"
  have c: "c = rl_entry burst ip t clients" using Cons.prems(3) by simp
  have order: "t0 \<le> t" "t \<le> ?T" "sorted (t # ts)" using Cons.prems(1) by (auto simp: last_in_set)
  have i64: "is_int64 (t - rl_lastSeen c)" "is_int64 (last (t # ts) - t)"
    using Cons.prems(2,6) order by (auto simp: is_int64_def)
  have ok: "client_ok burst t c" using Cons.prems(4) order(1) by (rule client_ok_later)
  obtain b clients1 where take: "rate_take rps burst ip t clients = (b, clients1)" by (metis surj_pair)
  have "\<exists>z. \<forall>t'. rl_entry burst ip t' clients1 = \<lparr>rl_tokens = Fin z, rl_lastSeen = t\<rparr>"
    using rate_take_ok [OF assms(1) ok c] take
    by (metis (no_types, lifting) gm.get_put_same option.simps(5) prod.inject rl_entry_def)
  then obtain z where z: "\<And>t'. rl_entry burst ip t' clients1 = \<lparr>rl_tokens = Fin z, rl_lastSeen = t\<rparr>" by blast
  have bound: "(if b then 1 else 0) + z
      \<le> x + refill_rate rps * (of_int (t - t0) / 1000000000) + step_error burst"
    using rate_take_bound [OF assms(1) ok c Cons.prems(5) i64(1), of t] take z Cons.prems(6)
    by (metis fst_conv rl_client.select_convs(1) float64.inject snd_conv)
  have "client_ok burst t (rl_entry burst ip t clients1)"
    using rate_take_keeps_ok [OF assms(1), of t ip clients] ok c take
    by (metis gm.get_put_same option.simps(5) rl_entry_def snd_conv)
  then have "accepted (fst (rate_run rps burst ip ts clients1))
      \<le> z + refill_rate rps * (of_int (last (t # ts) - t) / 1000000000) + of_nat (length ts) * step_error burst"
    using Cons.IH [OF order(3) i64(2), of clients1 "\<lparr>rl_tokens = Fin z, rl_lastSeen = t\<rparr>" z] z by simp
  moreover have "accepted (fst (rate_run rps burst ip (t # ts) clients))
      = (if b then 1 else 0) + accepted (fst (rate_run rps burst ip ts clients1))"
    by (simp add: take accepted_def split_beta)
  moreover have "refill_rate rps * (of_int (?T - t0) / 1000000000)
      = refill_rate rps * (of_int (t - t0) / 1000000000) + refill_rate rps * (of_int (last (t # ts) - t) / 1000000000)"
    by (simp add: algebra_simps diff_divide_distrib)
  moreover have "of_nat (length (t # ts)) * step_error burst = step_error burst + of_nat (length ts) * step_error burst"
    by (simp add: algebra_simps)
  ultimately show ?case using bound by linarith
qed

section \<open>Properties\<close>

text \<open>
  No bucket ever overflows or goes negative: with the limits the router installs, whatever the
  order of requests and cleanups on a clock that does not go back, every client has a finite
  number of tokens between 0 and 200.
\<close>

theorem rate_limit_invariant:
  "\<forall>(ip, c) \<in> set (snd (fold (rl_step 100 200) ops (t, []))).
     \<exists>x. rl_tokens c = Fin x \<and> 0 \<le> x \<and> x \<le> 200"
  using rlm.reachable_inv [of "(t, [])" ops] by (fastforce simp: rl_inv_def client_ok_def)

text \<open>
  A burst is exact: of any number of requests a new client makes at one instant, the first
  \<open>burst\<close> are admitted and all others refused, in spite of floating-point tokens.
\<close>

theorem burst_is_exact:
  assumes "sane_limit rps burst" and "gm_get clients ip = None"
  shows "fst (rate_run rps burst ip (replicate n t) clients)
    = replicate (min n (nat burst)) True @ replicate (n - nat burst) False"
proof -
  have "rl_entry burst ip t clients = \<lparr>rl_tokens = Fin (of_int (int (nat burst))), rl_lastSeen = t\<rparr>"
    using assms f_of_int_exact [of burst] by (simp add: rl_entry_def sane_limit_def)
  then show ?thesis using assms(1) by (intro rate_run_instant) (auto simp: sane_limit_def)
qed

theorem burst_is_exact_witness:
  "fst (rate_run 1 2 ''ip'' (replicate 3 0) []) = [True, True, False]"
  using burst_is_exact [of 1 2 "[]" "''ip''" 3 0] by (simp add: sane_limit_def numeral_eq_Suc)

text \<open>
  A refused client is not locked out: with at least one request per second configured, a
  client that has been idle for a second is admitted.
\<close>

theorem rate_limit_recovers:
  assumes "sane_limit rps burst" and "1 \<le> rps" and "gm_get clients ip = Some c"
    and "client_ok burst t c" and "rl_lastSeen c + second \<le> t"
  shows "fst (rate_take rps burst ip t clients)"
proof -
  have c: "c = rl_entry burst ip t clients" using assms(3) by (simp add: rl_entry_def)
  obtain x p y where o: "0 \<le> x" "dur_Seconds (time_Sub t (rl_lastSeen c)) = Fin p"
    "y = min (of_int burst) (round_mag (x + round_mag (p * of_int rps)))"
    and take: "rate_take rps burst ip t clients =
       (if y < 1 then (False, gm_put ip \<lparr>rl_tokens = Fin y, rl_lastSeen = t\<rparr> clients)
        else (True, gm_put ip \<lparr>rl_tokens = Fin (round_mag (y - 1)), rl_lastSeen = t\<rparr> clients))"
    by (rule rate_take_ok [OF assms(1,4) c])
  have d: "second \<le> time_Sub t (rl_lastSeen c)"
    using assms(5) by (intro time_Sub_ge) (simp_all add: time_defs)
  then have "0 \<le> time_Sub t (rl_lastSeen c)" by (simp add: second_def)
  from dur_Seconds_bounds [OF this time_Sub_is_int64] o(2)
  have p: "of_int (time_Sub t (rl_lastSeen c) div second) \<le> p" by auto
  have "second div second \<le> time_Sub t (rl_lastSeen c) div second"
    using d by (intro zdiv_mono1) (simp_all add: second_def)
  then have "1 \<le> time_Sub t (rl_lastSeen c) div second" by (simp add: second_def)
  then have "(1 :: rat) \<le> of_int (time_Sub t (rl_lastSeen c) div second)" by simp
  then have "1 * 1 \<le> p * (of_int rps :: rat)" using p assms(2) by (intro mult_mono) auto
  then have "1 \<le> round_mag (p * of_int rps)" using round_mag_mono [of 1 "p * of_int rps"] round_mag_int [of 1] by simp
  then have "1 \<le> round_mag (x + round_mag (p * of_int rps))"
    using round_mag_mono [of 1 "x + round_mag (p * of_int rps)"] round_mag_int [of 1] o(1) by simp
  moreover have "(1 :: rat) \<le> of_int burst" using assms(1) by (simp add: sane_limit_def)
  ultimately have "1 \<le> y" using o(3) by simp
  then show ?thesis by (simp add: take)
qed

theorem rate_limit_recovers_witness:
  "fst (rate_take 100 200 ''ip'' 2000000000 [(''ip'', \<lparr>rl_tokens = Fin 0, rl_lastSeen = 0\<rparr>)])"
  by (rule rate_limit_recovers [where c = "\<lparr>rl_tokens = Fin 0, rl_lastSeen = 0\<rparr>"])
    (simp_all add: deployed_limit gm_get_def client_ok_def is_double_0 second_def)

text \<open>
  C22: The limit holds over time: among any requests of a new client (up to 2^40 of them, over up to
  2^30 seconds), at most 200, plus 100 for every second between the first and the last, plus
  one for accumulated rounding errors, are admitted.
\<close>

theorem rate_limit_long_run:
  assumes "gm_get clients ip = None" and "sorted (t0 # ts)" and "length ts < 2 ^ 40"
    and "last (t0 # ts) - t0 \<le> 2 ^ 30 * second"
  shows "accepted (fst (rate_run 100 200 ip (t0 # ts) clients))
    \<le> 200 + 100 * (of_int (last (t0 # ts) - t0) / 1000000000) + 1"
proof -
  let ?T = "last (t0 # ts) - t0" and ?n = "of_nat (length (t0 # ts)) :: rat"
  let ?S = "of_int ?T / 1000000000 :: rat"
  have T: "0 \<le> ?T" "is_int64 ?T"
    using assms(2,4) last_in_set [of "t0 # ts"] by (auto simp: is_int64_def second_def)
  have "(of_int ?T :: rat) \<le> of_int (2 ^ 30 * second)" using assms(4) by (simp only: of_int_le_iff)
  then have S: "0 \<le> ?S" "?S \<le> 2 ^ 30" using T(1) by (simp_all add: second_def)
  have c: "rl_entry 200 ip t0 clients = \<lparr>rl_tokens = Fin 200, rl_lastSeen = t0\<rparr>"
    using assms(1) f_of_int_exact [of 200] by (simp add: rl_entry_def)
  then have ok: "client_ok 200 t0 \<lparr>rl_tokens = Fin 200, rl_lastSeen = t0\<rparr>"
    using fresh_client_ok [OF deployed_limit assms(1), of t0] by simp
  have "sorted (t0 # t0 # ts)" using assms(2) by simp
  from rate_run_bound [OF deployed_limit this _ _ ok, of ip clients 200] T(2) c
  have bound: "accepted (fst (rate_run 100 200 ip (t0 # ts) clients))
      \<le> 200 + refill_rate 100 * ?S + ?n * step_error 200" by simp
  have "?n \<le> 2 ^ 40" using assms(3) by (metis Suc_leI length_Cons of_nat_le_iff of_nat_numeral of_nat_power)
  then have "?n * step_error 200 \<le> 2 ^ 40 * step_error 200"
    by (intro mult_right_mono) (simp_all add: step_error_def)
  also have "\<dots> \<le> 1 / 2" by (simp add: step_error_def)
  finally have "?n * step_error 200 \<le> 1 / 2" .
  moreover have "refill_rate 100 * x \<le> 100 * x + 1 / 2" if "0 \<le> x" "x \<le> 2 ^ 30" for x
    using that by (simp add: refill_rate_def)
  from this [OF S] have "refill_rate 100 * ?S \<le> 100 * ?S + 1 / 2" .
  ultimately show ?thesis using bound by linarith
qed

theorem rate_limit_long_run_witness:
  "accepted (fst (rate_run 100 200 ''ip'' [0, 0, 1000000000] [])) \<le> 301"
  using rate_limit_long_run [of "[]" "''ip''" 0 "[0, 1000000000]"] by (simp add: second_def)

end
