(* ===== verification/API_Middleware.thy ===== *)
theory API_Middleware
  imports API_Auth API_Rate_Limit
begin

text \<open>
  \<open>internal/api/middleware.go\<close>: every middleware as a function from handlers to handlers,
  and their composition.

  The section of \<open>RateLimit\<close> that holds the lock is \<open>rate_take\<close> of \<open>API_Rate_Limit\<close>. A histogram observation counts one in the cell of its metric.
  The pool of gzip writers has no effect on the output and is not modelled: \<open>Compress\<close> turns
  what the handler wrote into one compressed chunk, and closing the gzip writer, which happens
  on a panic too, writes to the response.
\<close>

section \<open>Paths and addresses\<close>

text \<open>The runes a \<open>range\<close> over a string visits, each as \<open>string(c)\<close> encodes it.\<close>

function string_runes :: "string \<Rightarrow> string list" where
  "string_runes s =
     (if s = [] then []
      else if rune_len s = 0 then replacement # string_runes (drop 1 s)
      else take (rune_len s) s # string_runes (drop (rune_len s) s))"
  by pat_completeness auto
termination by (relation "measure length") auto

declare string_runes.simps [simp del]

definition split_step :: "string \<Rightarrow> string list \<times> string \<Rightarrow> string list \<times> string" where
  "split_step c acc =
     (case acc of
        (parts, current) \<Rightarrow>
          if c = ''/'' then (if current \<noteq> '''' then (parts @ [current], '''') else (parts, current))
          else (parts, current @ c))"

definition splitPath :: "string \<Rightarrow> string list" where
  "splitPath path =
     (case fold split_step (string_runes path) ([], '''') of
        (parts, current) \<Rightarrow> if current \<noteq> '''' then parts @ [current] else parts)"

definition normalizePath :: "string \<Rightarrow> string" where
  "normalizePath path =
     (let parts = splitPath path
      in if 2 \<le> length parts \<and> parts ! 0 = ''coins'' then
           (if length parts = 2 then ''/coins/{symbol}''
            else if length parts = 3 \<and> parts ! 2 = ''history'' then ''/coins/{symbol}/history''
            else path)
         else path)"

definition extractClientIP :: "http_request \<Rightarrow> string" where
  "extractClientIP r =
     (let xff = Header_Get ''X-Forwarded-For'' r
      in if xff \<noteq> '''' then takeWhile (\<lambda>c. c \<noteq> CHR '','') xff
         else
           let xri = Header_Get ''X-Real-Ip'' r
           in if xri \<noteq> '''' then xri else rq_RemoteAddr r)"

section \<open>The middleware\<close>

definition generateRequestID :: "'a api_env \<Rightarrow> 'a \<Rightarrow> string \<times> 'a" where
  "generateRequestID env a = (case ae_Rand env 16 a of (b, a1) \<Rightarrow> (hex_EncodeToString b, a1))"

definition GetRequestID :: "http_request \<Rightarrow> string" where
  "GetRequestID r = (case rq_RequestID r of Some i \<Rightarrow> i | None \<Rightarrow> '''')"

definition RequestID :: "'a api_env \<Rightarrow> 'a middleware" where
  "RequestID env next r w st =
     (let i0 = Header_Get ''X-Request-ID'' r
      in case (if i0 = '''' then generateRequestID env (as_app st) else (i0, as_app st)) of
           (i, a) \<Rightarrow> next (r\<lparr>rq_RequestID := Some i\<rparr>) (Header_Set ''X-Request-ID'' i w) (st\<lparr>as_app := a\<rparr>))"

text \<open>The status code a wrapping \<open>responseWriter\<close> has seen: 200 until \<open>WriteHeader\<close> is called.\<close>

definition responseWriter_status :: "writer \<Rightarrow> writer \<Rightarrow> int" where
  "responseWriter_status before after =
     (let codes = drop (length (wr_codes before)) (wr_codes after)
      in if codes = [] then 200 else last codes)"

definition Logging :: "'a api_env \<Rightarrow> 'a middleware" where
  "Logging env next r w st =
     (case api_Now env st of
        (start, st1) \<Rightarrow>
          (case next r w st1 of
             (Some p, w1, st2) \<Rightarrow> (Some p, w1, st2)
           | (None, w1, st2) \<Rightarrow>
               (case api_Now env st2 of
                  (now, st3) \<Rightarrow>
                    (None, w1, st3\<lparr>as_log := as_log st3 @
                       [\<lparr>ac_RequestID = GetRequestID r, ac_Method = rq_Method r, ac_Path = rq_Path r,
                         ac_Status = responseWriter_status w w1, ac_Duration = time_Sub now start\<rparr>]\<rparr>))))"

definition Metrics :: "'a api_env \<Rightarrow> 'a middleware" where
  "Metrics env next r w st =
     (case api_Now env st of
        (start, st1) \<Rightarrow>
          (case next r w st1 of
             (Some p, w1, st2) \<Rightarrow> (Some p, w1, st2)
           | (None, w1, st2) \<Rightarrow>
               (case api_Now env st2 of
                  (now, st3) \<Rightarrow>
                    (let labels = [rq_Method r, normalizePath (rq_Path r), strconv_Itoa (responseWriter_status w w1)]
                     in (None, w1, st3\<lparr>as_metrics :=
                           m_inc ''http_responses_total'' labels
                             (m_inc ''http_request_duration_seconds_count'' labels (as_metrics st3))\<rparr>)))))"

definition Recover :: "'a middleware" where
  "Recover next r w st =
     (case next r w st of
        (Some p, w1, st1) \<Rightarrow> (None, writeJSON 500 (ErrorResponse ''internal server error'') w1, st1)
      | (None, w1, st1) \<Rightarrow> (None, w1, st1))"

definition security_headers :: "(string \<times> string) list" where
  "security_headers =
     [(''X-Content-Type-Options'', ''nosniff''), (''X-Frame-Options'', ''DENY''),
      (''X-XSS-Protection'', ''0''), (''Referrer-Policy'', ''strict-origin-when-cross-origin''),
      (''Cache-Control'', ''no-store''),
      (''Content-Security-Policy'', ''default-src '' @ [CHR 0x27] @ ''none'' @ [CHR 0x27]
          @ ''; frame-ancestors '' @ [CHR 0x27] @ ''none'' @ [CHR 0x27]),
      (''Strict-Transport-Security'', ''max-age=63072000; includeSubDomains''),
      (''Permissions-Policy'', ''camera=(), microphone=(), geolocation=()'')]"

definition SecurityHeaders :: "'a middleware" where
  "SecurityHeaders next r w st = next r (fold (\<lambda>(k, v). Header_Set k v) security_headers w) st"

definition MaxBodySize :: "int \<Rightarrow> 'a middleware" where
  "MaxBodySize maxBytes next r w st =
     (if maxBytes < rq_ContentLength r
      then (None, writeJSON 413 (ErrorResponse ''request body too large'') w, st)
      else next (r\<lparr>rq_BodyLimit := Some maxBytes\<rparr>) w st)"

definition RateLimit :: "'a api_env \<Rightarrow> int \<Rightarrow> int \<Rightarrow> 'a middleware" where
  "RateLimit env requestsPerSecond burst next r w st =
     (case api_Now env st of
        (now, st1) \<Rightarrow>
          (case rate_take requestsPerSecond burst (extractClientIP r) now (as_clients st1) of
             (False, clients) \<Rightarrow>
               (None, writeJSON 429 (ErrorResponse ''rate limit exceeded'') (Header_Set ''Retry-After'' ''1'' w),
                st1\<lparr>as_clients := clients\<rparr>)
           | (True, clients) \<Rightarrow> next r w (st1\<lparr>as_clients := clients\<rparr>)))"

fun strings_Contains :: "string \<Rightarrow> string \<Rightarrow> bool" where
  "strings_Contains [] sub = (sub = [])"
| "strings_Contains (c # s) sub = (take (length sub) (c # s) = sub \<or> strings_Contains s sub)"

definition gzip_close :: "writer \<Rightarrow> writer \<Rightarrow> writer" where
  "gzip_close w w1 = (send_header 200 w1)\<lparr>wr_body := wr_body w @ [GzipChunk (wr_body w1)]\<rparr>"

definition Compress :: "'a middleware" where
  "Compress next r w st =
     (if \<not> strings_Contains (Header_Get ''Accept-Encoding'' r) ''gzip'' then next r w st
      else if strings_Contains (Header_Get ''Accept'' r) ''text/event-stream'' then next r w st
      else
        let w0 = Header_Set ''Vary'' ''Accept-Encoding'' (Header_Set ''Content-Encoding'' ''gzip'' w)
        in case next r (w0\<lparr>wr_body := []\<rparr>) st of (p, w1, st1) \<Rightarrow> (p, gzip_close w0 w1, st1))"

text \<open>The loop of \<open>Chain\<close>, from index \<open>i - 1\<close> down.\<close>

fun Chain_loop :: "'a middleware list \<Rightarrow> nat \<Rightarrow> 'a handler \<Rightarrow> 'a handler" where
  "Chain_loop mws 0 h = h"
| "Chain_loop mws (Suc i) h = Chain_loop mws i ((mws ! i) h)"

definition Chain :: "'a handler \<Rightarrow> 'a middleware list \<Rightarrow> 'a handler" where
  "Chain h mws = Chain_loop mws (length mws) h"

text \<open>The middleware of \<open>NewRouter\<close>, around whatever answers the routes.\<close>

definition api_middlewares :: "'a api_env \<Rightarrow> AuthConfig \<Rightarrow> 'a middleware list" where
  "api_middlewares env authCfg =
     [Recover, RequestID env, SecurityHeaders, Authenticate env authCfg, RateLimit env 100 200,
      MaxBodySize (2 ^ 20), Compress, Logging env, Metrics env]"

section \<open>Specifications\<close>

text \<open>A writer carries a header: its value is set, and it was sent with it if anything was sent.\<close>

definition writer_has :: "string \<Rightarrow> string \<Rightarrow> writer \<Rightarrow> bool" where
  "writer_has k v w \<longleftrightarrow>
     gm_get (wr_Header w) k = Some v \<and>
     (case wr_sent w of None \<Rightarrow> True | Some (c, hs) \<Rightarrow> gm_get hs k = Some v)"

definition keeps_header :: "string \<Rightarrow> string \<Rightarrow> 'a handler \<Rightarrow> bool" where
  "keeps_header k v h \<longleftrightarrow> (\<forall>r w st. writer_has k v w \<longrightarrow> writer_has k v (fst (snd (h r w st))))"

text \<open>The headers every response must carry: the request's identifier and the security headers.\<close>

definition protected_headers :: "string \<Rightarrow> (string \<times> string) list" where
  "protected_headers i = (''X-Request-Id'', i) # map (\<lambda>(k, v). (header_key k, v)) security_headers"

text \<open>A handler that drops or changes none of them.\<close>

definition header_safe :: "'a handler \<Rightarrow> bool" where
  "header_safe h \<longleftrightarrow> (\<forall>i. list_all (\<lambda>(k, v). keeps_header k v h) (protected_headers i))"

text \<open>A handler that answers unless it panics.\<close>

definition answered :: "writer \<Rightarrow> bool" where
  "answered w \<longleftrightarrow> wr_sent w \<noteq> None"

definition responds :: "'a handler \<Rightarrow> bool" where
  "responds h \<longleftrightarrow> (\<forall>r w st. fst (h r w st) = None \<longrightarrow> answered (fst (snd (h r w st))))"

section \<open>Lemmas\<close>

lemma Chain_foldr: "Chain h mws = foldr (\<lambda>m. m) mws h"
proof -
  have "i \<le> length mws \<Longrightarrow> Chain_loop mws i h = foldr (\<lambda>m. m) (take i mws) h" for i
    by (induction i arbitrary: h) (simp_all add: take_Suc_conv_app_nth)
  then show ?thesis by (simp add: Chain_def)
qed

subsection \<open>Headers\<close>

named_theorems has_intros \<open>calls that keep a header\<close>

lemma has_Header_Set [has_intros]:
  "header_key k' \<noteq> k \<Longrightarrow> writer_has k v w \<Longrightarrow> writer_has k v (Header_Set k' v' w)"
  by (auto simp: writer_has_def Header_Set_def gm_simps split: option.splits)

lemma has_send_header [has_intros]: "writer_has k v w \<Longrightarrow> writer_has k v (send_header c w)"
  by (auto simp: writer_has_def send_header_def split: option.splits)

lemma has_update [simp]:
  "writer_has k v (w\<lparr>wr_body := b\<rparr>) = writer_has k v w" "writer_has k v (w\<lparr>wr_codes := cs\<rparr>) = writer_has k v w"
  by (simp_all add: writer_has_def)

lemma has_WriteHeader [has_intros]: "writer_has k v w \<Longrightarrow> writer_has k v (WriteHeader c w)"
  by (simp add: WriteHeader_def has_intros)

lemma has_Write [has_intros]: "writer_has k v w \<Longrightarrow> writer_has k v (Write ch w)"
  by (simp add: Write_def Let_def has_intros)

lemma inner_header_keys:
  "header_key ''Content-Encoding'' = ''Content-Encoding''" "header_key ''Vary'' = ''Vary''"
  "header_key ''Retry-After'' = ''Retry-After''" "header_key ''WWW-Authenticate'' = ''Www-Authenticate''"
  "header_key ''Content-Type'' = ''Content-Type''"
  by code_simp+

lemma has_writeJSON [has_intros]:
  "k \<noteq> ''Content-Type'' \<Longrightarrow> writer_has k v w \<Longrightarrow> writer_has k v (writeJSON c x w)"
  by (simp add: writeJSON_def Let_def has_intros inner_header_keys)

lemma has_gzip_close: "writer_has k v w1 \<Longrightarrow> writer_has k v (gzip_close w w1)"
  by (simp add: gzip_close_def has_intros)

lemma keeps_headerI: "(\<And>r w st. writer_has k v w \<Longrightarrow> writer_has k v (fst (snd (h r w st)))) \<Longrightarrow> keeps_header k v h"
  by (simp add: keeps_header_def)

lemma keeps_headerD:
  "keeps_header k v h \<Longrightarrow> writer_has k v w \<Longrightarrow> writer_has k v (fst (snd (h r w st)))"
  by (simp add: keeps_header_def)

text \<open>The keys the inner middleware sets.\<close>

definition inner_keys :: "string list" where
  "inner_keys =
     [''Content-Type'', ''Content-Encoding'', ''Vary'', ''Retry-After'', ''Www-Authenticate'']"

lemma keeps_Metrics: "keeps_header k v h \<Longrightarrow> keeps_header k v (Metrics env h)"
proof (rule keeps_headerI)
  fix r w st
  have "fst (snd (Metrics env h r w st)) = fst (snd (h r w (snd (api_Now env st))))"
    by (simp add: Metrics_def Let_def split_beta split: option.split)
  then show "keeps_header k v h \<Longrightarrow> writer_has k v w \<Longrightarrow> writer_has k v (fst (snd (Metrics env h r w st)))"
    by (simp add: keeps_headerD)
qed

lemma keeps_Logging: "keeps_header k v h \<Longrightarrow> keeps_header k v (Logging env h)"
proof (rule keeps_headerI)
  fix r w st
  have "fst (snd (Logging env h r w st)) = fst (snd (h r w (snd (api_Now env st))))"
    by (simp add: Logging_def split_beta split: option.split)
  then show "keeps_header k v h \<Longrightarrow> writer_has k v w \<Longrightarrow> writer_has k v (fst (snd (Logging env h r w st)))"
    by (simp add: keeps_headerD)
qed

lemma keeps_Recover:
  assumes "k \<noteq> ''Content-Type''" and "keeps_header k v h"
  shows "keeps_header k v (Recover h)"
proof (rule keeps_headerI)
  fix r w st
  assume "writer_has k v w"
  then have "writer_has k v (fst (snd (h r w st)))" by (rule keeps_headerD [OF assms(2)])
  then show "writer_has k v (fst (snd (Recover h r w st)))"
    using assms(1) by (simp add: Recover_def split_beta has_intros split: option.split)
qed

lemma keeps_Compress:
  assumes "k \<notin> set inner_keys" and "keeps_header k v h"
  shows "keeps_header k v (Compress h)"
proof (rule keeps_headerI)
  fix r w st
  assume has: "writer_has k v w"
  let ?w0 = "Header_Set ''Vary'' ''Accept-Encoding'' (Header_Set ''Content-Encoding'' ''gzip'' w)"
  have "writer_has k v (?w0\<lparr>wr_body := []\<rparr>)"
    using assms(1) has by (auto simp: inner_keys_def inner_header_keys intro!: has_intros)
  from keeps_headerD [OF assms(2) this] keeps_headerD [OF assms(2) has]
  show "writer_has k v (fst (snd (Compress h r w st)))"
    by (simp add: Compress_def Let_def split_beta has_gzip_close)
qed

lemma keeps_MaxBodySize:
  "k \<notin> set inner_keys \<Longrightarrow> keeps_header k v h \<Longrightarrow> keeps_header k v (MaxBodySize n h)"
  by (rule keeps_headerI) (auto simp: MaxBodySize_def inner_keys_def intro: has_intros keeps_headerD)

lemma keeps_RateLimit:
  assumes "k \<notin> set inner_keys" and "keeps_header k v h"
  shows "keeps_header k v (RateLimit env rps burst h)"
proof (rule keeps_headerI)
  fix r w st
  assume has: "writer_has k v w"
  then have "writer_has k v (writeJSON 429 x (Header_Set ''Retry-After'' ''1'' w))" for x
    using assms(1) by (auto simp: inner_keys_def inner_header_keys intro!: has_intros)
  with has show "writer_has k v (fst (snd (RateLimit env rps burst h r w st)))"
    by (auto simp: RateLimit_def split: prod.split bool.split intro: keeps_headerD [OF assms(2)])
qed

lemma keeps_Authenticate:
  assumes "k \<notin> set inner_keys" and "keeps_header k v h"
  shows "keeps_header k v (Authenticate env cfg h)"
proof (rule keeps_headerI)
  fix r w st
  assume has: "writer_has k v w"
  then have "writer_has k v (writeJSON 401 x (Header_Set ''WWW-Authenticate'' challenge w))" for x
    using assms(1) by (auto simp: inner_keys_def inner_header_keys intro!: has_intros)
  with has show "writer_has k v (fst (snd (Authenticate env cfg h r w st)))"
    by (auto simp: Authenticate_def split: prod.split bool.split intro: keeps_headerD [OF assms(2)])
qed

lemma fold_Header_Set:
  "gm_get (wr_Header (fold (\<lambda>(k, v). Header_Set k v) kvs w)) k' =
     (case map_of (rev (map (\<lambda>(k, v). (header_key k, v)) kvs)) k' of
        Some v \<Rightarrow> Some v
      | None \<Rightarrow> gm_get (wr_Header w) k')"
  "wr_sent (fold (\<lambda>(k, v). Header_Set k v) kvs w) = wr_sent w"
  by (induction kvs arbitrary: w)
    (auto simp: Header_Set_def gm_simps map_add_def split: option.splits)

lemma security_table:
  "list_all (\<lambda>(k, v). map_of (rev (map (\<lambda>(k, v). (header_key k, v)) security_headers)) (header_key k) = Some v
       \<and> header_key k \<notin> set inner_keys) security_headers"
  "map_of (rev (map (\<lambda>(k, v). (header_key k, v)) security_headers)) ''X-Request-Id'' = None"
  "header_key ''X-Request-ID'' = ''X-Request-Id''" "''X-Request-Id'' \<notin> set inner_keys"
  by code_simp+

lemma protected_not_inner: "(k, v) \<in> set (protected_headers i) \<Longrightarrow> k \<notin> set inner_keys"
  using security_table by (auto simp: protected_headers_def list_all_iff)

lemma header_safe_keeps: "header_safe h \<Longrightarrow> (k, v) \<in> set (protected_headers i) \<Longrightarrow> keeps_header k v h"
  by (auto simp: header_safe_def list_all_iff)

lemma keeps_inner:
  assumes "(k, v) \<in> set (protected_headers i)" and "header_safe h"
  shows "keeps_header k v (Authenticate env cfg (RateLimit env rps burst
    (MaxBodySize n (Compress (Logging env (Metrics env h))))))"
  by (intro keeps_Authenticate keeps_RateLimit keeps_MaxBodySize keeps_Compress keeps_Logging keeps_Metrics)
    (simp_all add: protected_not_inner [OF assms(1)] header_safe_keeps [OF assms(2,1)])

subsection \<open>Answers\<close>

lemma sent_simps [simp]:
  "answered (send_header c w)" "answered (writeJSON c x w)" "answered (gzip_close w0 w)"
  by (auto simp: answered_def writer_defs gzip_close_def split: option.split)

lemma respondsD: "responds h \<Longrightarrow> h r w st = (None, w', st') \<Longrightarrow> answered w'"
  unfolding responds_def by (metis fst_conv snd_conv)

lemma respondsI: "(\<And>r w st w' st'. h r w st = (None, w', st') \<Longrightarrow> answered w') \<Longrightarrow> responds h"
  unfolding responds_def by (metis prod.collapse)

lemma responds_inner:
  assumes "responds h"
  shows "responds (Metrics env h)" "responds (Logging env h)" "responds (Compress h)"
    "responds (MaxBodySize n h)" "responds (RateLimit env rps burst h)" "responds (Authenticate env cfg h)"
  using assms
  by (auto intro!: respondsI dest: respondsD simp: Metrics_def Logging_def Compress_def MaxBodySize_def
      RateLimit_def Authenticate_def Let_def split: prod.splits option.splits if_splits bool.splits)

lemma Recover_responds:
  assumes "responds g" and "Recover g r w st = (p, w', st')"
  shows "p = None" "answered w'"
  using assms by (auto simp: Recover_def split: prod.splits option.splits dest: respondsD)

subsection \<open>The outer middleware\<close>

text \<open>What the outer three middleware hand to the rest, and what they make of its answer.\<close>

lemma outer_chain:
  obtains i r' w0 st' where
    "Header_Get ''X-Request-ID'' r \<noteq> '''' \<Longrightarrow> i = Header_Get ''X-Request-ID'' r"
    "Recover (RequestID env (SecurityHeaders g)) r w st = Recover g r' w0 st'"
    "w0 = fold (\<lambda>(k, v). Header_Set k v) security_headers (Header_Set ''X-Request-ID'' i w)"
proof -
  let ?i0 = "Header_Get ''X-Request-ID'' r"
  obtain i a where ia: "(if ?i0 = '''' then generateRequestID env (as_app st) else (?i0, as_app st)) = (i, a)"
    by (metis surj_pair)
  show thesis
    by (rule that [of i "r\<lparr>rq_RequestID := Some i\<rparr>"
          "fold (\<lambda>(k, v). Header_Set k v) security_headers (Header_Set ''X-Request-ID'' i w)"
          "st\<lparr>as_app := a\<rparr>"])
      (use ia in \<open>auto simp: Recover_def RequestID_def SecurityHeaders_def Let_def\<close>)
qed

lemma outer_writer_has:
  assumes "(k, v) \<in> set (protected_headers i)"
  shows "writer_has k v (fold (\<lambda>(k, v). Header_Set k v) security_headers (Header_Set ''X-Request-ID'' i new_writer))"
proof -
  consider "k = ''X-Request-Id''" "v = i" | k' where "k = header_key k'" "(k', v) \<in> set security_headers"
    using assms by (auto simp: protected_headers_def)
  then show ?thesis
  proof cases
    case 1
    then show ?thesis
      by (simp add: writer_has_def fold_Header_Set security_table Header_Set_def gm_simps new_writer_def)
  next
    case 2
    then have "map_of (rev (map (\<lambda>(k, v). (header_key k, v)) security_headers)) k = Some v"
      using security_table(1) by (auto simp: list_all_iff)
    then show ?thesis by (simp add: writer_has_def fold_Header_Set Header_Set_def new_writer_def)
  qed
qed

subsection \<open>Paths\<close>

lemma string_runes_Nil [simp]: "string_runes [] = []"
  by (simp add: string_runes.simps)

lemma string_runes_ascii: "is_ascii c \<Longrightarrow> string_runes (c # s) = [c] # string_runes s"
  using rune_len_ascii [of c s] by (subst string_runes.simps) simp

lemma string_runes_pieces:
  "CHR ''/'' \<notin> set s \<Longrightarrow> p \<in> set (string_runes s) \<Longrightarrow> p \<noteq> ''/'' \<and> p \<noteq> ''''"
proof (induction s rule: length_induct)
  case (1 s)
  have rest: "p \<in> set (string_runes (drop n s)) \<Longrightarrow> n \<noteq> 0 \<Longrightarrow> s \<noteq> [] \<Longrightarrow> p \<noteq> ''/'' \<and> p \<noteq> ''''" for n
    using 1(1) [rule_format, of "drop n s"] 1(2) by (auto dest: in_set_dropD)
  have repl: "replacement \<noteq> ''/'' \<and> replacement \<noteq> ''''" by (simp add: replacement_def)
  have take: "rune_len s \<noteq> 0 \<Longrightarrow> take (rune_len s) s \<noteq> ''/'' \<and> take (rune_len s) s \<noteq> ''''"
    using 1(2) rune_len_take [of s "[]"] by (metis in_set_takeD length_0_conv length_take list.set_intros(1) min.absorb2)
  have "s \<noteq> []" using 1(3) by auto
  with 1(3) show ?case
    using rest [of 1] rest [of "rune_len s"] repl take
    by (subst (asm) string_runes.simps) (auto split: if_splits)
qed

lemma string_runes_not_Nil: "s \<noteq> [] \<Longrightarrow> string_runes s \<noteq> []"
  by (subst string_runes.simps) simp

lemma fold_split_word:
  "list_all (\<lambda>p. p \<noteq> ''/'') ps \<Longrightarrow> fold split_step ps (parts, cur) = (parts, cur @ concat ps)"
  by (induction ps arbitrary: cur) (simp_all add: split_step_def)

lemma rune_len_append:
  assumes "s \<noteq> []" and "is_ascii c"
  shows "rune_len (s @ c # t) = rune_len s"
proof -
  have "\<not> utf8_cont c" using assms(2) by (simp add: is_ascii_def byte_in_def)
  then show ?thesis
    using assms(1) by (induction s rule: rune_len.induct) (auto split: list.splits simp: Cons_eq_append_conv append_eq_Cons_conv)
qed

lemma string_runes_append:
  assumes "is_ascii c"
  shows "string_runes (s @ c # t) = string_runes s @ [c] # string_runes t"
proof (induction s rule: length_induct)
  case (1 s)
  show ?case
  proof (cases "s = []")
    case False
    let ?n = "rune_len s"
    have le: "?n \<le> length s" using rune_len_take [of s "[]"] by (cases "?n = 0") (auto simp: min_def split: if_splits)
    have step: "n \<noteq> 0 \<Longrightarrow> string_runes (drop n s @ c # t) = string_runes (drop n s) @ [c] # string_runes t" for n
      using 1 False by (simp add: assms)
    have "string_runes (s @ c # t) =
        (if ?n = 0 then replacement # string_runes (drop 1 s @ c # t)
         else take ?n s # string_runes (drop ?n s @ c # t))"
      using False le rune_len_append [OF False assms, of t]
      by (subst string_runes.simps) (simp add: Suc_le_eq)
    also have "\<dots> = string_runes s @ [c] # string_runes t"
      using step [of 1] step [of ?n] False by (subst (2) string_runes.simps) simp
    finally show ?thesis .
  qed (simp add: assms string_runes_ascii)
qed

lemma splitPath_coins:
  assumes "CHR ''/'' \<notin> set symb" and "symb \<noteq> []"
  obtains p where "splitPath (''/coins/'' @ symb) = [''coins'', p]"
    "splitPath (''/coins/'' @ symb @ ''/history'') = [''coins'', p, ''history'']"
proof -
  let ?p = "concat (string_runes symb)"
  have "list_all (\<lambda>p. p \<noteq> ''/'' \<and> p \<noteq> '''') (string_runes symb)"
    using string_runes_pieces [OF assms(1)] by (simp add: list_all_iff)
  then have runes: "list_all (\<lambda>p. p \<noteq> ''/'') (string_runes symb)" "?p \<noteq> ''''"
    using string_runes_not_Nil [OF assms(2)] by (cases "string_runes symb"; auto simp: list_all_iff)+
  have coins: "string_runes (''/coins/'' @ s) = map (\<lambda>c. [c]) ''/coins/'' @ string_runes s" for s
    by (simp add: string_runes_ascii is_ascii_def)
  have word: "fold split_step (map (\<lambda>c. [c]) ''/coins/'') ([], '''') = ([''coins''], '''')"
    by (simp add: split_step_def)
  have hist: "string_runes (symb @ ''/history'') = string_runes symb @ map (\<lambda>c. [c]) ''/history''"
    using string_runes_append [of "CHR ''/''" symb "''history''"] by (simp add: string_runes_ascii is_ascii_def)
  show thesis
  proof (rule that [of ?p])
    show "splitPath (''/coins/'' @ symb) = [''coins'', ?p]"
      using runes by (simp add: splitPath_def coins word fold_split_word del: map_append list.map append_Cons append_Nil)
    show "splitPath (''/coins/'' @ symb @ ''/history'') = [''coins'', ?p, ''history'']"
      using runes by (simp add: splitPath_def coins word hist fold_split_word del: map_append list.map append_Cons append_Nil)
        (simp add: split_step_def)
  qed
qed

lemma normalize_fixed:
  "normalizePath ''/coins/{symbol}'' = ''/coins/{symbol}''"
  "normalizePath ''/coins/{symbol}/history'' = ''/coins/{symbol}/history''"
  by (simp_all add: normalizePath_def splitPath_def string_runes_ascii is_ascii_def split_step_def)

lemma normalize_cases:
  "normalizePath p \<in> {p, ''/coins/{symbol}'', ''/coins/{symbol}/history''}"
  by (simp add: normalizePath_def Let_def)

subsection \<open>The whole chain\<close>

lemma chain_secured:
  assumes "header_safe h" and "responds h" and "Chain h (api_middlewares env cfg) r new_writer st = (p, w, st')"
  shows "p = None \<and>
    (\<exists>i code hs. wr_sent w = Some (code, hs) \<and>
       (Header_Get ''X-Request-ID'' r \<noteq> '''' \<longrightarrow> i = Header_Get ''X-Request-ID'' r) \<and>
       list_all (\<lambda>(k, v). gm_get hs k = Some v) (protected_headers i))"
proof -
  let ?g = "Authenticate env cfg (RateLimit env 100 200
    (MaxBodySize (2 ^ 20) (Compress (Logging env (Metrics env h)))))"
  have chain: "Chain h (api_middlewares env cfg) = Recover (RequestID env (SecurityHeaders ?g))"
    by (simp add: Chain_foldr api_middlewares_def)
  obtain i r' w0 st0 where
      i: "Header_Get ''X-Request-ID'' r \<noteq> '''' \<Longrightarrow> i = Header_Get ''X-Request-ID'' r"
      and rec: "Recover ?g r' w0 st0 = (p, w, st')"
      and w0: "w0 = fold (\<lambda>(k, v). Header_Set k v) security_headers (Header_Set ''X-Request-ID'' i new_writer)"
    using outer_chain [of r env ?g new_writer st] assms(3) unfolding chain by metis
  have "responds ?g" using assms(2) by (simp add: responds_inner)
  note final = Recover_responds [OF this rec]
  then obtain code hs where sent: "wr_sent w = Some (code, hs)" by (auto simp: answered_def)
  have "gm_get hs k = Some v" if kv: "(k, v) \<in> set (protected_headers i)" for k v
  proof -
    have "k \<noteq> ''Content-Type''" using protected_not_inner [OF kv] by (auto simp: inner_keys_def)
    then have "keeps_header k v (Recover ?g)" by (rule keeps_Recover [OF _ keeps_inner [OF kv assms(1)]])
    moreover have "writer_has k v w0" unfolding w0 by (rule outer_writer_has [OF kv])
    ultimately have "writer_has k v w" using rec unfolding keeps_header_def by (metis fst_conv snd_conv)
    then show ?thesis using sent by (simp add: writer_has_def)
  qed
  then have "list_all (\<lambda>(k, v). gm_get hs k = Some v) (protected_headers i)" by (auto simp: list_all_iff)
  then show ?thesis using i final(1) sent by blast
qed

subsection \<open>Panics\<close>

lemma panic_inner:
  assumes "\<forall>r w st. h r w st = (Some reason, w, st)"
  shows "\<exists>st'. Logging env (Metrics env h) r w st = (Some reason, w, st')"
  by (simp add: Logging_def Metrics_def assms split_beta)

lemma panic_Compress:
  assumes "\<forall>r w st. h r w st = (Some reason, w, st)" and "wr_sent w = None"
  shows "\<exists>w' st'. Compress (Logging env (Metrics env h)) r w st = (Some reason, w', st') \<and>
    map_option fst (wr_sent w') =
      (if strings_Contains (Header_Get ''Accept-Encoding'' r) ''gzip''
          \<and> \<not> strings_Contains (Header_Get ''Accept'' r) ''text/event-stream''
       then Some 200 else None)"
proof -
  let ?w0 = "Header_Set ''Vary'' ''Accept-Encoding'' (Header_Set ''Content-Encoding'' ''gzip'' w)"
  obtain s1 s2 where "Logging env (Metrics env h) r w st = (Some reason, w, s1)"
      "Logging env (Metrics env h) r (?w0\<lparr>wr_body := []\<rparr>) st = (Some reason, ?w0\<lparr>wr_body := []\<rparr>, s2)"
    using panic_inner [OF assms(1)] by meson
  then show ?thesis
    using assms(2) by (auto simp: Compress_def Let_def gzip_close_def send_header_def Header_Set_def)
qed

lemma new_client_admitted: "fst (rate_take 100 200 ip now [])"
  using rate_take_whole(1) [OF deployed_limit, of ip now "[]" 200] f_of_int_exact [of 200]
  by (simp add: rl_entry_def)

section \<open>Properties\<close>

text \<open>
  \<open>Chain\<close>, which wraps from the last middleware to the first, makes the first of the list the
  outermost: it is the right fold of the list over the handler, and chaining a list in two
  parts nests the second inside the first.
\<close>

theorem chain_order:
  "Chain h mws = foldr (\<lambda>m. m) mws h \<and> Chain h (ms @ ns) = Chain (Chain h ns) ms"
  by (simp add: Chain_foldr)

text \<open>
  The path label of the metrics: every path of a coin, whatever its symbol, and every history
  path share one label each, and normalising a label again changes nothing.
\<close>

theorem path_labels:
  assumes "CHR ''/'' \<notin> set symb" and "symb \<noteq> []"
  shows "normalizePath (''/coins/'' @ symb) = ''/coins/{symbol}''
    \<and> normalizePath (''/coins/'' @ symb @ ''/history'') = ''/coins/{symbol}/history''
    \<and> normalizePath (normalizePath path) = normalizePath path"
proof -
  obtain p where "splitPath (''/coins/'' @ symb) = [''coins'', p]"
      "splitPath (''/coins/'' @ symb @ ''/history'') = [''coins'', p, ''history'']"
    using splitPath_coins [OF assms] by blast
  then have "normalizePath (''/coins/'' @ symb) = ''/coins/{symbol}''"
      "normalizePath (''/coins/'' @ symb @ ''/history'') = ''/coins/{symbol}/history''"
    by (simp_all add: normalizePath_def)
  moreover have "normalizePath (normalizePath path) = normalizePath path"
    using normalize_cases [of path] normalize_fixed by auto
  ultimately show ?thesis by blast
qed

theorem path_labels_witness:
  "normalizePath ''/coins/BTC'' = ''/coins/{symbol}''
    \<and> normalizePath ''/coins/BTC/history'' = ''/coins/{symbol}/history''"
  using path_labels [of "''BTC''" "''''"] by simp

text \<open>
  C34: A handler that panics before it has written anything is answered with status 500, except for
  a client that accepts gzip: closing the gzip writer on the way out of \<open>Compress\<close> sends the
  header first, and the client gets status 200.
\<close>

theorem gzip_panic_status:
  assumes "\<not> ac_Enabled cfg" and "rq_ContentLength r \<le> 2 ^ 20" and "as_clients st = []"
    and "\<forall>r w st. h r w st = (Some reason, w, st)"
  shows "map_option fst (wr_sent (fst (snd (Chain h (api_middlewares env cfg) r new_writer st)))) =
    Some (if strings_Contains (Header_Get ''Accept-Encoding'' r) ''gzip''
             \<and> \<not> strings_Contains (Header_Get ''Accept'' r) ''text/event-stream''
          then 200 else 500)"
proof -
  let ?g = "Compress (Logging env (Metrics env h))"
  let ?k = "Authenticate env cfg (RateLimit env 100 200 (MaxBodySize (2 ^ 20) ?g))"
  have chain: "Chain h (api_middlewares env cfg) = Recover (RequestID env (SecurityHeaders ?k))"
    by (simp add: Chain_foldr api_middlewares_def)
  obtain i a where ia: "(if Header_Get ''X-Request-ID'' r = '''' then generateRequestID env (as_app st)
      else (Header_Get ''X-Request-ID'' r, as_app st)) = (i, a)" by (metis surj_pair)
  let ?r = "r\<lparr>rq_RequestID := Some i\<rparr>"
  let ?w = "fold (\<lambda>(k, v). Header_Set k v) security_headers (Header_Set ''X-Request-ID'' i new_writer)"
  have sent: "wr_sent ?w = None" unfolding fold_Header_Set(2) by (simp add: Header_Set_def new_writer_def)
  have "\<exists>st1. ?k ?r ?w (st\<lparr>as_app := a\<rparr>) = ?g (?r\<lparr>rq_BodyLimit := Some (2 ^ 20)\<rparr>) ?w st1"
  proof -
    obtain now st1 where now: "api_Now env (st\<lparr>as_app := a\<rparr>) = (now, st1)" by (metis surj_pair)
    then have "as_clients st1 = []" using api_Now_frame(1) [of env "st\<lparr>as_app := a\<rparr>"] assms(3) by simp
    moreover obtain cl where "rate_take 100 200 (extractClientIP ?r) now [] = (True, cl)"
      using new_client_admitted [of "extractClientIP ?r" now] by (metis eq_fst_iff)
    ultimately show ?thesis
      using assms(1,2) now by (auto simp: Authenticate_def RateLimit_def MaxBodySize_def)
  qed
  then obtain st1 where k: "?k ?r ?w (st\<lparr>as_app := a\<rparr>) = ?g (?r\<lparr>rq_BodyLimit := Some (2 ^ 20)\<rparr>) ?w st1" ..
  obtain w' st' where g: "?g (?r\<lparr>rq_BodyLimit := Some (2 ^ 20)\<rparr>) ?w st1 = (Some reason, w', st')"
      and code: "map_option fst (wr_sent w') =
        (if strings_Contains (Header_Get ''Accept-Encoding'' r) ''gzip''
            \<and> \<not> strings_Contains (Header_Get ''Accept'' r) ''text/event-stream''
         then Some 200 else None)"
    using panic_Compress [OF assms(4) sent, of env "?r\<lparr>rq_BodyLimit := Some (2 ^ 20)\<rparr>" st1]
    by (auto simp: Header_Get_def)
  have "fst (snd (Chain h (api_middlewares env cfg) r new_writer st)) =
      writeJSON 500 (ErrorResponse ''internal server error'') w'"
    unfolding chain using k g by (simp add: Recover_def RequestID_def SecurityHeaders_def Let_def ia)
  then show ?thesis
    using code writeJSON_new(1) [of w'] writeJSON_sent(1) [of w']
    by (cases "wr_sent w'") (auto split: if_splits)
qed

theorem gzip_panic_status_witness:
  "map_option fst (wr_sent (fst (snd (Chain (\<lambda>r w st. (Some ''boom'', w, st))
      (api_middlewares demo_api_env (NewAuthConfig False [] '''' ''''))
      (get_request ''/coins'' [(''Accept-Encoding'', [''gzip''])]) new_writer (demo_api_state 0))))) = Some 200"
  using gzip_panic_status [of "NewAuthConfig False [] '''' ''''" "get_request ''/coins'' [(''Accept-Encoding'', [''gzip''])]"
      "demo_api_state 0" "\<lambda>r w st. (Some ''boom'', w, st)" "''boom''" demo_api_env]
  by (simp add: NewAuthConfig_def get_request_def demo_api_state_def Header_Get_def header_key_def
      char_upper_def char_lower_def gm_get_def)

end
