(* ===== verification/Repository.thy ===== *)
theory Repository
  imports Market_Model Go_Time
begin

text \<open>
  \<open>internal/repository\<close>: the three PostgreSQL repositories. A database is a record of the
  methods of \<open>database/sql\<close> the code calls, as functions on the world; the interfaces of
  \<open>interfaces.go\<close> are records of methods too. The texts of the statements are those of the
  source, line breaks included.

  \<^item> A query returns an error, or the rows and the error that ended their iteration, if any.
    \<open>Scan\<close> converts a row as \<open>database/sql\<close> does; its error text is a parameter.
  \<^item> A transaction lives between \<open>BeginTx\<close> and \<open>Commit\<close> or \<open>Rollback\<close>; \<open>Rollback\<close> after
    \<open>Commit\<close> is the deferred call, whose error the code drops.
\<close>

datatype sql_value = SqlInt int | SqlText string | SqlBool bool | SqlTime time | SqlNull

type_synonym sql_row = "sql_value list"

record 'w sql_db =
  db_Ping :: "'w \<Rightarrow> go_error option \<times> 'w"
  db_Query :: "string \<Rightarrow> sql_value list \<Rightarrow> 'w \<Rightarrow> (go_error + sql_row list \<times> go_error option) \<times> 'w"
  db_Exec :: "string \<Rightarrow> sql_value list \<Rightarrow> 'w \<Rightarrow> go_error option \<times> 'w"
  db_BeginTx :: "'w \<Rightarrow> go_error option \<times> 'w"
  tx_Exec :: "string \<Rightarrow> sql_value list \<Rightarrow> 'w \<Rightarrow> go_error option \<times> 'w"
  tx_Prepare :: "string \<Rightarrow> 'w \<Rightarrow> go_error option \<times> 'w"
  stmt_Exec :: "string \<Rightarrow> sql_value list \<Rightarrow> 'w \<Rightarrow> go_error option \<times> 'w"
  stmt_Close :: "string \<Rightarrow> 'w \<Rightarrow> 'w"
  tx_Commit :: "'w \<Rightarrow> go_error option \<times> 'w"
  tx_Rollback :: "'w \<Rightarrow> 'w"
  db_ScanErr :: "sql_row \<Rightarrow> go_error"

section \<open>Scanning\<close>

definition scan_string :: "sql_value \<Rightarrow> string option" where
  "scan_string v =
     (case v of
        SqlText s \<Rightarrow> Some s
      | SqlInt i \<Rightarrow> Some (strconv_Itoa i)
      | SqlBool b \<Rightarrow> Some (if b then ''true'' else ''false'')
      | SqlTime t \<Rightarrow> Some (format_RFC3339Nano t)
      | SqlNull \<Rightarrow> None)"

definition scan_int :: "sql_value \<Rightarrow> int option" where
  "scan_int v =
     (case v of
        SqlInt i \<Rightarrow> Some i
      | SqlText s \<Rightarrow> strconv_Atoi s
      | _ \<Rightarrow> None)"

definition scan_bool :: "sql_value \<Rightarrow> bool option" where
  "scan_bool v =
     (case v of
        SqlBool b \<Rightarrow> Some b
      | SqlInt i \<Rightarrow> (if i = 0 then Some False else if i = 1 then Some True else None)
      | SqlText s \<Rightarrow>
          (if s \<in> set [''1'', ''t'', ''T'', ''true'', ''TRUE'', ''True''] then Some True
           else if s \<in> set [''0'', ''f'', ''F'', ''false'', ''FALSE'', ''False''] then Some False
           else None)
      | _ \<Rightarrow> None)"

definition scan_time :: "sql_value \<Rightarrow> time option" where
  "scan_time v = (case v of SqlTime t \<Rightarrow> Some t | _ \<Rightarrow> None)"

text \<open>A pointer to a pointer takes \<open>NULL\<close> as \<open>nil\<close>.\<close>

definition scan_nullable :: "(sql_value \<Rightarrow> 'a option) \<Rightarrow> sql_value \<Rightarrow> 'a option option" where
  "scan_nullable f v = (if v = SqlNull then Some None else map_option Some (f v))"

definition scan_coin :: "sql_row \<Rightarrow> Coin option" where
  "scan_coin row =
     (case row of
        [a, b, c, d, e, f, g] \<Rightarrow> do {
          i \<leftarrow> scan_int a; sym \<leftarrow> scan_string b; name \<leftarrow> scan_string c; ps \<leftarrow> scan_string d;
          act \<leftarrow> scan_bool e; cr \<leftarrow> scan_time f; up \<leftarrow> scan_time g;
          Some \<lparr>coin_ID = i, coin_Symbol = sym, coin_Name = name, coin_ProviderSymbol = ps,
                coin_IsActive = act, coin_CreatedAt = cr, coin_UpdatedAt = up\<rparr> }
      | _ \<Rightarrow> None)"

definition scan_snapshot :: "sql_row \<Rightarrow> PriceSnapshot option" where
  "scan_snapshot row =
     (case row of
        [a, b, c, d, e, f, g, h] \<Rightarrow> do {
          i \<leftarrow> scan_int a; coin \<leftarrow> scan_int b; price \<leftarrow> scan_string c; cap \<leftarrow> scan_string d;
          vol \<leftarrow> scan_string e; chg \<leftarrow> scan_string f; prov \<leftarrow> scan_string g; captured \<leftarrow> scan_time h;
          Some \<lparr>ps_ID = i, ps_CoinID = coin, ps_PriceUSD = price, ps_MarketCap = cap,
                ps_Volume24h = vol, ps_Change24h = chg, ps_Provider = prov, ps_CapturedAt = captured\<rparr> }
      | _ \<Rightarrow> None)"

definition scan_status :: "sql_row \<Rightarrow> ProviderStatus option" where
  "scan_status row =
     (case row of
        [a, b, c, d] \<Rightarrow> do {
          prov \<leftarrow> scan_string a; synced \<leftarrow> scan_nullable scan_time b; ms \<leftarrow> scan_nullable scan_int c;
          stat \<leftarrow> scan_string d;
          Some \<lparr>pst_Provider = prov, pst_LastSyncAt = synced, pst_LastDurationMs = ms,
                pst_LastStatus = stat, pst_RecentFailures = 0\<rparr> }
      | _ \<Rightarrow> None)"

definition scan_one :: "(sql_value \<Rightarrow> 'a option) \<Rightarrow> sql_row \<Rightarrow> 'a option" where
  "scan_one f row = (case row of [v] \<Rightarrow> f v | _ \<Rightarrow> None)"

section \<open>Queries\<close>

definition fail_with :: "string \<Rightarrow> go_error \<Rightarrow> go_error" where
  "fail_with what err = Wrapped (what @ '': '') err ''''"

text \<open>The loop over \<open>rows.Next\<close>: the first row that does not scan ends it.\<close>

fun scan_rows :: "'w sql_db \<Rightarrow> (sql_row \<Rightarrow> 'a option) \<Rightarrow> sql_row list \<Rightarrow> go_error + 'a list" where
  "scan_rows db scan [] = Inr []"
| "scan_rows db scan (row # rows) =
     (case scan row of
        None \<Rightarrow> Inl (db_ScanErr db row)
      | Some x \<Rightarrow>
          (case scan_rows db scan rows of
             Inl err \<Rightarrow> Inl err
           | Inr xs \<Rightarrow> Inr (x # xs)))"

text \<open>A query with its loop: the three errors carry the wording of the caller.\<close>

definition query_list ::
    "'w sql_db \<Rightarrow> string \<Rightarrow> sql_value list \<Rightarrow> (sql_row \<Rightarrow> 'a option) \<Rightarrow> string \<Rightarrow> string \<Rightarrow> string
       \<Rightarrow> 'w \<Rightarrow> (go_error + 'a list) \<times> 'w" where
  "query_list db text args scan query_failed scan_failed iterate_failed w =
     (case db_Query db text args w of
        (Inl err, w1) \<Rightarrow> (Inl (fail_with query_failed err), w1)
      | (Inr (rows, rerr), w1) \<Rightarrow>
          (case scan_rows db scan rows of
             Inl err \<Rightarrow> (Inl (fail_with scan_failed err), w1)
           | Inr xs \<Rightarrow>
               (case rerr of
                  Some err \<Rightarrow> (Inl (fail_with iterate_failed err), w1)
                | None \<Rightarrow> (Inr xs, w1))))"

text \<open>\<open>QueryRowContext(...).Scan(...)\<close>: the first row, or \<open>sql.ErrNoRows\<close>.\<close>

definition query_row ::
    "'w sql_db \<Rightarrow> string \<Rightarrow> sql_value list \<Rightarrow> (sql_row \<Rightarrow> 'a option) \<Rightarrow> 'w \<Rightarrow> (go_error + 'a) \<times> 'w" where
  "query_row db text args scan w =
     (case db_Query db text args w of
        (Inl err, w1) \<Rightarrow> (Inl err, w1)
      | (Inr ([], rerr), w1) \<Rightarrow> (Inl (case rerr of Some err \<Rightarrow> err | None \<Rightarrow> ErrNoRows), w1)
      | (Inr (row # _, _), w1) \<Rightarrow>
          (case scan row of None \<Rightarrow> (Inl (db_ScanErr db row), w1) | Some x \<Rightarrow> (Inr x, w1)))"

text \<open>The lines of a raw string literal, indented as in the source.\<close>

definition sql_lines :: "string list \<Rightarrow> string" where
  "sql_lines ls = strings_Join ls [CHR 0x0A, CHR 0x09, CHR 0x09, CHR '' '']"

section \<open>Coins\<close>

record 'w CoinRepository =
  cr_GetActiveCoins :: "'w \<Rightarrow> (go_error + Coin list) \<times> 'w"
  cr_GetBySymbol :: "string \<Rightarrow> 'w \<Rightarrow> (go_error + Coin option) \<times> 'w"

definition active_coins_sql :: string where
  "active_coins_sql = sql_lines
     [''SELECT id, symbol, name, provider_symbol, is_active, created_at, updated_at'',
      ''FROM coins WHERE is_active = TRUE ORDER BY id'']"

definition coin_by_symbol_sql :: string where
  "coin_by_symbol_sql = sql_lines
     [''SELECT id, symbol, name, provider_symbol, is_active, created_at, updated_at'',
      ''FROM coins WHERE symbol = $1'']"

definition GetActiveCoins :: "'w sql_db \<Rightarrow> 'w \<Rightarrow> (go_error + Coin list) \<times> 'w" where
  "GetActiveCoins db w =
     query_list db active_coins_sql [] scan_coin ''query active coins'' ''scan coin'' ''iterate coins'' w"

definition GetBySymbol :: "'w sql_db \<Rightarrow> string \<Rightarrow> 'w \<Rightarrow> (go_error + Coin option) \<times> 'w" where
  "GetBySymbol db symbol w =
     (case query_row db coin_by_symbol_sql [SqlText symbol] scan_coin w of
        (Inl err, w1) \<Rightarrow>
          if err = ErrNoRows then (Inr None, w1)
          else (Inl (fail_with (''query coin by symbol '' @ symbol) err), w1)
      | (Inr c, w1) \<Rightarrow> (Inr (Some c), w1))"

definition NewPostgresCoinRepository :: "'w sql_db \<Rightarrow> 'w CoinRepository" where
  "NewPostgresCoinRepository db =
     \<lparr>cr_GetActiveCoins = GetActiveCoins db, cr_GetBySymbol = GetBySymbol db\<rparr>"

section \<open>Snapshots\<close>

record 'w SnapshotRepository =
  sr_InsertBatch :: "PriceSnapshot list \<Rightarrow> 'w \<Rightarrow> go_error option \<times> 'w"
  sr_GetLatestByCoin :: "int \<Rightarrow> 'w \<Rightarrow> (go_error + PriceSnapshot option) \<times> 'w"
  sr_GetHistory :: "int \<Rightarrow> int \<Rightarrow> time option \<Rightarrow> time option \<Rightarrow> time option
     \<Rightarrow> 'w \<Rightarrow> (go_error + PriceSnapshot list) \<times> 'w"

definition insert_snapshot_sql :: string where
  "insert_snapshot_sql = sql_lines
     [''INSERT INTO price_snapshots (coin_id, price_usd, market_cap, volume_24h, change_24h, provider, captured_at)'',
      ''VALUES ($1, $2, $3, $4, $5, $6, $7)'']"

definition snapshot_args :: "PriceSnapshot \<Rightarrow> sql_value list" where
  "snapshot_args s =
     [SqlInt (ps_CoinID s), SqlText (ps_PriceUSD s), SqlText (ps_MarketCap s), SqlText (ps_Volume24h s),
      SqlText (ps_Change24h s), SqlText (ps_Provider s), SqlTime (ps_CapturedAt s)]"

fun insert_loop :: "'w sql_db \<Rightarrow> PriceSnapshot list \<Rightarrow> 'w \<Rightarrow> go_error option \<times> 'w" where
  "insert_loop db [] w = (None, w)"
| "insert_loop db (s # ss) w =
     (case stmt_Exec db insert_snapshot_sql (snapshot_args s) w of
        (Some err, w1) \<Rightarrow>
          (Some (fail_with (''insert snapshot for coin '' @ strconv_Itoa (ps_CoinID s)) err), w1)
      | (None, w1) \<Rightarrow> insert_loop db ss w1)"

text \<open>The deferred calls run in reverse order: the statement is closed, then the transaction is rolled back.\<close>

definition InsertBatch :: "'w sql_db \<Rightarrow> PriceSnapshot list \<Rightarrow> 'w \<Rightarrow> go_error option \<times> 'w" where
  "InsertBatch db snapshots w =
     (if snapshots = [] then (None, w)
      else case db_BeginTx db w of
             (Some err, w1) \<Rightarrow> (Some (fail_with ''begin tx'' err), w1)
           | (None, w1) \<Rightarrow>
               (case tx_Prepare db insert_snapshot_sql w1 of
                  (Some err, w2) \<Rightarrow> (Some (fail_with ''prepare insert'' err), tx_Rollback db w2)
                | (None, w2) \<Rightarrow>
                    (case (case insert_loop db snapshots w2 of
                             (Some err, w3) \<Rightarrow> (Some err, w3)
                           | (None, w3) \<Rightarrow>
                               (case tx_Commit db w3 of
                                  (Some err, w4) \<Rightarrow> (Some (fail_with ''commit snapshot batch'' err), w4)
                                | (None, w4) \<Rightarrow> (None, w4))) of
                       (result, w5) \<Rightarrow>
                         (result, tx_Rollback db (stmt_Close db insert_snapshot_sql w5)))))"

definition latest_snapshot_sql :: string where
  "latest_snapshot_sql = sql_lines
     [''SELECT id, coin_id, price_usd, market_cap, volume_24h, change_24h, provider, captured_at'',
      ''FROM price_snapshots WHERE coin_id = $1 ORDER BY captured_at DESC LIMIT 1'']"

definition GetLatestByCoin :: "'w sql_db \<Rightarrow> int \<Rightarrow> 'w \<Rightarrow> (go_error + PriceSnapshot option) \<times> 'w" where
  "GetLatestByCoin db coinID w =
     (case query_row db latest_snapshot_sql [SqlInt coinID] scan_snapshot w of
        (Inl err, w1) \<Rightarrow>
          if err = ErrNoRows then (Inr None, w1)
          else (Inl (fail_with (''query latest snapshot for coin '' @ strconv_Itoa coinID) err), w1)
      | (Inr s, w1) \<Rightarrow> (Inr (Some s), w1))"

text \<open>
  The builder of the history query: the conditions, their arguments and the next placeholder.
\<close>

definition add_condition ::
    "string \<Rightarrow> sql_value \<Rightarrow> string list \<times> sql_value list \<times> int \<Rightarrow> string list \<times> sql_value list \<times> int" where
  "add_condition fragment arg b =
     (case b of
        (conditions, args, argIdx) \<Rightarrow>
          (conditions @ [fragment @ ''$'' @ strconv_Itoa argIdx], args @ [arg], argIdx + 1))"

definition add_optional ::
    "string \<Rightarrow> time option \<Rightarrow> string list \<times> sql_value list \<times> int \<Rightarrow> string list \<times> sql_value list \<times> int" where
  "add_optional fragment t b = (case t of None \<Rightarrow> b | Some v \<Rightarrow> add_condition fragment (SqlTime v) b)"

definition history_select :: string where
  "history_select = sql_lines
     [''SELECT id, coin_id, price_usd, market_cap, volume_24h, change_24h, provider, captured_at'',
      ''FROM price_snapshots WHERE '']"

definition history_query ::
    "int \<Rightarrow> int \<Rightarrow> time option \<Rightarrow> time option \<Rightarrow> time option \<Rightarrow> string \<times> sql_value list" where
  "history_query coinID limit before from to =
     (case add_optional ''captured_at <= '' to
             (add_optional ''captured_at >= '' from
               (add_optional ''captured_at < '' before
                 (add_condition ''coin_id = '' (SqlInt coinID) ([], [], 1)))) of
        (conditions, args, argIdx) \<Rightarrow>
          (history_select @ strings_Join conditions '' AND '' @ '' ORDER BY captured_at DESC LIMIT $''
             @ strconv_Itoa argIdx,
           args @ [SqlInt limit]))"

definition GetHistory ::
    "'w sql_db \<Rightarrow> int \<Rightarrow> int \<Rightarrow> time option \<Rightarrow> time option \<Rightarrow> time option
       \<Rightarrow> 'w \<Rightarrow> (go_error + PriceSnapshot list) \<times> 'w" where
  "GetHistory db coinID limit before from to w =
     (case history_query coinID limit before from to of
        (query, args) \<Rightarrow>
          query_list db query args scan_snapshot (''query history for coin '' @ strconv_Itoa coinID)
            ''scan snapshot'' ''iterate snapshots'' w)"

definition NewPostgresSnapshotRepository :: "'w sql_db \<Rightarrow> 'w SnapshotRepository" where
  "NewPostgresSnapshotRepository db =
     \<lparr>sr_InsertBatch = InsertBatch db, sr_GetLatestByCoin = GetLatestByCoin db, sr_GetHistory = GetHistory db\<rparr>"

section \<open>Sync logs\<close>

record 'w SyncLogRepository =
  lr_Insert :: "ProviderSyncLog \<Rightarrow> 'w \<Rightarrow> go_error option \<times> 'w"
  lr_GetProviderStatus :: "'w \<Rightarrow> (go_error + ProviderStatus list) \<times> 'w"

definition insert_log_sql :: string where
  "insert_log_sql = sql_lines
     [''INSERT INTO provider_sync_logs (provider, request_duration_ms, status, error_message, started_at, finished_at)'',
      ''VALUES ($1, $2, $3, $4, $5, $6)'']"

definition log_args :: "ProviderSyncLog \<Rightarrow> sql_value list" where
  "log_args l =
     [SqlText (psl_Provider l), SqlInt (psl_RequestDurationMs l), SqlText (psl_Status l),
      case psl_ErrorMessage l of None \<Rightarrow> SqlNull | Some m \<Rightarrow> SqlText m,
      SqlTime (psl_StartedAt l),
      case psl_FinishedAt l of None \<Rightarrow> SqlNull | Some t \<Rightarrow> SqlTime t]"

definition SyncLog_Insert :: "'w sql_db \<Rightarrow> ProviderSyncLog \<Rightarrow> 'w \<Rightarrow> go_error option \<times> 'w" where
  "SyncLog_Insert db l w =
     (case db_Exec db insert_log_sql (log_args l) w of
        (Some err, w1) \<Rightarrow> (Some (fail_with ''insert sync log'' err), w1)
      | (None, w1) \<Rightarrow> (None, w1))"

definition tab :: string where
  "tab = [CHR 0x09]"

definition provider_status_sql :: string where
  "provider_status_sql =
     strings_Join
       [''SELECT DISTINCT ON (provider)'', tab @ tab @ tab @ ''provider,'', tab @ tab @ tab @ ''finished_at,'',
        tab @ tab @ tab @ ''request_duration_ms,'', tab @ tab @ tab @ ''status'',
        tab @ tab @ '' FROM provider_sync_logs'', tab @ tab @ '' ORDER BY provider, started_at DESC''] [CHR 0x0A]"

definition recent_failures_sql :: string where
  "recent_failures_sql =
     strings_Join
       [''SELECT COUNT(*) FROM provider_sync_logs'',
        tab @ tab @ tab @ '' WHERE provider = $1 AND status = '' @ [CHR 0x27] @ ''failure'' @ [CHR 0x27]
          @ '' AND started_at > NOW() - INTERVAL '' @ [CHR 0x27] @ ''24 hours'' @ [CHR 0x27]] [CHR 0x0A]"

fun count_failures :: "'w sql_db \<Rightarrow> ProviderStatus list \<Rightarrow> 'w \<Rightarrow> ProviderStatus list \<times> 'w" where
  "count_failures db [] w = ([], w)"
| "count_failures db (s # ss) w =
     (case query_row db recent_failures_sql [SqlText (pst_Provider s)] (scan_one scan_int) w of
        (r, w1) \<Rightarrow>
          (case count_failures db ss w1 of
             (ss1, w2) \<Rightarrow>
               ((case r of Inl err \<Rightarrow> s | Inr count \<Rightarrow> s\<lparr>pst_RecentFailures := count\<rparr>) # ss1, w2)))"

definition GetProviderStatus :: "'w sql_db \<Rightarrow> 'w \<Rightarrow> (go_error + ProviderStatus list) \<times> 'w" where
  "GetProviderStatus db w =
     (case query_list db provider_status_sql [] scan_status ''query provider status'' ''scan provider status''
             ''iterate provider status'' w of
        (Inl err, w1) \<Rightarrow> (Inl err, w1)
      | (Inr statuses, w1) \<Rightarrow>
          (case count_failures db statuses w1 of (statuses1, w2) \<Rightarrow> (Inr statuses1, w2)))"

definition NewPostgresSyncLogRepository :: "'w sql_db \<Rightarrow> 'w SyncLogRepository" where
  "NewPostgresSyncLogRepository db =
     \<lparr>lr_Insert = SyncLog_Insert db, lr_GetProviderStatus = GetProviderStatus db\<rparr>"

section \<open>Specifications\<close>

text \<open>The conditions a history query may have, as text and as what PostgreSQL evaluates them to.\<close>

datatype history_op = CoinIs | CapturedBefore | CapturedFrom | CapturedTo

fun op_text :: "history_op \<Rightarrow> string" where
  "op_text CoinIs = ''coin_id = ''"
| "op_text CapturedBefore = ''captured_at < ''"
| "op_text CapturedFrom = ''captured_at >= ''"
| "op_text CapturedTo = ''captured_at <= ''"

fun op_holds :: "history_op \<Rightarrow> sql_value \<Rightarrow> PriceSnapshot \<Rightarrow> bool" where
  "op_holds CoinIs (SqlInt i) s = (ps_CoinID s = i)"
| "op_holds CapturedBefore (SqlTime t) s = (ps_CapturedAt s < t)"
| "op_holds CapturedFrom (SqlTime t) s = (t \<le> ps_CapturedAt s)"
| "op_holds CapturedTo (SqlTime t) s = (ps_CapturedAt s \<le> t)"
| "op_holds _ _ s = False"

text \<open>Which conditions a call has: this depends on the presence of the bounds, not on their values.\<close>

definition history_ops :: "bool \<Rightarrow> bool \<Rightarrow> bool \<Rightarrow> history_op list" where
  "history_ops before from to =
     CoinIs # (if before then [CapturedBefore] else []) @ (if from then [CapturedFrom] else [])
       @ (if to then [CapturedTo] else [])"

definition history_text :: "history_op list \<Rightarrow> string" where
  "history_text ops =
     history_select
       @ strings_Join (map2 (\<lambda>c i. op_text c @ ''$'' @ strconv_Itoa (int i)) ops [1..<Suc (length ops)]) '' AND ''
       @ '' ORDER BY captured_at DESC LIMIT $'' @ strconv_Itoa (int (Suc (length ops)))"

definition in_history :: "int \<Rightarrow> time option \<Rightarrow> time option \<Rightarrow> time option \<Rightarrow> PriceSnapshot \<Rightarrow> bool" where
  "in_history coinID before from to s \<longleftrightarrow>
     ps_CoinID s = coinID \<and> pred_option (\<lambda>t. ps_CapturedAt s < t) before \<and>
     pred_option (\<lambda>t. t \<le> ps_CapturedAt s) from \<and> pred_option (\<lambda>t. ps_CapturedAt s \<le> t) to"

text \<open>
  Transactions on a table that a statement appends to: \<open>committed\<close> are the rows other
  connections see, \<open>pending\<close> those the open transaction sees. A transaction starts from the
  committed rows, a successful statement appends its arguments, and only a successful commit
  changes what is committed.
\<close>

definition tx_begin :: "'w sql_db \<Rightarrow> ('w \<Rightarrow> 'r list) \<Rightarrow> ('w \<Rightarrow> 'r list) \<Rightarrow> bool" where
  "tx_begin db committed pending \<longleftrightarrow>
     (\<forall>w r w'. db_BeginTx db w = (r, w') \<longrightarrow>
        committed w' = committed w \<and> (r = None \<longrightarrow> pending w' = committed w))"

definition tx_end :: "'w sql_db \<Rightarrow> ('w \<Rightarrow> 'r list) \<Rightarrow> ('w \<Rightarrow> 'r list) \<Rightarrow> bool" where
  "tx_end db committed pending \<longleftrightarrow>
     (\<forall>w r w'. tx_Commit db w = (r, w') \<longrightarrow> committed w' = (if r = None then pending w else committed w)) \<and>
     (\<forall>w. committed (tx_Rollback db w) = committed w)"

definition inserts_snapshots ::
    "'w sql_db \<Rightarrow> ('w \<Rightarrow> sql_row list) \<Rightarrow> ('w \<Rightarrow> sql_row list) \<Rightarrow> bool" where
  "inserts_snapshots db committed pending \<longleftrightarrow>
     (\<forall>q w r w'. tx_Prepare db q w = (r, w') \<longrightarrow> committed w' = committed w \<and> pending w' = pending w) \<and>
     (\<forall>args w r w'. stmt_Exec db insert_snapshot_sql args w = (r, w') \<longrightarrow>
        committed w' = committed w \<and> (r = None \<longrightarrow> pending w' = pending w @ [args])) \<and>
     (\<forall>q w. committed (stmt_Close db q w) = committed w)"

text \<open>A database with one table, for closed examples: the committed and the pending rows.\<close>

type_synonym mem_world = "sql_row list \<times> sql_row list"

definition mem_db :: "mem_world sql_db" where
  "mem_db =
     \<lparr>db_Ping = (\<lambda>w. (None, w)),
      db_Query = (\<lambda>q args (rows, tx). (Inr (rows, None), (rows, tx))),
      db_Exec = (\<lambda>q args w. (None, w)),
      db_BeginTx = (\<lambda>(rows, tx). (None, (rows, rows))),
      tx_Exec = (\<lambda>q args (rows, tx). (None, (rows, if args = [] then tx else tx @ [args]))),
      tx_Prepare = (\<lambda>q w. (None, w)),
      stmt_Exec = (\<lambda>q args (rows, tx). (None, (rows, tx @ [args]))),
      stmt_Close = (\<lambda>q w. w),
      tx_Commit = (\<lambda>(rows, tx). (None, (tx, tx))),
      tx_Rollback = (\<lambda>w. w),
      db_ScanErr = (\<lambda>row. ErrorString ''scan'')\<rparr>"

definition demo_snapshot :: PriceSnapshot where
  "demo_snapshot =
     \<lparr>ps_ID = 0, ps_CoinID = 7, ps_PriceUSD = ''1.5'', ps_MarketCap = '''', ps_Volume24h = '''',
      ps_Change24h = '''', ps_Provider = ''coincap'', ps_CapturedAt = 10\<rparr>"

section \<open>Lemmas\<close>

lemma mem_db_laws:
  "tx_begin mem_db fst snd" "tx_end mem_db fst snd" "inserts_snapshots mem_db fst snd"
  by (auto simp: tx_begin_def tx_end_def inserts_snapshots_def mem_db_def)

lemma insert_loop_rows:
  assumes "inserts_snapshots db committed pending"
  shows "insert_loop db ss w = (r, w') \<Longrightarrow>
    committed w' = committed w \<and> (r = None \<longrightarrow> pending w' = pending w @ map snapshot_args ss)"
proof (induction ss arbitrary: w)
  case (Cons s ss)
  obtain r1 w1 where ex: "stmt_Exec db insert_snapshot_sql (snapshot_args s) w = (r1, w1)" by (metis surj_pair)
  with assms have "committed w1 = committed w" "r1 = None \<longrightarrow> pending w1 = pending w @ [snapshot_args s]"
    unfolding inserts_snapshots_def by blast+
  with Cons ex show ?case by (auto split: option.splits)
qed simp

lemma scan_snapshot_args: "scan_snapshot (SqlInt i # snapshot_args s) = Some (s\<lparr>ps_ID := i\<rparr>)"
  by (simp add: scan_snapshot_def snapshot_args_def scan_int_def scan_string_def scan_time_def)

lemma scan_rows_all:
  "list_all2 (\<lambda>row x. scan row = Some x) rows xs \<Longrightarrow> scan_rows db scan rows = Inr xs"
  by (induction rows xs rule: list_all2_induct) simp_all

lemma scan_rows_length: "scan_rows db scan rows = Inr xs \<Longrightarrow> length xs = length rows"
  by (induction rows arbitrary: xs) (auto split: option.splits sum.splits)

lemma history_query_text:
  "\<exists>args. history_query coinID limit before from to =
     (history_text (history_ops (before \<noteq> None) (from \<noteq> None) (to \<noteq> None)), args @ [SqlInt limit])"
  by (cases before; cases "from"; cases to)
    (simp_all add: history_query_def add_optional_def add_condition_def history_text_def history_ops_def upt_rec)

text \<open>\<open>LIMIT\<close>: a history query returns at most as many rows as its last argument says.\<close>

definition honours_limit :: "'w sql_db \<Rightarrow> bool" where
  "honours_limit db \<longleftrightarrow>
     (\<forall>ops args n w rows rerr w'. db_Query db (history_text ops) (args @ [SqlInt n]) w = (Inr (rows, rerr), w') \<longrightarrow>
        int (length rows) \<le> max 0 n)"

lemma GetHistory_length:
  assumes "honours_limit db" and "GetHistory db coinID limit before from to w = (Inr ss, w')"
  shows "int (length ss) \<le> max 0 limit"
proof -
  obtain args where q: "history_query coinID limit before from to =
      (history_text (history_ops (before \<noteq> None) (from \<noteq> None) (to \<noteq> None)), args @ [SqlInt limit])"
    using history_query_text by blast
  then obtain rows rerr w1 where
      "db_Query db (history_text (history_ops (before \<noteq> None) (from \<noteq> None) (to \<noteq> None))) (args @ [SqlInt limit]) w
        = (Inr (rows, rerr), w1)" "scan_rows db scan_snapshot rows = Inr ss"
    using assms(2) by (auto simp: GetHistory_def query_list_def split: sum.splits prod.splits option.splits)
  then show ?thesis using assms(1) scan_rows_length unfolding honours_limit_def by metis
qed

text \<open>The example database answering every query with its rows, as many as the last argument allows.\<close>

definition limit_db :: "mem_world sql_db" where
  "limit_db = mem_db\<lparr>db_Query := (\<lambda>q args (rows, tx).
     (Inr (case rev args of SqlInt n # _ \<Rightarrow> take (nat n) rows | _ \<Rightarrow> rows, None), (rows, tx)))\<rparr>"

lemma limit_db_honours: "honours_limit limit_db"
  by (auto simp: honours_limit_def limit_db_def)

lemma InsertBatch_rows:
  assumes "tx_begin db committed pending" and "tx_end db committed pending"
    and "inserts_snapshots db committed pending" and "InsertBatch db ss w = (r, w')"
  shows "committed w' = (if r = None then committed w @ map snapshot_args ss else committed w)"
proof (cases "ss = []")
  case False
  obtain r1 w1 where b: "db_BeginTx db w = (r1, w1)" by (metis surj_pair)
  obtain r2 w2 where p: "tx_Prepare db insert_snapshot_sql w1 = (r2, w2)" by (metis surj_pair)
  obtain r3 w3 where i: "insert_loop db ss w2 = (r3, w3)" by (metis surj_pair)
  obtain r4 w4 where c: "tx_Commit db w3 = (r4, w4)" by (metis surj_pair)
  have begun: "committed w1 = committed w" "r1 = None \<Longrightarrow> pending w1 = committed w"
    using assms(1) b unfolding tx_begin_def by blast+
  have prep: "committed w2 = committed w1" "pending w2 = pending w1" and close: "\<And>q w. committed (stmt_Close db q w) = committed w"
    using assms(3) p unfolding inserts_snapshots_def by blast+
  note ins = insert_loop_rows [OF assms(3) i]
  have fin: "committed w4 = (if r4 = None then pending w3 else committed w3)"
      and undone: "\<And>w. committed (tx_Rollback db w) = committed w"
    using assms(2) c unfolding tx_end_def by blast+
  show ?thesis
    using assms(4) False begun prep ins fin
    by (auto simp: InsertBatch_def b p i c undone close split: option.splits)
qed (use assms(4) in \<open>simp add: InsertBatch_def\<close>)

section \<open>Properties\<close>

text \<open>
  C23: The history query means what it should: its text is fixed by which bounds are given, no
  value is part of it; the placeholders number the arguments, each used once, the limit last;
  and under its arguments the conditions select exactly the snapshots of the coin within the
  bounds.
\<close>

theorem history_query_correct:
  "\<exists>args. history_query coinID limit before from to =
       (history_text (history_ops (before \<noteq> None) (from \<noteq> None) (to \<noteq> None)), args @ [SqlInt limit]) \<and>
     length args = length (history_ops (before \<noteq> None) (from \<noteq> None) (to \<noteq> None)) \<and>
     (\<forall>s. list_all2 (\<lambda>c a. op_holds c a s) (history_ops (before \<noteq> None) (from \<noteq> None) (to \<noteq> None)) args
        \<longleftrightarrow> in_history coinID before from to s)"
  by (cases before; cases "from"; cases to)
    (simp_all add: history_query_def add_optional_def add_condition_def history_text_def history_ops_def
      in_history_def upt_rec)

text \<open>
  A batch of snapshots is stored as a whole or not at all: if \<open>InsertBatch\<close> returns an error
  nothing is committed, and otherwise every snapshot of the batch is, in order.
\<close>

theorem insert_batch_atomic:
  assumes "tx_begin db committed pending" and "tx_end db committed pending"
    and "inserts_snapshots db committed pending" and "InsertBatch db ss w = (r, w')"
  shows "committed w' = (if r = None then committed w @ map snapshot_args ss else committed w)"
  by (rule InsertBatch_rows [OF assms])

theorem insert_batch_atomic_witness:
  "fst (snd (InsertBatch mem_db [demo_snapshot] ([], []))) = [snapshot_args demo_snapshot]"
proof -
  obtain r w' where ib: "InsertBatch mem_db [demo_snapshot] ([], []) = (r, w')" by (metis surj_pair)
  moreover have "r = None" using ib by (auto simp: InsertBatch_def mem_db_def)
  ultimately show ?thesis using insert_batch_atomic [OF mem_db_laws ib] by simp
qed

end
