(* ===== verification/API_Handlers.thy ===== *)
theory API_Handlers
  imports API_Middleware Repository
begin

text \<open>
  \<open>internal/api/handlers.go\<close>, \<open>status.go\<close> and \<open>router.go\<close>: the endpoints, the operational
  status, and the router with its middleware.

  \<^item> The handler's dependencies are a record; a pointer that may be \<open>nil\<close> is an option. The
    status reporter is part of the state, since asking the orchestrator for its status may
    move a circuit breaker.
  \<^item> The router \<open>chi\<close> is a parameter: from the methods and patterns of the routes and the
    request it chooses a route, by its index, and the URL parameters; \<open>chi_Unmatched\<close> answers
    a request with no route. The handlers of \<open>promhttp\<close> and \<open>net/http/pprof\<close> are parameters.
  \<^item> The order in which \<open>OperationsStatus\<close> reads the clock for the breakers is that of the
    manager's map. Logging is not modelled.
\<close>

section \<open>Dependencies\<close>

record 'w StatusReporter =
  rep_orchestrator :: "'w FallbackOrchestrator option"
  rep_freshnessTracker :: "FreshnessTracker option"
  rep_anomalyDetector :: "AnomalyDetector option"

definition NewStatusReporter ::
    "'w FallbackOrchestrator option \<Rightarrow> FreshnessTracker option \<Rightarrow> AnomalyDetector option \<Rightarrow> 'w StatusReporter" where
  "NewStatusReporter orchestrator freshnessTracker anomalyDetector =
     \<lparr>rep_orchestrator = orchestrator, rep_freshnessTracker = freshnessTracker,
      rep_anomalyDetector = anomalyDetector\<rparr>"

text \<open>\<open>h_unicode\<close> is \<open>strings.ToUpper\<close> outside ASCII.\<close>

record 'w Handler =
  h_db :: "'w sql_db option"
  h_coinRepo :: "'w CoinRepository"
  h_snapshotRepo :: "'w SnapshotRepository"
  h_syncLogRepo :: "'w SyncLogRepository option"
  h_cache :: "'w redis_client option"
  h_unicode :: "string \<Rightarrow> string"

definition NewHandler ::
    "'w sql_db option \<Rightarrow> 'w CoinRepository \<Rightarrow> 'w SnapshotRepository \<Rightarrow> 'w SyncLogRepository option
       \<Rightarrow> 'w redis_client option \<Rightarrow> (string \<Rightarrow> string) \<Rightarrow> 'w Handler" where
  "NewHandler db coinRepo snapshotRepo syncLogRepo cache unicode =
     \<lparr>h_db = db, h_coinRepo = coinRepo, h_snapshotRepo = snapshotRepo, h_syncLogRepo = syncLogRepo,
      h_cache = cache, h_unicode = unicode\<rparr>"

text \<open>The state of the endpoints: the world and the status reporter.\<close>

record 'w api_app =
  app_world :: 'w
  app_reporter :: "'w StatusReporter option"

type_synonym 'w app_state = "'w api_app api_state"

definition SetStatusReporter :: "'w StatusReporter \<Rightarrow> 'w app_state \<Rightarrow> 'w app_state" where
  "SetStatusReporter sr st = st\<lparr>as_app := (as_app st)\<lparr>app_reporter := Some sr\<rparr>\<rparr>"

definition app_call :: "('w \<Rightarrow> 'x \<times> 'w) \<Rightarrow> 'w app_state \<Rightarrow> 'x \<times> 'w app_state" where
  "app_call f st =
     (case f (app_world (as_app st)) of
        (x, w) \<Rightarrow> (x, st\<lparr>as_app := (as_app st)\<lparr>app_world := w\<rparr>\<rparr>))"

definition app_orchestrator :: "'w app_state \<Rightarrow> 'w FallbackOrchestrator option" where
  "app_orchestrator st = Option.bind (app_reporter (as_app st)) rep_orchestrator"

section \<open>Endpoints\<close>

definition defaultHistoryLimit :: int where
  "defaultHistoryLimit = 50"

definition maxHistoryLimit :: int where
  "maxHistoryLimit = 500"

definition handler_Health :: "'w Handler \<Rightarrow> 'w api_app handler" where
  "handler_Health h r w st = (None, writeJSON 200 (StringMap [(''status'', ''ok'')]) w, st)"

text \<open>\<open>Ready\<close> calls the database without a check: a \<open>nil\<close> one panics.\<close>

definition not_ready :: "string \<Rightarrow> writer \<Rightarrow> writer" where
  "not_ready what w = writeJSON 503 (StringMap [(''status'', ''not_ready''), (''error'', what)]) w"

definition ready_answer :: "'w app_state \<Rightarrow> writer \<Rightarrow> writer" where
  "ready_answer st w =
     (case app_orchestrator st of
        Some fo \<Rightarrow>
          if IsDegraded fo
          then writeJSON 200 (StringMap [(''status'', ''ready''), (''mode'', ''degraded''),
                 (''provider'', ActiveProvider fo)]) w
          else writeJSON 200 (StringMap [(''status'', ''ready'')]) w
      | None \<Rightarrow> writeJSON 200 (StringMap [(''status'', ''ready'')]) w)"

definition handler_Ready :: "'w Handler \<Rightarrow> 'w api_app handler" where
  "handler_Ready h r w st =
     (case h_db h of
        None \<Rightarrow> (Some ''invalid memory address or nil pointer dereference'', w, st)
      | Some db \<Rightarrow>
          (case app_call (db_Ping db) st of
             (Some err, st1) \<Rightarrow> (None, not_ready ''postgres unavailable'' w, st1)
           | (None, st1) \<Rightarrow>
               (case h_cache h of
                  None \<Rightarrow> (None, ready_answer st1 w, st1)
                | Some rc \<Rightarrow>
                    (case app_call (cache_Ping rc) st1 of
                       (Some err, st2) \<Rightarrow> (None, not_ready ''redis unavailable'' w, st2)
                     | (None, st2) \<Rightarrow> (None, ready_answer st2 w, st2)))))"

definition handler_Markets :: "'w Handler \<Rightarrow> 'w api_app handler" where
  "handler_Markets h r w st =
     (case app_call (cr_GetActiveCoins (h_coinRepo h)) st of
        (Inl err, st1) \<Rightarrow> (None, writeError 500 ''failed to retrieve market data'' w, st1)
      | (Inr coins, st1) \<Rightarrow>
          (let symbols = map coin_Symbol coins
           in case h_cache h of
                None \<Rightarrow> (None, writeJSON 200 (LatestPage [] 0) w, st1)
              | Some rc \<Rightarrow>
                  (case app_call (GetAllLatest rc symbols) st1 of
                     (Inl err, st2) \<Rightarrow> (None, writeError 500 ''failed to retrieve market data'' w, st2)
                   | (Inr data, st2) \<Rightarrow> (None, writeJSON 200 (LatestPage data (int (length data))) w, st2))))"

definition handler_Coins :: "'w Handler \<Rightarrow> 'w api_app handler" where
  "handler_Coins h r w st =
     (case app_call (cr_GetActiveCoins (h_coinRepo h)) st of
        (Inl err, st1) \<Rightarrow> (None, writeError 500 ''failed to retrieve coins'' w, st1)
      | (Inr coins, st1) \<Rightarrow> (None, writeJSON 200 (CoinPage coins (int (length coins))) w, st1))"

definition URLParam :: "string \<Rightarrow> http_request \<Rightarrow> string" where
  "URLParam key r = (case gm_get (rq_URLParams r) key of Some v \<Rightarrow> v | None \<Rightarrow> '''')"

definition latest_from_snapshot :: "Coin \<Rightarrow> PriceSnapshot \<Rightarrow> LatestMarketData" where
  "latest_from_snapshot coin snapshot =
     \<lparr>lmd_Symbol = coin_Symbol coin, lmd_Name = coin_Name coin, lmd_PriceUSD = ps_PriceUSD snapshot,
      lmd_MarketCap = ps_MarketCap snapshot, lmd_Volume24h = ps_Volume24h snapshot,
      lmd_Change24h = ps_Change24h snapshot, lmd_Provider = ps_Provider snapshot,
      lmd_CapturedAt = ps_CapturedAt snapshot\<rparr>"

text \<open>From the database: the end of \<open>CoinBySymbol\<close>, after the cache had nothing to offer.\<close>

definition coin_from_database :: "'w Handler \<Rightarrow> Coin \<Rightarrow> 'w api_app handler" where
  "coin_from_database h coin r w st =
     (case app_call (sr_GetLatestByCoin (h_snapshotRepo h) (coin_ID coin)) st of
        (Inl err, st1) \<Rightarrow> (None, writeError 500 ''failed to retrieve market data'' w, st1)
      | (Inr None, st1) \<Rightarrow> (None, writeJSON 200 (NoDataBody (coin_Symbol coin) (coin_Name coin)) w, st1)
      | (Inr (Some snapshot), st1) \<Rightarrow> (None, writeJSON 200 (LatestBody (latest_from_snapshot coin snapshot)) w, st1))"

text \<open>What \<open>CoinBySymbol\<close> and \<open>CoinHistory\<close> start with: the coin, or the answer.\<close>

definition with_coin :: "'w Handler \<Rightarrow> (string \<Rightarrow> Coin \<Rightarrow> 'w api_app handler) \<Rightarrow> 'w api_app handler" where
  "with_coin h k r w st =
     (let symbol = strings_ToUpper (h_unicode h) (URLParam ''symbol'' r)
      in if symbol = '''' then (None, writeError 400 ''symbol is required'' w, st)
         else case app_call (cr_GetBySymbol (h_coinRepo h) symbol) st of
                (Inl err, st1) \<Rightarrow> (None, writeError 500 ''failed to retrieve coin'' w, st1)
              | (Inr None, st1) \<Rightarrow> (None, writeError 404 ''coin not found'' w, st1)
              | (Inr (Some coin), st1) \<Rightarrow> k symbol coin r w st1)"

definition handler_CoinBySymbol :: "'w Handler \<Rightarrow> 'w api_app handler" where
  "handler_CoinBySymbol h =
     with_coin h (\<lambda>symbol coin r w st.
       case h_cache h of
         None \<Rightarrow> coin_from_database h coin r w st
       | Some rc \<Rightarrow>
           (case app_call (GetLatest rc symbol) st of
              (Inr (Some latest), st1) \<Rightarrow> (None, writeJSON 200 (LatestBody latest) w, st1)
            | (_, st1) \<Rightarrow> coin_from_database h coin r w st1))"

definition parseIntParam :: "http_request \<Rightarrow> string \<Rightarrow> int \<Rightarrow> int" where
  "parseIntParam r key defaultVal =
     (let v = Query_Get key r
      in if v = '''' then defaultVal
         else case strconv_Atoi v of None \<Rightarrow> defaultVal | Some n \<Rightarrow> n)"

definition history_limit :: "http_request \<Rightarrow> int" where
  "history_limit r =
     (let limit = parseIntParam r ''limit'' defaultHistoryLimit;
          limit1 = (if maxHistoryLimit < limit then maxHistoryLimit else limit)
      in if limit1 < 1 then 1 else limit1)"

text \<open>A time parameter: absent, malformed (\<open>None\<close>) or given.\<close>

definition time_param :: "string \<Rightarrow> http_request \<Rightarrow> time option option" where
  "time_param key r =
     (let v = Query_Get key r
      in if v = '''' then Some None
         else case parse_RFC3339 v of None \<Rightarrow> None | Some t \<Rightarrow> Some (Some t))"

definition invalid_time :: "string \<Rightarrow> string" where
  "invalid_time key =
     ''invalid '' @ [CHR 0x27] @ key @ [CHR 0x27] @ '' parameter, use RFC3339 format''"

definition history_page :: "'w Handler \<Rightarrow> Coin \<Rightarrow> 'w api_app handler" where
  "history_page h coin r w st =
     (let limit = history_limit r
      in case time_param ''before'' r of
           None \<Rightarrow> (None, writeError 400 (invalid_time ''before'') w, st)
         | Some before \<Rightarrow>
             (case time_param ''from'' r of
                None \<Rightarrow> (None, writeError 400 (invalid_time ''from'') w, st)
              | Some from \<Rightarrow>
                  (case time_param ''to'' r of
                     None \<Rightarrow> (None, writeError 400 (invalid_time ''to'') w, st)
                   | Some to \<Rightarrow>
                       (case app_call (sr_GetHistory (h_snapshotRepo h) (coin_ID coin) limit before from to) st of
                          (Inl err, st1) \<Rightarrow> (None, writeError 500 ''failed to retrieve history'' w, st1)
                        | (Inr snapshots, st1) \<Rightarrow>
                            (None, writeJSON 200 (SnapshotPage snapshots (int (length snapshots))) w, st1)))))"

definition handler_CoinHistory :: "'w Handler \<Rightarrow> 'w api_app handler" where
  "handler_CoinHistory h = with_coin h (\<lambda>symbol coin. history_page h coin)"

definition handler_ProviderStatus :: "'w Handler \<Rightarrow> 'w api_app handler" where
  "handler_ProviderStatus h r w st =
     (case h_syncLogRepo h of
        None \<Rightarrow> (None, writeJSON 200 (ProviderPage [] 0) w, st)
      | Some repo \<Rightarrow>
          (case app_call (lr_GetProviderStatus repo) st of
             (Inl err, st1) \<Rightarrow> (None, writeError 500 ''failed to retrieve provider status'' w, st1)
           | (Inr statuses, st1) \<Rightarrow>
               (None, writeJSON 200 (ProviderPage statuses (int (length statuses))) w, st1)))"

section \<open>Operational status\<close>

definition checkDependencies :: "'w Handler \<Rightarrow> 'w app_state \<Rightarrow> DependencyStatus \<times> 'w app_state" where
  "checkDependencies h st =
     (let deps = \<lparr>ds_PostgreSQL = ''healthy'', ds_Redis = ''healthy''\<rparr>
      in case (case h_db h of
                 None \<Rightarrow> (deps, st)
               | Some db \<Rightarrow>
                   (case app_call (db_Ping db) st of
                      (Some err, st1) \<Rightarrow> (deps\<lparr>ds_PostgreSQL := ''unavailable''\<rparr>, st1)
                    | (None, st1) \<Rightarrow> (deps, st1))) of
           (deps1, st1) \<Rightarrow>
             (case h_cache h of
                None \<Rightarrow> (deps1, st1)
              | Some rc \<Rightarrow>
                  (case app_call (cache_Ping rc) st1 of
                     (Some err, st2) \<Rightarrow> (deps1\<lparr>ds_Redis := ''unavailable''\<rparr>, st2)
                   | (None, st2) \<Rightarrow> (deps1, st2))))"

fun all_open :: "(string, string) gomap \<Rightarrow> bool" where
  "all_open [] = True"
| "all_open ((name, state) # states) = (if state \<noteq> ''open'' then False else all_open states)"

definition allCircuitsOpen :: "(string, string) gomap \<Rightarrow> bool" where
  "allCircuitsOpen states = (if length states = 0 then False else all_open states)"

fun read_clocks :: "'w api_app api_env \<Rightarrow> string list \<Rightarrow> 'w app_state \<Rightarrow> (string, time) gomap \<times> 'w app_state" where
  "read_clocks env [] st = ([], st)"
| "read_clocks env (n # ns) st =
     (case api_Now env st of
        (t, st1) \<Rightarrow> (case read_clocks env ns st1 of (m, st2) \<Rightarrow> (gm_put n t m, st2)))"

definition clock_of :: "(string, time) gomap \<Rightarrow> string \<Rightarrow> time" where
  "clock_of m n = (case gm_get m n of Some t \<Rightarrow> t | None \<Rightarrow> zero_time)"

definition set_orchestrator :: "'w FallbackOrchestrator \<Rightarrow> 'w app_state \<Rightarrow> 'w app_state" where
  "set_orchestrator fo st =
     st\<lparr>as_app := (as_app st)\<lparr>app_reporter :=
          map_option (\<lambda>sr. sr\<lparr>rep_orchestrator := Some fo\<rparr>) (app_reporter (as_app st))\<rparr>\<rparr>"

definition inactive_ingestion :: IngestionStatus where
  "inactive_ingestion = \<lparr>is_Active = False, is_ActiveProvider = '''', is_Degraded = False\<rparr>"

definition applyProviderStatus ::
    "'w api_app api_env \<Rightarrow> OperationsStatus \<Rightarrow> 'w app_state \<Rightarrow> OperationsStatus \<times> 'w app_state" where
  "applyProviderStatus env status st =
     (case app_orchestrator st of
        None \<Rightarrow> (status\<lparr>ost_Ingestion := inactive_ingestion\<rparr>, st)
      | Some fo \<Rightarrow>
          (case read_clocks env (map fst (mgr_breakers (fo_cbManager fo))) st of
             (clocks, st1) \<Rightarrow>
               (case orchestrator_Status (clock_of clocks) fo of
                  (orchStatus, fo1) \<Rightarrow>
                    (let status1 = status\<lparr>ost_Provider := orchStatus,
                           ost_Ingestion := \<lparr>is_Active = True, is_ActiveProvider = os_ActiveProvider orchStatus,
                                             is_Degraded = os_Degraded orchStatus\<rparr>\<rparr>;
                         status2 = (if os_Degraded orchStatus \<and> ost_Status status1 = StateHealthy
                                    then status1\<lparr>ost_Status := StateDegraded\<rparr> else status1);
                         status3 = (if allCircuitsOpen (os_CircuitStates orchStatus)
                                    then status2\<lparr>ost_Status := StateUnavailable\<rparr> else status2)
                     in (status3, set_orchestrator fo1 st1)))))"

definition app_freshness :: "'w app_state \<Rightarrow> FreshnessTracker option" where
  "app_freshness st = Option.bind (app_reporter (as_app st)) rep_freshnessTracker"

definition applyFreshnessStatus ::
    "'w api_app api_env \<Rightarrow> OperationsStatus \<Rightarrow> 'w app_state \<Rightarrow> OperationsStatus \<times> 'w app_state" where
  "applyFreshnessStatus env status st =
     (case app_freshness st of
        None \<Rightarrow> (status, st)
      | Some ft \<Rightarrow>
          (case api_Now env st of
             (now, st1) \<Rightarrow>
               (case Summary now ft (as_metrics st1) of
                  (summary, m) \<Rightarrow>
                    (let status1 = status\<lparr>ost_Freshness := Some summary\<rparr>
                     in (if fs_OverallState summary = FreshnessStale \<and> ost_Status status1 = StateHealthy
                         then status1\<lparr>ost_Status := StateStale\<rparr> else status1,
                         st1\<lparr>as_metrics := m\<rparr>)))))"

definition applyRecentAnomalies :: "OperationsStatus \<Rightarrow> 'w app_state \<Rightarrow> OperationsStatus" where
  "applyRecentAnomalies status st =
     (case Option.bind (app_reporter (as_app st)) rep_anomalyDetector of
        None \<Rightarrow> status
      | Some ad \<Rightarrow>
          (let anomalies = RecentAnomalies 10 ad
           in if 0 < length anomalies then status\<lparr>ost_RecentAnomalies := anomalies\<rparr> else status))"

definition zero_provider_status :: OrchestratorStatus where
  "zero_provider_status =
     \<lparr>os_ActiveProvider = '''', os_Degraded = False, os_LastSwitch = None, os_CircuitStates = [], os_Providers = []\<rparr>"

definition new_status :: "time \<Rightarrow> OperationsStatus" where
  "new_status now =
     \<lparr>ost_Status = StateHealthy, ost_Timestamp = now, ost_Ingestion = inactive_ingestion,
      ost_Provider = zero_provider_status, ost_Freshness = None,
      ost_Dependencies = \<lparr>ds_PostgreSQL = '''', ds_Redis = ''''\<rparr>, ost_RecentAnomalies = []\<rparr>"

definition handler_OperationsStatus :: "'w api_app api_env \<Rightarrow> 'w Handler \<Rightarrow> 'w api_app handler" where
  "handler_OperationsStatus env h r w st =
     (case api_Now env st of
        (now, st1) \<Rightarrow>
          (case checkDependencies h st1 of
             (deps, st2) \<Rightarrow>
               (let status0 = (new_status now)\<lparr>ost_Dependencies := deps\<rparr>;
                    status1 = (if ds_PostgreSQL deps = ''unavailable'' \<or> ds_Redis deps = ''unavailable''
                               then status0\<lparr>ost_Status := StateUnavailable\<rparr> else status0)
                in case applyProviderStatus env status1 st2 of
                     (status2, st3) \<Rightarrow>
                       (case applyFreshnessStatus env status2 st3 of
                          (status3, st4) \<Rightarrow>
                            (None, writeJSON 200 (StatusBody (applyRecentAnomalies status3 st4)) w, st4)))))"

section \<open>Router\<close>

record 'a chi_router =
  chi_Match :: "(string \<times> string) list \<Rightarrow> http_request \<Rightarrow> (nat \<times> (string, string) gomap) option"
  chi_Unmatched :: "'a handler"
  chi_External :: "string \<Rightarrow> 'a handler"

text \<open>The routes in the order of their registration; \<open>*\<close> stands for every method.\<close>

definition api_routes ::
    "'w api_app api_env \<Rightarrow> 'w Handler \<Rightarrow> 'w api_app chi_router \<Rightarrow> (string \<times> string \<times> 'w api_app handler) list" where
  "api_routes env h chi =
     [(''GET'', ''/health'', handler_Health h), (''GET'', ''/ready'', handler_Ready h),
      (''GET'', ''/markets'', handler_Markets h), (''GET'', ''/coins'', handler_Coins h),
      (''GET'', ''/coins/{symbol}'', handler_CoinBySymbol h),
      (''GET'', ''/coins/{symbol}/history'', handler_CoinHistory h),
      (''GET'', ''/providers/status'', handler_ProviderStatus h),
      (''GET'', ''/operations/status'', handler_OperationsStatus env h),
      (''GET'', ''/metrics'', chi_External chi ''promhttp'')]
     @ map (\<lambda>(path, name). (''*'', ''/debug/pprof'' @ path, chi_External chi name))
         [(''/'', ''pprof.Index''), (''/cmdline'', ''pprof.Cmdline''), (''/profile'', ''pprof.Profile''),
          (''/symbol'', ''pprof.Symbol''), (''/trace'', ''pprof.Trace''), (''/allocs'', ''allocs''),
          (''/block'', ''block''), (''/goroutine'', ''goroutine''), (''/heap'', ''heap''),
          (''/mutex'', ''mutex''), (''/threadcreate'', ''threadcreate'')]"

definition serve_routes :: "'a chi_router \<Rightarrow> (string \<times> string \<times> 'a handler) list \<Rightarrow> 'a handler" where
  "serve_routes chi routes r w st =
     (case chi_Match chi (map (\<lambda>(meth, pattern, h). (meth, pattern)) routes) r of
        None \<Rightarrow> chi_Unmatched chi r w st
      | Some (i, params) \<Rightarrow>
          if i < length routes then snd (snd (routes ! i)) (r\<lparr>rq_URLParams := params\<rparr>) w st
          else chi_Unmatched chi r w st)"

definition NewRouter ::
    "'w api_app api_env \<Rightarrow> 'w Handler \<Rightarrow> 'w api_app chi_router \<Rightarrow> AuthConfig \<Rightarrow> 'w api_app handler" where
  "NewRouter env h chi authCfg = Chain (serve_routes chi (api_routes env h chi)) (api_middlewares env authCfg)"

section \<open>Specifications\<close>

text \<open>The overall state as a function of the parts of the document.\<close>

definition classify :: "OperationsStatus \<Rightarrow> DegradedState" where
  "classify s =
     (let deps = ost_Dependencies s; circuits = os_CircuitStates (ost_Provider s)
      in if ds_PostgreSQL deps = ''unavailable'' \<or> ds_Redis deps = ''unavailable''
           \<or> circuits \<noteq> [] \<and> (\<forall>(name, c) \<in> set circuits. c = ''open'') then StateUnavailable
         else if os_Degraded (ost_Provider s) then StateDegraded
         else if map_option fs_OverallState (ost_Freshness s) = Some FreshnessStale then StateStale
         else StateHealthy)"

text \<open>A Redis server that does not answer.\<close>

definition redis_down :: "'w redis_client \<Rightarrow> bool" where
  "redis_down rc \<longleftrightarrow>
     (\<forall>k w. \<exists>err. rc_Get rc k w = (Inl err, w)) \<and> (\<forall>ks w. \<exists>err. rc_MGet rc ks w = (Inl err, w))"

text \<open>A handler that answers with one JSON document, or panics before it wrote anything.\<close>

definition answers_json :: "'a handler \<Rightarrow> bool" where
  "answers_json h \<longleftrightarrow>
     (\<forall>r w st. fst (h r w st) \<noteq> None \<and> fst (snd (h r w st)) = w \<or>
        (\<exists>c v. fst (snd (h r w st)) = writeJSON c v w))"

text \<open>A handler, a router and a request for closed examples; the database has one table of one coin.\<close>

definition demo_coin_repo :: "mem_world CoinRepository" where
  "demo_coin_repo =
     \<lparr>cr_GetActiveCoins = (\<lambda>w. (Inr [], w)),
      cr_GetBySymbol = (\<lambda>s w. (Inr (Some \<lparr>coin_ID = 7, coin_Symbol = s, coin_Name = s, coin_ProviderSymbol = s,
         coin_IsActive = True, coin_CreatedAt = 0, coin_UpdatedAt = 0\<rparr>), w))\<rparr>"

definition demo_handler :: "mem_world Handler" where
  "demo_handler =
     NewHandler (Some mem_db) demo_coin_repo (NewPostgresSnapshotRepository limit_db) None None (\<lambda>s. s)"

definition demo_chi :: "mem_world api_app chi_router" where
  "demo_chi =
     \<lparr>chi_Match = (\<lambda>rs r. Some (0, [])),
      chi_Unmatched = (\<lambda>r w st. (None, writeError 404 ''not found'' w, st)),
      chi_External = (\<lambda>name r w st. (None, writeError 404 name w, st))\<rparr>"

definition demo_app_state :: "mem_world app_state" where
  "demo_app_state =
     demo_api_state \<lparr>app_world = ([SqlInt 1 # snapshot_args demo_snapshot], []), app_reporter = None\<rparr>"

definition demo_app_env :: "mem_world api_app api_env" where
  "demo_app_env = \<lparr>ae_Now = (\<lambda>a. (0, a)), ae_Rand = (\<lambda>n a. (replicate n (char_of (0 :: nat)), a))\<rparr>"

definition demo_history_request :: http_request where
  "demo_history_request =
     (get_request ''/coins/BTC/history'' [])\<lparr>rq_URLParams := [(''symbol'', ''btc'')], rq_RawQuery := ''limit=9999''\<rparr>"

definition down_client :: "mem_world redis_client" where
  "down_client =
     \<lparr>rc_Set = (\<lambda>k v d w. (Some DeadlineExceeded, w)), rc_Pipeline = (\<lambda>cs w. (Some DeadlineExceeded, w)),
      rc_Get = (\<lambda>k w. (Inl DeadlineExceeded, w)), rc_MGet = (\<lambda>ks w. (Inl DeadlineExceeded, w)),
      rc_XAdd = (\<lambda>s n a vs w. (Some DeadlineExceeded, w)), rc_XRange = (\<lambda>s a b w. (Inl DeadlineExceeded, w)),
      rc_Ping = (\<lambda>w. (Some DeadlineExceeded, w)), rc_NewUUID = (\<lambda>w. ('''', w)), rc_codec = plain_codec,
      rc_Now = (\<lambda>w. (0, w))\<rparr>"

section \<open>Lemmas\<close>

lemma answers_jsonI:
  "(\<And>r w st. fst (h r w st) \<noteq> None \<and> fst (snd (h r w st)) = w \<or>
      (\<exists>c v. fst (snd (h r w st)) = writeJSON c v w)) \<Longrightarrow> answers_json h"
  by (simp add: answers_json_def)

lemma answers_json_safe:
  assumes "answers_json h"
  shows "header_safe h"
proof -
  have "keeps_header k v h" if kv: "(k, v) \<in> set (protected_headers i)" for k v i
  proof (rule keeps_headerI)
    fix r w st
    assume "writer_has k v w"
    moreover have "k \<noteq> ''Content-Type''" using protected_not_inner [OF kv] by (auto simp: inner_keys_def)
    ultimately show "writer_has k v (fst (snd (h r w st)))"
      using assms has_writeJSON unfolding answers_json_def by metis
  qed
  then show ?thesis by (auto simp: header_safe_def list_all_iff)
qed

lemma answers_json_responds: "answers_json h \<Longrightarrow> responds h"
  unfolding answers_json_def responds_def by (metis sent_simps(2))

lemma with_coin_json:
  assumes "\<And>symbol coin. answers_json (k symbol coin)"
  shows "answers_json (with_coin h k)"
  using assms
  by (intro answers_jsonI)
    (auto simp: with_coin_def Let_def writeError_def answers_json_def split: prod.split sum.split option.split)

lemma endpoints_json:
  "answers_json (handler_Health h)" "answers_json (handler_Ready h)" "answers_json (handler_Markets h)"
  "answers_json (handler_Coins h)" "answers_json (handler_ProviderStatus h)"
  "answers_json (handler_OperationsStatus env h)"
  by (rule answers_jsonI, auto simp: handler_Health_def handler_Ready_def not_ready_def ready_answer_def
      handler_Markets_def handler_Coins_def handler_ProviderStatus_def handler_OperationsStatus_def
      Let_def writeError_def split: prod.split sum.split option.split)+

lemma coin_endpoints_json:
  "answers_json (handler_CoinBySymbol h)" "answers_json (handler_CoinHistory h)"
proof -
  have db: "answers_json (coin_from_database h coin)" for coin
    by (rule answers_jsonI) (auto simp: coin_from_database_def writeError_def split: prod.split sum.split option.split)
  show "answers_json (handler_CoinBySymbol h)"
    unfolding handler_CoinBySymbol_def using db
    by (intro with_coin_json answers_jsonI) (auto simp: answers_json_def split: prod.split sum.split option.split)
  show "answers_json (handler_CoinHistory h)"
    unfolding handler_CoinHistory_def
    by (intro with_coin_json answers_jsonI)
      (auto simp: history_page_def Let_def writeError_def split: prod.split sum.split option.split)
qed

lemma route_json:
  assumes "(m, p, g) \<in> set (api_routes env h chi)"
  shows "answers_json g \<or> (\<exists>name. g = chi_External chi name)"
  using assms by (auto simp: api_routes_def endpoints_json coin_endpoints_json)

lemma serve_routes_cases:
  obtains "serve_routes chi (api_routes env h chi) r w st = chi_Unmatched chi r w st"
  | r' g where "answers_json g \<or> (\<exists>name. g = chi_External chi name)"
      "serve_routes chi (api_routes env h chi) r w st = g r' w st"
proof (cases "chi_Match chi (map (\<lambda>(meth, pattern, h). (meth, pattern)) (api_routes env h chi)) r")
  case (Some ip)
  then obtain j params where m: "chi_Match chi (map (\<lambda>(meth, pattern, h). (meth, pattern)) (api_routes env h chi)) r = Some (j, params)"
    by (cases ip) simp
  show thesis
  proof (cases "j < length (api_routes env h chi)")
    case True
    then have "api_routes env h chi ! j \<in> set (api_routes env h chi)" by (rule nth_mem)
    then have "answers_json (snd (snd (api_routes env h chi ! j)))
        \<or> (\<exists>name. snd (snd (api_routes env h chi ! j)) = chi_External chi name)"
      using route_json by (metis prod.collapse)
    then show thesis by (rule that(2)) (use m True in \<open>simp add: serve_routes_def\<close>)
  qed (use m that(1) in \<open>simp add: serve_routes_def\<close>)
qed (use that(1) in \<open>simp add: serve_routes_def\<close>)

lemma router_safe:
  assumes "header_safe (chi_Unmatched chi)" and "\<And>name. header_safe (chi_External chi name)"
  shows "header_safe (serve_routes chi (api_routes env h chi))"
proof -
  have "keeps_header k v (serve_routes chi (api_routes env h chi))"
    if kv: "(k, v) \<in> set (protected_headers i)" for k v i
  proof (rule keeps_headerI)
    fix r w st
    assume "writer_has k v w"
    note keep = keeps_headerD [OF header_safe_keeps [OF _ kv] this]
    show "writer_has k v (fst (snd (serve_routes chi (api_routes env h chi) r w st)))"
      by (rule serve_routes_cases [of chi env h r w st]) (auto intro!: keep simp: assms answers_json_safe)
  qed
  then show ?thesis by (auto simp: header_safe_def list_all_iff)
qed

lemma router_responds:
  assumes "responds (chi_Unmatched chi)" and "\<And>name. responds (chi_External chi name)"
  shows "responds (serve_routes chi (api_routes env h chi))"
proof (rule respondsI)
  fix r w st w' st'
  assume "serve_routes chi (api_routes env h chi) r w st = (None, w', st')"
  then show "answered w'"
    using serve_routes_cases [of chi env h r w st] assms answers_json_responds respondsD by metis
qed

lemma all_open_iff: "all_open states \<longleftrightarrow> (\<forall>(name, c) \<in> set states. c = ''open'')"
  by (induction states rule: all_open.induct) auto

lemma allCircuitsOpen_iff: "allCircuitsOpen states \<longleftrightarrow> states \<noteq> [] \<and> (\<forall>(name, c) \<in> set states. c = ''open'')"
  by (auto simp: allCircuitsOpen_def all_open_iff)

lemma history_limit_bounds: "1 \<le> history_limit r" "history_limit r \<le> 500"
  by (simp_all add: history_limit_def maxHistoryLimit_def Let_def)

lemma applyProviderStatus_spec:
  assumes "applyProviderStatus env s st = (s', st')" and "ost_Provider s = zero_provider_status"
  shows "ost_Dependencies s' = ost_Dependencies s \<and> ost_Freshness s' = ost_Freshness s \<and>
    ost_Status s' =
      (if allCircuitsOpen (os_CircuitStates (ost_Provider s')) then StateUnavailable
       else if os_Degraded (ost_Provider s') \<and> ost_Status s = StateHealthy then StateDegraded
       else ost_Status s)"
  using assms
  by (auto simp: applyProviderStatus_def zero_provider_status_def allCircuitsOpen_def Let_def
      split: option.splits prod.splits if_splits)

lemma applyFreshnessStatus_spec:
  assumes "applyFreshnessStatus env s st = (s', st')" and "ost_Freshness s = None"
  shows "ost_Dependencies s' = ost_Dependencies s \<and> ost_Provider s' = ost_Provider s \<and>
    ost_Status s' =
      (if map_option fs_OverallState (ost_Freshness s') = Some FreshnessStale \<and> ost_Status s = StateHealthy
       then StateStale else ost_Status s)"
  using assms by (auto simp: applyFreshnessStatus_def Let_def split: option.splits prod.splits if_splits)

lemma applyRecentAnomalies_spec:
  "ost_Dependencies (applyRecentAnomalies s st) = ost_Dependencies s"
  "ost_Provider (applyRecentAnomalies s st) = ost_Provider s"
  "ost_Freshness (applyRecentAnomalies s st) = ost_Freshness s"
  "ost_Status (applyRecentAnomalies s st) = ost_Status s"
  by (simp_all add: applyRecentAnomalies_def Let_def split: option.split)

lemma with_coin_cases:
  "with_coin h k r w st = (p, w', st') \<Longrightarrow>
     (\<exists>c msg. w' = writeError c msg w) \<or> (\<exists>symbol coin st1. k symbol coin r w st1 = (p, w', st'))"
  by (auto simp: with_coin_def Let_def split: prod.splits sum.splits option.splits if_splits)

lemma history_page_cases:
  "history_page h coin r w st = (p, w', st') \<Longrightarrow>
     (\<exists>c msg. w' = writeError c msg w) \<or>
     (\<exists>before from to ss wld wld1.
        sr_GetHistory (h_snapshotRepo h) (coin_ID coin) (history_limit r) before from to wld = (Inr ss, wld1) \<and>
        w' = writeJSON 200 (SnapshotPage ss (int (length ss))) w)"
  by (auto simp: history_page_def Let_def app_call_def split: prod.splits sum.splits option.splits if_splits) blast

lemma app_call_same: "f (app_world (as_app st)) = (x, app_world (as_app st)) \<Longrightarrow> app_call f st = (x, st)"
  by (simp add: app_call_def)

section \<open>Properties\<close>

text \<open>
  C10: Every response of the API, whoever is answering (an endpoint, a middleware, the recovery
  from a panic), carries the request identifier, the client's own if it sent one, and every
  security header, provided the handlers from outside leave these headers alone; and no panic
  leaves the router.
\<close>

theorem responses_secured:
  assumes "header_safe (chi_Unmatched chi)" and "\<forall>name. header_safe (chi_External chi name)"
    and "responds (chi_Unmatched chi)" and "\<forall>name. responds (chi_External chi name)"
    and "NewRouter env h chi authCfg r new_writer st = (p, w, st')"
  shows "p = None \<and>
    (\<exists>i code hs. wr_sent w = Some (code, hs) \<and>
       (Header_Get ''X-Request-ID'' r \<noteq> '''' \<longrightarrow> i = Header_Get ''X-Request-ID'' r) \<and>
       list_all (\<lambda>(k, v). gm_get hs k = Some v) (protected_headers i))"
proof -
  have "header_safe (serve_routes chi (api_routes env h chi))" "responds (serve_routes chi (api_routes env h chi))"
    using router_safe router_responds assms(1-4) by blast+
  from chain_secured [OF this] assms(5) show ?thesis unfolding NewRouter_def by blast
qed

theorem responses_secured_witness:
  "map_option (\<lambda>(code, hs). gm_get hs ''X-Frame-Options'')
     (wr_sent (fst (snd (NewRouter demo_app_env demo_handler demo_chi (NewAuthConfig False [] '''' '''')
        (get_request ''/health'' []) new_writer demo_app_state)))) = Some (Some ''DENY'')"
proof -
  have json: "answers_json (chi_Unmatched demo_chi)" "answers_json (chi_External demo_chi name)" for name
    by (auto simp: answers_json_def demo_chi_def writeError_def)
  obtain p w st' where "NewRouter demo_app_env demo_handler demo_chi (NewAuthConfig False [] '''' '''')
      (get_request ''/health'' []) new_writer demo_app_state = (p, w, st')" by (metis surj_pair)
  moreover from responses_secured [OF _ _ _ _ this] json
  obtain i code hs where "wr_sent w = Some (code, hs)"
      "list_all (\<lambda>(k, v). gm_get hs k = Some v) (protected_headers i)"
    by (auto simp: answers_json_safe answers_json_responds)
  moreover have "(''X-Frame-Options'', ''DENY'') \<in> set (protected_headers i)"
    by (simp add: protected_headers_def security_headers_def header_key_def char_upper_def char_lower_def)
  ultimately show ?thesis by (auto simp: list_all_iff)
qed

text \<open>
  C25: The status document is consistent: its overall state is the one its parts imply, whatever
  order they were filled in.
\<close>

theorem operations_status_classified:
  "\<exists>s st'. handler_OperationsStatus env h r w st = (None, writeJSON 200 (StatusBody s) w, st') \<and>
     ost_Status s = classify s"
proof -
  obtain now st1 where now: "api_Now env st = (now, st1)" by (metis surj_pair)
  obtain deps st2 where deps: "checkDependencies h st1 = (deps, st2)" by (metis surj_pair)
  let ?down = "ds_PostgreSQL deps = ''unavailable'' \<or> ds_Redis deps = ''unavailable''"
  let ?s0 = "(new_status now)\<lparr>ost_Dependencies := deps\<rparr>"
  let ?s1 = "if ?down then ?s0\<lparr>ost_Status := StateUnavailable\<rparr> else ?s0"
  obtain s2 st3 where prov: "applyProviderStatus env ?s1 st2 = (s2, st3)" by (metis surj_pair)
  obtain s3 st4 where fresh: "applyFreshnessStatus env s2 st3 = (s3, st4)" by (metis surj_pair)
  have s1: "ost_Dependencies ?s1 = deps" "ost_Freshness ?s1 = None" "ost_Provider ?s1 = zero_provider_status"
      "ost_Status ?s1 = (if ?down then StateUnavailable else StateHealthy)"
    by (simp_all add: new_status_def)
  note p = applyProviderStatus_spec [OF prov s1(3)]
  then have "ost_Freshness s2 = None" using s1(2) by simp
  note f = applyFreshnessStatus_spec [OF fresh this]
  have "ost_Status s3 = classify s3"
    using p f s1 by (auto simp: classify_def Let_def allCircuitsOpen_iff)
  then have "ost_Status (applyRecentAnomalies s3 st4) = classify (applyRecentAnomalies s3 st4)"
    by (simp only: classify_def applyRecentAnomalies_spec)
  then show ?thesis
    by (intro exI [of _ "applyRecentAnomalies s3 st4"] exI [of _ st4] conjI)
      (simp_all add: handler_OperationsStatus_def now deps prov fresh Let_def)
qed


text \<open>
  A page of history has at most 500 snapshots, whatever limit the client asks for, and its
  count is the number of snapshots.
\<close>

theorem history_page_bounded:
  assumes "h_snapshotRepo h = NewPostgresSnapshotRepository db" and "honours_limit db"
    and "handler_CoinHistory h r w st = (p, w', st')" and "wr_body w = []"
    and "JsonChunk (SnapshotPage ss n) \<in> set (wr_body w')"
  shows "length ss \<le> 500 \<and> n = int (length ss)"
proof -
  have body: "v = SnapshotPage ss n" if "w' = writeJSON c v w" for c v
    using that assms(4,5) by (auto simp: writer_defs split: option.splits if_splits)
  have err: "w' \<noteq> writeError c msg w" for c msg using body [of c "ErrorResponse msg"] by (auto simp: writeError_def)
  obtain coin st1 where "history_page h coin r w st1 = (p, w', st')"
    using with_coin_cases assms(3) err unfolding handler_CoinHistory_def by metis
  then obtain before "from" to wld wld1 ss' where
      hist: "GetHistory db (coin_ID coin) (history_limit r) before from to wld = (Inr ss', wld1)"
      and w': "w' = writeJSON 200 (SnapshotPage ss' (int (length ss'))) w"
    using history_page_cases [of h coin r w st1 p w' st'] err assms(1)
    by (auto simp: NewPostgresSnapshotRepository_def)
  from GetHistory_length [OF assms(2) hist] body [OF w'] history_limit_bounds [of r] show ?thesis by auto
qed

theorem history_page_bounded_witness:
  "\<exists>ss n. JsonChunk (SnapshotPage ss n) \<in> set (wr_body (fst (snd (handler_CoinHistory demo_handler
       demo_history_request new_writer demo_app_state)))) \<and> length ss \<le> 500 \<and> n = int (length ss)"
proof -
  let ?snap = "demo_snapshot\<lparr>ps_ID := 1\<rparr>"
  obtain p w' st' where hist: "handler_CoinHistory demo_handler demo_history_request new_writer demo_app_state = (p, w', st')"
    by (metis surj_pair)
  have "JsonChunk (SnapshotPage [?snap] 1) \<in> set (wr_body w')"
  proof -
    have "Query_Get key demo_history_request = (if key = ''limit'' then ''9999'' else '''')"
      if "key \<in> {''limit'', ''before'', ''from'', ''to''}" for key
      using that by (elim insertE emptyE) (simp_all, code_simp+)
    then have params: "history_limit demo_history_request = 500"
        "time_param ''before'' demo_history_request = Some None" "time_param ''from'' demo_history_request = Some None"
        "time_param ''to'' demo_history_request = Some None"
      by (simp_all add: history_limit_def parseIntParam_def time_param_def Let_def strconv_Atoi_def is_digit_def digit_val_def
          maxHistoryLimit_def is_int64_def)
    have symbol: "strings_ToUpper (\<lambda>s. s) (URLParam ''symbol'' demo_history_request) = ''BTC''" by code_simp
    have "encodable (SnapshotPage [?snap] 1)" by code_simp
    then show ?thesis
      using hist symbol
      by (auto simp: handler_CoinHistory_def with_coin_def history_page_def params demo_handler_def NewHandler_def
          demo_coin_repo_def app_call_def NewPostgresSnapshotRepository_def GetHistory_def history_query_def
          add_condition_def add_optional_def query_list_def limit_db_def demo_app_state_def demo_api_state_def
          scan_snapshot_args writeJSON_new new_writer_def Let_def)
  qed
  moreover have "h_snapshotRepo demo_handler = NewPostgresSnapshotRepository limit_db"
    by (simp add: demo_handler_def NewHandler_def)
  ultimately show ?thesis
    using history_page_bounded [OF _ limit_db_honours hist] hist
    by (intro exI [of _ "[?snap]"] exI [of _ 1]) (simp add: new_writer_def)
qed



end
