(* ===== verification/Migrations.thy ===== *)
theory Migrations
  imports Repository Provider_Selection
begin

text \<open>
  \<open>internal/repository/migrate.go\<close>: schema migrations, each in a transaction of its own
  together with its record in \<open>schema_migrations\<close>. The file system is a record of the calls
  the code makes; \<open>filepath.Join\<close> is that of a directory name in its clean form, as its
  callers pass it, and a file name. The laws of \<open>migration_db\<close> say that the scripts leave
  \<open>schema_migrations\<close> alone and that the table is what the transactions make of it.
\<close>

record 'w file_system =
  fs_Glob :: "string \<Rightarrow> 'w \<Rightarrow> (go_error + string list) \<times> 'w"
  fs_ReadFile :: "string \<Rightarrow> 'w \<Rightarrow> (go_error + string) \<times> 'w"
  fs_Print :: "string \<Rightarrow> 'w \<Rightarrow> 'w"

section \<open>Paths and sorting\<close>

definition filepath_Join :: "string \<Rightarrow> string \<Rightarrow> string" where
  "filepath_Join dir name = (if dir = '''' then name else dir @ ''/'' @ name)"

definition filepath_Base :: "string \<Rightarrow> string" where
  "filepath_Base path =
     (if path = '''' then ''.''
      else
        let p = strings_TrimRight path (CHR ''/'');
            b = rev (takeWhile (\<lambda>c. c \<noteq> CHR ''/'') (rev p))
        in if b = '''' then ''/'' else b)"

definition sort_strings :: "string list \<Rightarrow> string list" where
  "sort_strings xs = map fst (sort_keys (map (\<lambda>x. (x, ())) xs))"

text \<open>\<open>strings.Replace(s, old, new, 1)\<close> for an \<open>old\<close> that is not empty.\<close>

fun strings_Replace1 :: "string \<Rightarrow> string \<Rightarrow> string \<Rightarrow> string" where
  "strings_Replace1 [] old new = []"
| "strings_Replace1 (c # s) old new =
     (if take (length old) (c # s) = old then new @ drop (length old) (c # s)
      else c # strings_Replace1 s old new)"

section \<open>Operations\<close>

definition create_migrations_sql :: string where
  "create_migrations_sql =
     concat (map (\<lambda>l. CHR 0x0A # tab @ tab @ l)
       [''CREATE TABLE IF NOT EXISTS schema_migrations ('',
        tab @ ''id         BIGSERIAL PRIMARY KEY,'',
        tab @ ''name       VARCHAR(255) NOT NULL UNIQUE,'',
        tab @ ''applied_at TIMESTAMPTZ NOT NULL DEFAULT NOW()'',
        '')''])"

definition applied_sql :: string where
  "applied_sql = ''SELECT name FROM schema_migrations''"

definition record_migration_sql :: string where
  "record_migration_sql = ''INSERT INTO schema_migrations (name) VALUES ($1)''"

definition last_migration_sql :: string where
  "last_migration_sql = ''SELECT name FROM schema_migrations ORDER BY applied_at DESC LIMIT 1''"

definition remove_migration_sql :: string where
  "remove_migration_sql = ''DELETE FROM schema_migrations WHERE name = $1''"

definition ensureMigrationsTable :: "'w sql_db \<Rightarrow> 'w \<Rightarrow> go_error option \<times> 'w" where
  "ensureMigrationsTable db w =
     (case db_Exec db create_migrations_sql [] w of
        (Some err, w1) \<Rightarrow> (Some (fail_with ''create schema_migrations table'' err), w1)
      | (None, w1) \<Rightarrow> (None, w1))"

definition getAppliedMigrations :: "'w sql_db \<Rightarrow> 'w \<Rightarrow> (go_error + (string, bool) gomap) \<times> 'w" where
  "getAppliedMigrations db w =
     (case query_list db applied_sql [] (scan_one scan_string) ''query applied migrations''
             ''scan migration name'' ''iterate applied migrations'' w of
        (Inl err, w1) \<Rightarrow> (Inl err, w1)
      | (Inr names, w1) \<Rightarrow> (Inr (fold (\<lambda>n m. gm_put n True m) names []), w1))"

text \<open>A script and the statement that records it, in one transaction.\<close>

definition run_script ::
    "'w sql_db \<Rightarrow> string \<Rightarrow> string \<Rightarrow> string \<Rightarrow> string \<Rightarrow> string \<Rightarrow> string \<Rightarrow> string
       \<Rightarrow> 'w \<Rightarrow> go_error option \<times> 'w" where
  "run_script db content record_sql name begin_failed script_failed record_failed commit_failed w =
     (case db_BeginTx db w of
        (Some err, w1) \<Rightarrow> (Some (fail_with begin_failed err), w1)
      | (None, w1) \<Rightarrow>
          (case tx_Exec db content [] w1 of
             (Some err, w2) \<Rightarrow> (Some (fail_with script_failed err), tx_Rollback db w2)
           | (None, w2) \<Rightarrow>
               (case tx_Exec db record_sql [SqlText name] w2 of
                  (Some err, w3) \<Rightarrow> (Some (fail_with record_failed err), tx_Rollback db w3)
                | (None, w3) \<Rightarrow>
                    (case tx_Commit db w3 of
                       (Some err, w4) \<Rightarrow> (Some (fail_with commit_failed err), w4)
                     | (None, w4) \<Rightarrow> (None, w4)))))"

fun migrate_loop ::
    "'w sql_db \<Rightarrow> 'w file_system \<Rightarrow> (string, bool) gomap \<Rightarrow> string list \<Rightarrow> 'w \<Rightarrow> go_error option \<times> 'w" where
  "migrate_loop db fs applied [] w = (None, w)"
| "migrate_loop db fs applied (f # files) w =
     (let name = filepath_Base f
      in if gm_true applied name then migrate_loop db fs applied files w
         else case fs_ReadFile fs f w of
                (Inl err, w1) \<Rightarrow> (Some (fail_with (''read migration '' @ name) err), w1)
              | (Inr content, w1) \<Rightarrow>
                  (case run_script db content record_migration_sql name (''begin tx for '' @ name)
                          (''execute migration '' @ name) (''record migration '' @ name)
                          (''commit migration '' @ name) w1 of
                     (Some err, w2) \<Rightarrow> (Some err, w2)
                   | (None, w2) \<Rightarrow>
                       migrate_loop db fs applied files
                         (fs_Print fs (''applied migration: '' @ name @ [CHR 0x0A]) w2)))"

definition Migrate :: "'w sql_db \<Rightarrow> 'w file_system \<Rightarrow> string \<Rightarrow> 'w \<Rightarrow> go_error option \<times> 'w" where
  "Migrate db fs migrationsDir w =
     (case ensureMigrationsTable db w of
        (Some err, w1) \<Rightarrow> (Some err, w1)
      | (None, w1) \<Rightarrow>
          (case getAppliedMigrations db w1 of
             (Inl err, w2) \<Rightarrow> (Some err, w2)
           | (Inr applied, w2) \<Rightarrow>
               (case fs_Glob fs (filepath_Join migrationsDir ''*.up.sql'') w2 of
                  (Inl err, w3) \<Rightarrow> (Some (fail_with ''glob migrations'' err), w3)
                | (Inr files, w3) \<Rightarrow> migrate_loop db fs applied (sort_strings files) w3)))"

definition MigrateDown :: "'w sql_db \<Rightarrow> 'w file_system \<Rightarrow> string \<Rightarrow> 'w \<Rightarrow> go_error option \<times> 'w" where
  "MigrateDown db fs migrationsDir w =
     (case ensureMigrationsTable db w of
        (Some err, w1) \<Rightarrow> (Some err, w1)
      | (None, w1) \<Rightarrow>
          (case query_row db last_migration_sql [] (scan_one scan_string) w1 of
             (Inl err, w2) \<Rightarrow>
               if errors_Is err ErrNoRows
               then (None, fs_Print fs (''no migrations to reverse'' @ [CHR 0x0A]) w2)
               else (Some (fail_with ''query last migration'' err), w2)
           | (Inr lastMigration, w2) \<Rightarrow>
               (let downFile = strings_Replace1 lastMigration ''.up.sql'' ''.down.sql''
                in case fs_ReadFile fs (filepath_Join migrationsDir downFile) w2 of
                     (Inl err, w3) \<Rightarrow> (Some (fail_with (''read down migration '' @ downFile) err), w3)
                   | (Inr content, w3) \<Rightarrow>
                       (case run_script db content remove_migration_sql lastMigration ''begin tx''
                               (''execute down migration '' @ downFile)
                               (''remove migration record '' @ lastMigration) ''commit down migration'' w3 of
                          (Some err, w4) \<Rightarrow> (Some err, w4)
                        | (None, w4) \<Rightarrow>
                            (None, fs_Print fs (''reversed migration: '' @ lastMigration @ [CHR 0x0A]) w4)))))"

section \<open>Specification\<close>

text \<open>
  \<open>committed\<close> and \<open>pending\<close> are the names in \<open>schema_migrations\<close>, in the order they were
  recorded, as other connections and as the open transaction see them; \<open>files\<close> are the
  scripts of the directory.
\<close>

definition migration_reads ::
    "'w sql_db \<Rightarrow> 'w file_system \<Rightarrow> ('w \<Rightarrow> string list) \<Rightarrow> string \<Rightarrow> string list \<Rightarrow> bool" where
  "migration_reads db fs committed dir files \<longleftrightarrow>
     (\<forall>q args w. committed (snd (db_Exec db q args w)) = committed w) \<and>
     (\<forall>q args w. committed (snd (db_Query db q args w)) = committed w) \<and>
     (\<forall>w rows w'. db_Query db applied_sql [] w = (Inr (rows, None), w') \<longrightarrow>
        rows = map (\<lambda>n. [SqlText n]) (committed w)) \<and>
     (\<forall>w rows rerr w'. db_Query db last_migration_sql [] w = (Inr (rows, rerr), w') \<longrightarrow>
        rows = (if committed w = [] then [] else [[SqlText (last (committed w))]])) \<and>
     (\<forall>w err w'. db_Query db last_migration_sql [] w = (Inl err, w') \<longrightarrow> \<not> errors_Is err ErrNoRows) \<and>
     (\<forall>p w. committed (snd (fs_Glob fs p w)) = committed w) \<and>
     (\<forall>w found w'. fs_Glob fs (filepath_Join dir ''*.up.sql'') w = (Inr found, w') \<longrightarrow> found = files) \<and>
     (\<forall>p w. committed (snd (fs_ReadFile fs p w)) = committed w) \<and>
     (\<forall>t w. committed (fs_Print fs t w) = committed w)"

definition migration_writes :: "'w sql_db \<Rightarrow> ('w \<Rightarrow> string list) \<Rightarrow> ('w \<Rightarrow> string list) \<Rightarrow> bool" where
  "migration_writes db committed pending \<longleftrightarrow>
     (\<forall>q args w. committed (snd (tx_Exec db q args w)) = committed w) \<and>
     (\<forall>q w w'. tx_Exec db q [] w = (None, w') \<longrightarrow> pending w' = pending w) \<and>
     (\<forall>n w w'. tx_Exec db record_migration_sql [SqlText n] w = (None, w') \<longrightarrow> pending w' = pending w @ [n]) \<and>
     (\<forall>n w w'. tx_Exec db remove_migration_sql [SqlText n] w = (None, w') \<longrightarrow>
        pending w' = filter (\<lambda>m. m \<noteq> n) (pending w))"

definition migration_db ::
    "'w sql_db \<Rightarrow> 'w file_system \<Rightarrow> ('w \<Rightarrow> string list) \<Rightarrow> ('w \<Rightarrow> string list) \<Rightarrow> string \<Rightarrow> string list \<Rightarrow> bool" where
  "migration_db db fs committed pending dir files \<longleftrightarrow>
     tx_begin db committed pending \<and> tx_end db committed pending \<and>
     migration_reads db fs committed dir files \<and> migration_writes db committed pending"

text \<open>The migrations still to run, in order.\<close>

definition outstanding :: "string list \<Rightarrow> string list \<Rightarrow> string list" where
  "outstanding recorded files = filter (\<lambda>n. n \<notin> set recorded) (map filepath_Base (sort_strings files))"

text \<open>A database and a directory for closed examples: the names recorded and pending.\<close>

definition demo_migrations_db :: "(string list \<times> string list) sql_db" where
  "demo_migrations_db =
     \<lparr>db_Ping = (\<lambda>w. (None, w)),
      db_Query = (\<lambda>q args (rows, tx). (Inr (if q = applied_sql then map (\<lambda>n. [SqlText n]) rows
         else if rows = [] then [] else [[SqlText (last rows)]], None), (rows, tx))),
      db_Exec = (\<lambda>q args w. (None, w)),
      db_BeginTx = (\<lambda>(rows, tx). (None, (rows, rows))),
      tx_Exec = (\<lambda>q args (rows, tx). (None, (rows,
         case args of
           [SqlText n] \<Rightarrow> if q = remove_migration_sql then filter (\<lambda>m. m \<noteq> n) tx else tx @ [n]
         | _ \<Rightarrow> tx))),
      tx_Prepare = (\<lambda>q w. (None, w)),
      stmt_Exec = (\<lambda>q args w. (None, w)),
      stmt_Close = (\<lambda>q w. w),
      tx_Commit = (\<lambda>(rows, tx). (None, (tx, tx))),
      tx_Rollback = (\<lambda>w. w),
      db_ScanErr = (\<lambda>row. ErrorString ''scan'')\<rparr>"

definition demo_files :: "string list \<Rightarrow> (string list \<times> string list) file_system" where
  "demo_files files =
     \<lparr>fs_Glob = (\<lambda>p w. (Inr files, w)), fs_ReadFile = (\<lambda>p w. (Inr ''SELECT 1'', w)), fs_Print = (\<lambda>t w. w)\<rparr>"

section \<open>Lemmas\<close>

lemma demo_migrations_laws: "migration_db demo_migrations_db (demo_files files) fst snd dir files"
proof -
  have "applied_sql \<noteq> last_migration_sql" "record_migration_sql \<noteq> remove_migration_sql"
    by (simp_all add: applied_sql_def last_migration_sql_def record_migration_sql_def remove_migration_sql_def)
  then show ?thesis
    by (auto simp: migration_db_def tx_begin_def tx_end_def migration_reads_def migration_writes_def
        demo_migrations_db_def demo_files_def)
qed

lemma scan_names: "scan_rows db (scan_one scan_string) (map (\<lambda>n. [SqlText n]) ns) = Inr ns"
  by (induction ns) (simp_all add: scan_one_def scan_string_def)

lemma demo_run_script: "fst (run_script demo_migrations_db content q name m1 m2 m3 m4 w) = None"
  by (simp add: run_script_def demo_migrations_db_def split_beta)

lemma demo_Migrate_None: "fst (Migrate demo_migrations_db (demo_files files) dir w) = None"
proof -
  have loop: "fst (migrate_loop demo_migrations_db (demo_files files) applied fls w) = None" for applied fls w
    using demo_run_script
    by (induction fls arbitrary: w)
      (auto simp: Let_def demo_files_def split: prod.splits option.splits, metis fst_conv option.discI)
  obtain applied w1 where "getAppliedMigrations demo_migrations_db w = (Inr applied, w1)"
    by (cases w) (simp add: getAppliedMigrations_def query_list_def demo_migrations_db_def scan_names)
  with loop show ?thesis
    by (simp add: Migrate_def ensureMigrationsTable_def demo_files_def [of files]) (simp add: demo_migrations_db_def demo_files_def)
qed

lemma run_script_rows:
  assumes "migration_db db fs committed pending dir files"
    and "run_script db content q name m1 m2 m3 m4 w = (r, w')"
  shows "committed w' = (if r = None then pending (snd (tx_Exec db q [SqlText name]
             (snd (tx_Exec db content [] (snd (db_BeginTx db w))))))
           else committed w) \<and>
    (r = None \<longrightarrow> (\<exists>w1 w2 w3. db_BeginTx db w = (None, w1) \<and> tx_Exec db content [] w1 = (None, w2) \<and>
        tx_Exec db q [SqlText name] w2 = (None, w3)))"
proof -
  obtain r1 w1 where b: "db_BeginTx db w = (r1, w1)" by (metis surj_pair)
  obtain r2 w2 where c: "tx_Exec db content [] w1 = (r2, w2)" by (metis surj_pair)
  obtain r3 w3 where d: "tx_Exec db q [SqlText name] w2 = (r3, w3)" by (metis surj_pair)
  obtain r4 w4 where e: "tx_Commit db w3 = (r4, w4)" by (metis surj_pair)
  have "committed w1 = committed w"
    using assms(1) b unfolding migration_db_def tx_begin_def by blast
  moreover have "committed (snd (tx_Exec db q args w)) = committed w" for q args w
    using assms(1) unfolding migration_db_def migration_writes_def by blast
  then have "committed w2 = committed w1" "committed w3 = committed w2" using c d by (metis snd_conv)+
  moreover have "committed w4 = (if r4 = None then pending w3 else committed w3)"
      and "\<And>w. committed (tx_Rollback db w) = committed w"
    using assms(1) e unfolding migration_db_def tx_end_def by blast+
  ultimately show ?thesis
    using assms(2) by (auto simp: run_script_def b c d e split: option.splits)
qed

lemma script_pending:
  assumes "migration_db db fs committed pending dir files" and "db_BeginTx db w = (None, w1)"
    and "tx_Exec db content [] w1 = (None, w2)"
  shows "pending w2 = committed w"
proof -
  have "pending w1 = committed w" using assms(1,2) unfolding migration_db_def tx_begin_def by blast
  moreover have "pending w2 = pending w1"
    using assms(1,3) unfolding migration_db_def migration_writes_def by blast
  ultimately show ?thesis by simp
qed

lemma record_script:
  assumes "migration_db db fs committed pending dir files"
    and "run_script db content record_migration_sql name m1 m2 m3 m4 w = (r, w')"
  shows "committed w' = (if r = None then committed w @ [name] else committed w)"
proof (cases "r = None")
  case True
  then obtain w1 w2 w3 where st: "db_BeginTx db w = (None, w1)" "tx_Exec db content [] w1 = (None, w2)"
      "tx_Exec db record_migration_sql [SqlText name] w2 = (None, w3)"
    using run_script_rows [OF assms] by blast
  then have "pending w3 = pending w2 @ [name]"
    using assms(1) unfolding migration_db_def migration_writes_def by blast
  with True st run_script_rows [OF assms] script_pending [OF assms(1) st(1,2)] show ?thesis by simp
qed (use run_script_rows [OF assms] in auto)

lemma remove_script:
  assumes "migration_db db fs committed pending dir files"
    and "run_script db content remove_migration_sql name m1 m2 m3 m4 w = (r, w')"
  shows "committed w' = (if r = None then filter (\<lambda>m. m \<noteq> name) (committed w) else committed w)"
proof (cases "r = None")
  case True
  then obtain w1 w2 w3 where st: "db_BeginTx db w = (None, w1)" "tx_Exec db content [] w1 = (None, w2)"
      "tx_Exec db remove_migration_sql [SqlText name] w2 = (None, w3)"
    using run_script_rows [OF assms] by blast
  then have "pending w3 = filter (\<lambda>m. m \<noteq> name) (pending w2)"
    using assms(1) unfolding migration_db_def migration_writes_def by blast
  with True st run_script_rows [OF assms] script_pending [OF assms(1) st(1,2)] show ?thesis by simp
qed (use run_script_rows [OF assms] in auto)

lemma reads_keep:
  assumes "migration_db db fs committed pending dir files"
  shows "db_Exec db q args w = (e, w') \<Longrightarrow> committed w' = committed w"
    "db_Query db q args w = (qr, w') \<Longrightarrow> committed w' = committed w"
    "fs_Glob fs p w = (g, w') \<Longrightarrow> committed w' = committed w"
    "fs_ReadFile fs p w = (c, w') \<Longrightarrow> committed w' = committed w"
    "committed (fs_Print fs t w) = committed w"
  using assms unfolding migration_db_def migration_reads_def by (metis snd_conv)+

lemma ensure_keeps:
  assumes "migration_db db fs committed pending dir files"
  shows "ensureMigrationsTable db w = (r, w') \<Longrightarrow> committed w' = committed w"
  using reads_keep(1) [OF assms] by (auto simp: ensureMigrationsTable_def split: prod.splits option.splits)

lemma gm_true_Nil: "\<not> gm_true [] n"
  by (simp add: gm_true_def gm_simps)

lemma applied_names:
  assumes "migration_db db fs committed pending dir files" and "getAppliedMigrations db w = (r, w')"
  shows "committed w' = committed w" "r = Inr applied \<Longrightarrow> gm_true applied n \<longleftrightarrow> n \<in> set (committed w)"
proof -
  obtain qr w1 where q: "db_Query db applied_sql [] w = (qr, w1)" by (metis surj_pair)
  then have "w' = w1" using assms(2)
    by (auto simp: getAppliedMigrations_def query_list_def split: sum.splits prod.splits option.splits)
  then show "committed w' = committed w" using reads_keep(2) [OF assms(1) q] by simp
  have "rerr = None \<Longrightarrow> qr = Inr (rows, rerr) \<Longrightarrow> rows = map (\<lambda>n. [SqlText n]) (committed w)" for rows rerr
    using assms(1) q unfolding migration_db_def migration_reads_def by blast
  then show "r = Inr applied \<Longrightarrow> gm_true applied n \<longleftrightarrow> n \<in> set (committed w)"
    using assms(2) q
    by (auto simp: getAppliedMigrations_def query_list_def scan_names gm_true_puts gm_true_Nil
        split: sum.splits prod.splits option.splits)
qed

lemma migrate_loop_rows:
  assumes "migration_db db fs committed pending dir files"
    and "\<And>n. gm_true applied n \<longleftrightarrow> n \<in> set recorded"
  shows "migrate_loop db fs applied fls w = (r, w') \<Longrightarrow>
    \<exists>k. k \<le> length (filter (\<lambda>n. n \<notin> set recorded) (map filepath_Base fls)) \<and>
      committed w' = committed w @ take k (filter (\<lambda>n. n \<notin> set recorded) (map filepath_Base fls)) \<and>
      (r = None \<longrightarrow> k = length (filter (\<lambda>n. n \<notin> set recorded) (map filepath_Base fls)))"
proof (induction fls arbitrary: w)
  case (Cons f fls)
  show ?case
  proof (cases "filepath_Base f \<in> set recorded")
    case True
    with Cons show ?thesis by (simp add: assms(2) Let_def)
  next
    case False
    obtain c w1 where read: "fs_ReadFile fs f w = (c, w1)" by (metis surj_pair)
    note same = reads_keep(4) [OF assms(1) read]
    show ?thesis
    proof (cases c)
      case (Inl err)
      with Cons.prems False same read show ?thesis by (auto simp: assms(2) Let_def intro: exI [of _ 0])
    next
      case (Inr content)
      obtain r1 w2 where scr: "run_script db content record_migration_sql (filepath_Base f)
          (''begin tx for '' @ filepath_Base f) (''execute migration '' @ filepath_Base f)
          (''record migration '' @ filepath_Base f) (''commit migration '' @ filepath_Base f) w1 = (r1, w2)"
        by (metis surj_pair)
      note rec = record_script [OF assms(1) scr]
      show ?thesis
      proof (cases r1)
        case None
        let ?w3 = "fs_Print fs (''applied migration: '' @ filepath_Base f @ [CHR 0x0A]) w2"
        have "migrate_loop db fs applied fls ?w3 = (r, w')"
          using Cons.prems False read Inr scr None by (simp add: assms(2) Let_def)
        from Cons.IH [OF this] obtain k where k: "k \<le> length (filter (\<lambda>n. n \<notin> set recorded) (map filepath_Base fls))"
            "committed w' = committed ?w3 @ take k (filter (\<lambda>n. n \<notin> set recorded) (map filepath_Base fls))"
            "r = None \<longrightarrow> k = length (filter (\<lambda>n. n \<notin> set recorded) (map filepath_Base fls))" by blast
        moreover have "committed ?w3 = committed w @ [filepath_Base f]"
          using reads_keep(5) [OF assms(1)] rec None same by simp
        ultimately show ?thesis using False by (intro exI [of _ "Suc k"]) simp
      next
        case (Some err)
        with Cons.prems False read Inr scr rec same show ?thesis
          by (auto simp: assms(2) Let_def intro: exI [of _ 0])
      qed
    qed
  qed
qed simp

lemma Migrate_rows:
  assumes "migration_db db fs committed pending dir files" and "Migrate db fs dir w = (r, w')"
  shows "\<exists>k. k \<le> length (outstanding (committed w) files) \<and>
    committed w' = committed w @ take k (outstanding (committed w) files) \<and>
    (r = None \<longrightarrow> k = length (outstanding (committed w) files))"
proof -
  obtain r1 w1 where e: "ensureMigrationsTable db w = (r1, w1)" by (metis surj_pair)
  obtain r2 w2 where a: "getAppliedMigrations db w1 = (r2, w2)" by (metis surj_pair)
  obtain r3 w3 where g: "fs_Glob fs (filepath_Join dir ''*.up.sql'') w2 = (r3, w3)" by (metis surj_pair)
  have c1: "committed w1 = committed w" by (rule ensure_keeps [OF assms(1) e])
  have c2: "committed w2 = committed w1" by (rule applied_names(1) [OF assms(1) a])
  have c3: "committed w3 = committed w2" by (rule reads_keep(3) [OF assms(1) g])
  show ?thesis
  proof (cases "r1 = None \<and> (\<exists>applied found. r2 = Inr applied \<and> r3 = Inr found)")
    case True
    then obtain applied found where ok: "r1 = None" "r2 = Inr applied" "r3 = Inr found" by blast
    have "found = files"
      using assms(1) g ok unfolding migration_db_def migration_reads_def by blast
    then have "migrate_loop db fs applied (sort_strings files) w3 = (r, w')"
      using assms(2) e a g ok by (simp add: Migrate_def)
    from migrate_loop_rows [OF assms(1) applied_names(2) [OF assms(1) a ok(2)] this]
    show ?thesis using c1 c2 c3 by (simp add: outstanding_def)
  next
    case False
    then have "r \<noteq> None \<and> committed w' = committed w"
      using assms(2) e a g c1 c2 c3 by (auto simp: Migrate_def split: option.splits sum.splits)
    then show ?thesis by (intro exI [of _ 0]) auto
  qed
qed

lemma MigrateDown_rows:
  assumes "migration_db db fs committed pending dir files" and "distinct (committed w)"
    and "MigrateDown db fs dir w = (r, w')"
  shows "committed w' = (if r = None then butlast (committed w) else committed w)"
proof -
  obtain r1 w1 where e: "ensureMigrationsTable db w = (r1, w1)" by (metis surj_pair)
  obtain q w2 where q: "db_Query db last_migration_sql [] w1 = (q, w2)" by (metis surj_pair)
  have c1: "committed w1 = committed w" by (rule ensure_keeps [OF assms(1) e])
  have c2: "committed w2 = committed w1" by (rule reads_keep(2) [OF assms(1) q])
  note print = reads_keep(5) [OF assms(1)]
  have rows: "q = Inr (rows, rerr) \<Longrightarrow> rows = (if committed w = [] then [] else [[SqlText (last (committed w))]])"
      and noq: "q = Inl err \<Longrightarrow> \<not> errors_Is err ErrNoRows" for rows rerr err
    using assms(1) q c1 unfolding migration_db_def migration_reads_def by metis+
  show ?thesis
  proof (cases "r1 = None \<and> committed w \<noteq> [] \<and> (\<exists>x. q = Inr x)")
    case True
    then obtain rerr where ok: "r1 = None" "committed w \<noteq> []" "q = Inr ([[SqlText (last (committed w))]], rerr)"
      using rows by (metis surj_pair)
    let ?n = "last (committed w)"
    let ?down = "strings_Replace1 ?n ''.up.sql'' ''.down.sql''"
    obtain c w3 where read: "fs_ReadFile fs (filepath_Join dir ?down) w2 = (c, w3)" by (metis surj_pair)
    note c3 = reads_keep(4) [OF assms(1) read]
    have split: "committed w = butlast (committed w) @ [?n]" using ok(2) by simp
    then have "?n \<notin> set (butlast (committed w))" using assms(2) by (metis distinct_append disjoint_insert(1) list.simps(15))
    then have filt: "filter (\<lambda>m. m \<noteq> ?n) (committed w) = butlast (committed w)"
      by (subst split) (auto simp: filter_id_conv)
    have start: "MigrateDown db fs dir w = (case c of Inl err \<Rightarrow> (Some (fail_with (''read down migration '' @ ?down) err), w3)
        | Inr content \<Rightarrow> (case run_script db content remove_migration_sql ?n ''begin tx''
            (''execute down migration '' @ ?down) (''remove migration record '' @ ?n) ''commit down migration'' w3 of
          (Some err, w4) \<Rightarrow> (Some err, w4)
        | (None, w4) \<Rightarrow> (None, fs_Print fs (''reversed migration: '' @ ?n @ [CHR 0x0A]) w4)))"
      using e q ok read by (simp add: MigrateDown_def query_row_def scan_one_def scan_string_def Let_def)
    show ?thesis
    proof (cases c)
      case (Inr content)
      obtain r4 w4 where scr: "run_script db content remove_migration_sql ?n ''begin tx''
            (''execute down migration '' @ ?down) (''remove migration record '' @ ?n) ''commit down migration'' w3 = (r4, w4)"
        by (metis surj_pair)
      from start assms(3) Inr scr remove_script [OF assms(1) scr] c1 c2 c3 filt print show ?thesis
        by (auto split: option.splits)
    qed (use start assms(3) c1 c2 c3 in auto)
  next
    case False
    then show ?thesis
      using assms(3) e q c1 c2 rows noq print
      by (auto simp: MigrateDown_def query_row_def split: option.splits sum.splits if_splits)
  qed
qed

section \<open>Properties\<close>



text \<open>
  After a migration that returned without an error there is nothing left to do: another run,
  successful or not, changes nothing.
\<close>

theorem migrate_idempotent:
  assumes "migration_db db fs committed pending dir files"
    and "Migrate db fs dir w = (None, w')" and "Migrate db fs dir w' = (r, w'')"
  shows "committed w'' = committed w'"
proof -
  have "committed w' = committed w @ outstanding (committed w) files"
    using Migrate_rows [OF assms(1,2)] by auto
  then have "outstanding (committed w') files = []"
    by (auto simp: outstanding_def filter_empty_conv)
  with Migrate_rows [OF assms(1,3)] show ?thesis by auto
qed

theorem migrate_idempotent_witness:
  "fst (snd (Migrate demo_migrations_db (demo_files [''m/001_a.up.sql'']) ''m''
     (snd (Migrate demo_migrations_db (demo_files [''m/001_a.up.sql'']) ''m'' ([], [])))))
   = fst (snd (Migrate demo_migrations_db (demo_files [''m/001_a.up.sql'']) ''m'' ([], [])))"
proof -
  let ?fs = "demo_files [''m/001_a.up.sql'']"
  obtain r1 w1 where m1: "Migrate demo_migrations_db ?fs ''m'' ([], []) = (r1, w1)" by (metis surj_pair)
  obtain r2 w2 where m2: "Migrate demo_migrations_db ?fs ''m'' w1 = (r2, w2)" by (metis surj_pair)
  have "r1 = None" using demo_Migrate_None m1 by (metis fst_conv)
  with m1 m2 show ?thesis using migrate_idempotent [OF demo_migrations_laws _ m2, of "([], [])"] by simp
qed

text \<open>
  \<open>MigrateDown\<close> takes back the migration that was recorded last and no other; with an error,
  or with nothing recorded, it changes nothing.
\<close>

theorem migrate_down_reverses_last:
  assumes "migration_db db fs committed pending dir files" and "distinct (committed w)"
    and "MigrateDown db fs dir w = (r, w')"
  shows "committed w' = (if r = None then butlast (committed w) else committed w)"
  by (rule MigrateDown_rows [OF assms])

theorem migrate_down_reverses_last_witness:
  "fst (snd (MigrateDown demo_migrations_db (demo_files []) ''m'' ([''001_a.up.sql'', ''002_b.up.sql''], [])))
     = [''001_a.up.sql'']"
proof -
  let ?w = "([''001_a.up.sql'', ''002_b.up.sql''], [])"
  obtain r w' where m: "MigrateDown demo_migrations_db (demo_files []) ''m'' ?w = (r, w')" by (metis surj_pair)
  have "applied_sql \<noteq> last_migration_sql" by (simp add: applied_sql_def last_migration_sql_def)
  then have "r = None" using m
    by (auto simp: MigrateDown_def ensureMigrationsTable_def query_row_def run_script_def demo_migrations_db_def
        demo_files_def scan_one_def scan_string_def Let_def)
  then show ?thesis using migrate_down_reverses_last [OF demo_migrations_laws _ m] m by simp
qed

end
