(* ===== verification/Go_Duration.thy ===== *)
theory Go_Duration
  imports Float64 Go_Strings
begin

text \<open>
  Go's \<open>time.ParseDuration\<close>: a sign and one or more numbers with a unit, summed in unsigned
  64-bit arithmetic, fractions in floating point. \<open>None\<close> is any of its errors. Every result
  is a 64-bit duration, and a whole number of a unit is read exactly.
\<close>

fun leadingInt :: "int \<Rightarrow> string \<Rightarrow> (int \<times> string) option" where
  "leadingInt x [] = Some (x, [])"
| "leadingInt x (c # s) =
     (if \<not> is_digit c then Some (x, c # s)
      else if 2 ^ 63 div 10 < x then None
      else
        let y = x * 10 + digit_val c
        in if 2 ^ 63 < y then None else leadingInt y s)"

fun leadingFraction :: "int \<Rightarrow> float64 \<Rightarrow> bool \<Rightarrow> string \<Rightarrow> int \<times> float64 \<times> string" where
  "leadingFraction x scale overflow [] = (x, scale, [])"
| "leadingFraction x scale overflow (c # s) =
     (if \<not> is_digit c then (x, scale, c # s)
      else if overflow then leadingFraction x scale overflow s
      else if (2 ^ 63 - 1) div 10 < x then leadingFraction x scale True s
      else
        let y = x * 10 + digit_val c
        in if 2 ^ 63 < y then leadingFraction x scale True s
           else leadingFraction y (f_mul scale (Fin 10)) overflow s)"

definition duration_unit :: "string \<Rightarrow> int option" where
  "duration_unit u =
     map_of [(''ns'', 1), (''us'', 1000), ([CHR 0xC2, CHR 0xB5, CHR ''s''], 1000),
             ([CHR 0xCE, CHR 0xBC, CHR ''s''], 1000), (''ms'', millisecond), (''s'', second),
             (''m'', minute), (''h'', 60 * minute)] u"

definition unit_char :: "char \<Rightarrow> bool" where
  "unit_char c \<longleftrightarrow> c \<noteq> CHR ''.'' \<and> \<not> is_digit c"

text \<open>The optional fraction after the whole number: its digits, their scale and the rest.\<close>

definition duration_fraction :: "string \<Rightarrow> int \<times> float64 \<times> bool \<times> string" where
  "duration_fraction s =
     (if s \<noteq> [] \<and> hd s = CHR ''.'' then
        (case leadingFraction 0 (Fin 1) False (tl s) of
           (f, scale, r) \<Rightarrow> (f, scale, length (tl s) \<noteq> length r, r))
      else (0, Fin 1, False, s))"

text \<open>One number with its unit: its value and the rest of the text.\<close>

definition duration_segment :: "string \<Rightarrow> (int \<times> string) option" where
  "duration_segment s =
     (if \<not> (hd s = CHR ''.'' \<or> is_digit (hd s)) then None
      else
        (case leadingInt 0 s of
           None \<Rightarrow> None
         | Some (v, s1) \<Rightarrow>
             (let pre = (length s \<noteq> length s1)
              in case duration_fraction s1 of
                   (f, scale, post, s2) \<Rightarrow>
                     if \<not> pre \<and> \<not> post then None
                     else
                       let u = takeWhile unit_char s2; s3 = dropWhile unit_char s2
                       in if u = [] then None
                          else
                            (case duration_unit u of
                               None \<Rightarrow> None
                             | Some unit \<Rightarrow>
                                 if 2 ^ 63 div unit < v then None
                                 else if 0 < f then
                                   let v1 = (v * unit + int64_of (f_mul (f_of_int f) (f_div (f_of_int unit) scale)))
                                              mod 2 ^ 64
                                   in if 2 ^ 63 < v1 then None else Some (v1, s3)
                                 else Some (v * unit, s3)))))"

lemma leadingInt_rest: "leadingInt x s = Some (v, r) \<Longrightarrow> length r \<le> length s"
  by (induction x s rule: leadingInt.induct) (auto simp: Let_def split: if_splits)

lemma leadingFraction_rest: "leadingFraction x sc ov s = (f, sc', r) \<Longrightarrow> length r \<le> length s"
  by (induction x sc ov s rule: leadingFraction.induct) (auto simp: Let_def split: if_splits)

lemma duration_segment_shorter:
  assumes "duration_segment s = Some (v, r)"
  shows "length r < length s"
proof -
  from assms obtain v0 s1 f sc post s2 where l: "leadingInt 0 s = Some (v0, s1)"
      and fr: "duration_fraction s1 = (f, sc, post, s2)" and u: "takeWhile unit_char s2 \<noteq> []"
      and r: "r = dropWhile unit_char s2"
    by (auto simp: duration_segment_def Let_def split: if_splits option.splits prod.splits)
  have "length s2 \<le> length s1"
    using fr leadingFraction_rest by (fastforce simp: duration_fraction_def split: if_splits prod.splits)
  moreover have "length r < length s2"
  proof -
    have "length (takeWhile unit_char s2 @ dropWhile unit_char s2) = length s2" by (simp only: takeWhile_dropWhile_id)
    then show ?thesis using u r by (cases "takeWhile unit_char s2") simp_all
  qed
  ultimately show ?thesis using leadingInt_rest [OF l] by simp
qed

function duration_loop :: "int \<Rightarrow> string \<Rightarrow> int option" where
  "duration_loop d s =
     (if s = [] then Some d
      else
        (case duration_segment s of
           None \<Rightarrow> None
         | Some (v, r) \<Rightarrow>
             (let d1 = (d + v) mod 2 ^ 64
              in if 2 ^ 63 < d1 then None else duration_loop d1 r)))"
  by pat_completeness auto
termination by (relation "measure (\<lambda>(d, s). length s)") (auto dest: duration_segment_shorter)

declare duration_loop.simps [simp del]

definition ParseDuration :: "string \<Rightarrow> duration option" where
  "ParseDuration s0 =
     (let neg = (take 1 s0 = ''-'');
          s = (if take 1 s0 = ''-'' \<or> take 1 s0 = ''+'' then drop 1 s0 else s0)
      in if s = ''0'' then Some 0
         else if s = '''' then None
         else
           (case duration_loop 0 s of
              None \<Rightarrow> None
            | Some d \<Rightarrow>
                if neg then Some (- d)
                else if 2 ^ 63 - 1 < d then None
                else Some d))"

section \<open>Lemmas\<close>

lemma duration_loop_range: "duration_loop d s = Some e \<Longrightarrow> 0 \<le> d \<Longrightarrow> d \<le> 2 ^ 63 \<Longrightarrow> 0 \<le> e \<and> e \<le> 2 ^ 63"
proof (induction d s rule: duration_loop.induct)
  case (1 d s)
  show ?case
  proof (cases "s = []")
    case True
    with "1.prems" show ?thesis by (simp add: duration_loop.simps)
  next
    case False
    then obtain v r where seg: "duration_segment s = Some (v, r)" "(d + v) mod 2 ^ 64 \<le> 2 ^ 63"
        "duration_loop ((d + v) mod 2 ^ 64) r = Some e"
      using "1.prems"(1) by (subst (asm) duration_loop.simps) (auto simp: Let_def split: option.splits if_splits)
    show ?thesis by (rule "1.IH" [OF False seg(1) refl refl]) (use seg in auto)
  qed
qed

lemma ParseDuration_int64:
  assumes "ParseDuration s = Some d"
  shows "is_int64 d"
proof -
  consider "d = 0" | t e where "duration_loop 0 t = Some e" "d = - e \<or> d = e \<and> e \<le> 2 ^ 63 - 1"
    using assms by (auto simp: ParseDuration_def Let_def split: if_splits option.splits)
  then show ?thesis
  proof cases
    case 2
    then show ?thesis using duration_loop_range [OF 2(1)] by (auto simp: is_int64_def)
  qed (simp add: is_int64_def)
qed

lemma digits_value_ge: "digits_value x ds = Some v \<Longrightarrow> 0 \<le> x \<Longrightarrow> x \<le> v"
proof (induction ds arbitrary: x)
  case (Cons c ds)
  then have "10 * x + digit_val c \<le> v"
    by (auto simp: digit_val_def is_digit_def split: if_splits)
  moreover have "0 \<le> digit_val c" using Cons.prems(1) by (simp add: digit_val_def is_digit_def split: if_splits)
  ultimately show ?case using Cons.prems(2) by simp
qed simp

lemma leadingInt_digits:
  assumes "digits_value x ds = Some v" and "0 \<le> x" and "v \<le> 2 ^ 63" and "r = [] \<or> \<not> is_digit (hd r)"
  shows "leadingInt x (ds @ r) = Some (v, r)"
  using assms(1,2)
proof (induction ds arbitrary: x)
  case Nil
  then show ?case using assms(4) by (cases r) simp_all
next
  case (Cons c ds)
  let ?y = "10 * x + digit_val c"
  have c: "is_digit c" and rest: "digits_value ?y ds = Some v"
    using Cons.prems(1) by (simp_all split: if_splits)
  have "0 \<le> digit_val c" using c by (simp add: digit_val_def is_digit_def)
  then have y: "0 \<le> ?y" "?y \<le> v" "10 * x \<le> v" using Cons.prems(2) digits_value_ge [OF rest] by simp_all
  then have "x \<le> 2 ^ 63 div 10" using assms(3) by simp
  then show ?case using c y assms(3) Cons.IH [OF rest y(1)] by (simp add: Let_def mult.commute)
qed

lemma duration_unit_text:
  assumes "duration_unit u = Some unit"
  shows "list_all unit_char u" "u \<noteq> []" "0 < unit"
  using assms
  by (auto simp: duration_unit_def unit_char_def is_digit_def time_defs split: if_splits)

section \<open>Properties\<close>

text \<open>
  Whatever the text, a parsed duration fits 64 bits, so that no setting can overflow; and a
  whole number of a unit is read as exactly that many nanoseconds whenever they fit.
\<close>

theorem parse_duration_exact:
  "(\<forall>s d. ParseDuration s = Some d \<longrightarrow> is_int64 d) \<and>
   (\<forall>n u unit. duration_unit u = Some unit \<longrightarrow> int n * unit < 2 ^ 63 \<longrightarrow>
      ParseDuration (dec_digits n @ u) = Some (int n * unit))"
proof (intro conjI allI impI)
  fix s d assume "ParseDuration s = Some d"
  then show "is_int64 d" by (rule ParseDuration_int64)
next
  fix n u unit
  assume u: "duration_unit u = Some unit" and le: "int n * unit < 2 ^ 63"
  note ut = duration_unit_text [OF u]
  let ?s = "dec_digits n @ u"
  have "int n * 1 \<le> int n * unit" using ut(3) by (intro mult_left_mono) auto
  then have n: "int n \<le> 2 ^ 63" using le by simp
  have div: "int n \<le> 2 ^ 63 div unit"
    using le ut(3) by (metis less_imp_le nonzero_mult_div_cancel_right order_less_irrefl zdiv_mono1)
  have unit_hd: "u = [] \<or> \<not> is_digit (hd u)" "hd u \<noteq> CHR ''.''" using ut(1,2) by (cases u; simp add: unit_char_def)+
  have digit: "is_digit (hd ?s)" using dec_digits_not_Nil [of n] dec_digits_are_digits [of n]
    by (cases "dec_digits n") (auto simp: list_all_iff)
  have whole: "leadingInt 0 ?s = Some (int n, u)"
    by (rule leadingInt_digits [OF digits_value_dec_digits]) (use n unit_hd in auto)
  have tw: "takeWhile unit_char u = u" "dropWhile unit_char u = []" using ut(1) by (simp_all add: list_all_iff)
  have seg: "duration_segment ?s = Some (int n * unit, [])"
    using digit whole unit_hd ut(2) u div dec_digits_not_Nil [of n]
    by (simp add: duration_segment_def duration_fraction_def Let_def tw del: takeWhile_eq_all_conv dropWhile_eq_Nil_conv)
  have "int n * unit mod 2 ^ 64 = int n * unit" using le ut(3) by (intro mod_pos_pos_trivial) auto
  then have loop: "duration_loop 0 ?s = Some (int n * unit)"
    using seg ut(2) le by (subst duration_loop.simps) (simp add: duration_loop.simps Let_def)
  have "take 1 ?s \<noteq> ''-''" "take 1 ?s \<noteq> ''+''" "?s \<noteq> ''0''" "?s \<noteq> ''''"
    using digit ut(2) dec_digits_not_Nil [of n]
    by (cases "dec_digits n"; auto simp: is_digit_def append_eq_Cons_conv)+
  then show "ParseDuration ?s = Some (int n * unit)"
    using loop le by (simp add: ParseDuration_def Let_def)
qed

theorem parse_duration_exact_witness:
  "ParseDuration (dec_digits 30 @ ''s'') = Some 30000000000 \<and> is_int64 30000000000"
proof -
  have "ParseDuration (dec_digits 30 @ ''s'') = Some 30000000000"
    using parse_duration_exact [THEN conjunct2, rule_format, of "''s''" second 30]
    by (simp add: duration_unit_def second_def)
  then show ?thesis using parse_duration_exact [THEN conjunct1] by blast
qed

end
