(* ===== verification/Config.thy ===== *)
theory Config
  imports Go_Duration
begin

text \<open>
  \<open>internal/config/config.go\<close>: the configuration from environment variables. The
  environment is a function from names to values, the empty string for a variable that is not
  set, as \<open>os.Getenv\<close> reads it. The errors of \<open>validate\<close> are the constructors of
  \<open>config_error\<close>, with the value their message shows.
\<close>

record Config =
  cfg_AppEnv :: string
  cfg_ServiceName :: string
  cfg_HTTPPort :: int
  cfg_LogLevel :: string
  cfg_PostgresDSN :: string
  cfg_RedisAddress :: string
  cfg_RedisPassword :: string
  cfg_RedisDB :: int
  cfg_IngestionInterval :: duration
  cfg_ProviderBaseURL :: string
  cfg_ProviderTimeout :: duration
  cfg_ProviderPrimary :: string
  cfg_ProviderFallback :: "string list"
  cfg_ProviderDisabled :: "string list"
  cfg_CoinCapBaseURL :: string
  cfg_CircuitBreakerFailureThreshold :: int
  cfg_CircuitBreakerOpenDuration :: duration
  cfg_CircuitBreakerSuccessThreshold :: int
  cfg_RetryMaxAttempts :: int
  cfg_RetryBaseDelay :: duration
  cfg_RetryMaxDelay :: duration
  cfg_FreshnessThreshold :: duration
  cfg_StaleThreshold :: duration
  cfg_AuthEnabled :: bool
  cfg_AuthAPIKeys :: "string list"
  cfg_AuthJWTSecret :: string
  cfg_AuthJWTIssuer :: string

datatype config_error =
    PostgresDSNRequired
  | HTTPPortRange int
  | IngestionIntervalTooShort duration
  | ProviderTimeoutTooShort duration
  | RedisAddressRequired

type_synonym environment = "string \<Rightarrow> string"

definition getEnv :: "environment \<Rightarrow> string \<Rightarrow> string \<Rightarrow> string" where
  "getEnv env key fallback = (let v = env key in if v \<noteq> '''' then v else fallback)"

definition getEnvInt :: "environment \<Rightarrow> string \<Rightarrow> int \<Rightarrow> int" where
  "getEnvInt env key fallback =
     (let v = env key
      in if v \<noteq> '''' then (case strconv_Atoi v of Some i \<Rightarrow> i | None \<Rightarrow> fallback) else fallback)"

definition getEnvDuration :: "environment \<Rightarrow> string \<Rightarrow> duration \<Rightarrow> duration" where
  "getEnvDuration env key fallback =
     (let v = env key
      in if v \<noteq> '''' then (case ParseDuration v of Some d \<Rightarrow> d | None \<Rightarrow> fallback) else fallback)"

fun list_items :: "string list \<Rightarrow> string list" where
  "list_items [] = []"
| "list_items (p # ps) =
     (let p1 = strings_TrimSpace p in if p1 \<noteq> '''' then p1 # list_items ps else list_items ps)"

definition getEnvList :: "environment \<Rightarrow> string \<Rightarrow> string list \<Rightarrow> string list" where
  "getEnvList env key fallback =
     (let v = env key
      in if v = '''' then fallback
         else
           let result = list_items (strings_Split (CHR '','') v)
           in if length result = 0 then fallback else result)"

definition Config_validate :: "Config \<Rightarrow> config_error option" where
  "Config_validate c =
     (if cfg_PostgresDSN c = '''' then Some PostgresDSNRequired
      else if cfg_HTTPPort c < 1 \<or> 65535 < cfg_HTTPPort c then Some (HTTPPortRange (cfg_HTTPPort c))
      else if cfg_IngestionInterval c < 5 * second then Some (IngestionIntervalTooShort (cfg_IngestionInterval c))
      else if cfg_ProviderTimeout c < 1 * second then Some (ProviderTimeoutTooShort (cfg_ProviderTimeout c))
      else if cfg_RedisAddress c = '''' then Some RedisAddressRequired
      else None)"

definition config_of :: "environment \<Rightarrow> Config" where
  "config_of env =
     \<lparr>cfg_AppEnv = getEnv env ''APP_ENV'' ''development'',
      cfg_ServiceName = getEnv env ''SERVICE_NAME'' ''market-api'',
      cfg_HTTPPort = getEnvInt env ''HTTP_PORT'' 8080,
      cfg_LogLevel = getEnv env ''LOG_LEVEL'' ''info'',
      cfg_PostgresDSN = getEnv env ''POSTGRES_DSN'' '''',
      cfg_RedisAddress = getEnv env ''REDIS_ADDRESS'' ''localhost:6379'',
      cfg_RedisPassword = getEnv env ''REDIS_PASSWORD'' '''',
      cfg_RedisDB = getEnvInt env ''REDIS_DB'' 0,
      cfg_IngestionInterval = getEnvDuration env ''INGESTION_INTERVAL'' (60 * second),
      cfg_ProviderBaseURL = getEnv env ''PROVIDER_BASE_URL'' ''https://api.coingecko.com/api/v3'',
      cfg_ProviderTimeout = getEnvDuration env ''PROVIDER_TIMEOUT'' (10 * second),
      cfg_ProviderPrimary = getEnv env ''PROVIDER_PRIMARY'' ''coingecko'',
      cfg_ProviderFallback = getEnvList env ''PROVIDER_FALLBACK'' [''coincap''],
      cfg_ProviderDisabled = getEnvList env ''PROVIDER_DISABLED'' [],
      cfg_CoinCapBaseURL = getEnv env ''COINCAP_BASE_URL'' ''https://api.coincap.io'',
      cfg_CircuitBreakerFailureThreshold = getEnvInt env ''CB_FAILURE_THRESHOLD'' 5,
      cfg_CircuitBreakerOpenDuration = getEnvDuration env ''CB_OPEN_DURATION'' (30 * second),
      cfg_CircuitBreakerSuccessThreshold = getEnvInt env ''CB_SUCCESS_THRESHOLD'' 2,
      cfg_RetryMaxAttempts = getEnvInt env ''RETRY_MAX_ATTEMPTS'' 3,
      cfg_RetryBaseDelay = getEnvDuration env ''RETRY_BASE_DELAY'' (500 * millisecond),
      cfg_RetryMaxDelay = getEnvDuration env ''RETRY_MAX_DELAY'' (10 * second),
      cfg_FreshnessThreshold = getEnvDuration env ''FRESHNESS_THRESHOLD'' (120 * second),
      cfg_StaleThreshold = getEnvDuration env ''STALE_THRESHOLD'' (300 * second),
      cfg_AuthEnabled = (getEnv env ''AUTH_ENABLED'' ''false'' = ''true''),
      cfg_AuthAPIKeys = getEnvList env ''AUTH_API_KEYS'' [],
      cfg_AuthJWTSecret = getEnv env ''AUTH_JWT_SECRET'' '''',
      cfg_AuthJWTIssuer = getEnv env ''AUTH_JWT_ISSUER'' ''cryptomarket''\<rparr>"

definition Load :: "environment \<Rightarrow> config_error + Config" where
  "Load env =
     (let cfg = config_of env
      in case Config_validate cfg of Some err \<Rightarrow> Inl err | None \<Rightarrow> Inr cfg)"

section \<open>Specification\<close>

text \<open>What the services rely on.\<close>

definition usable :: "Config \<Rightarrow> bool" where
  "usable c \<longleftrightarrow>
     cfg_PostgresDSN c \<noteq> '''' \<and> cfg_RedisAddress c \<noteq> '''' \<and> cfg_ProviderPrimary c \<noteq> '''' \<and>
     1 \<le> cfg_HTTPPort c \<and> cfg_HTTPPort c \<le> 65535 \<and>
     5 * second \<le> cfg_IngestionInterval c \<and> second \<le> cfg_ProviderTimeout c"

text \<open>Every number and duration is a 64-bit one.\<close>

definition well_typed :: "Config \<Rightarrow> bool" where
  "well_typed c \<longleftrightarrow>
     list_all is_int64
       [cfg_HTTPPort c, cfg_RedisDB c, cfg_IngestionInterval c, cfg_ProviderTimeout c,
        cfg_CircuitBreakerFailureThreshold c, cfg_CircuitBreakerOpenDuration c,
        cfg_CircuitBreakerSuccessThreshold c, cfg_RetryMaxAttempts c, cfg_RetryBaseDelay c,
        cfg_RetryMaxDelay c, cfg_FreshnessThreshold c, cfg_StaleThreshold c]"

definition int_keys :: "string list" where
  "int_keys =
     [''HTTP_PORT'', ''REDIS_DB'', ''CB_FAILURE_THRESHOLD'', ''CB_SUCCESS_THRESHOLD'', ''RETRY_MAX_ATTEMPTS'']"

definition duration_keys :: "string list" where
  "duration_keys =
     [''INGESTION_INTERVAL'', ''PROVIDER_TIMEOUT'', ''CB_OPEN_DURATION'', ''RETRY_BASE_DELAY'',
      ''RETRY_MAX_DELAY'', ''FRESHNESS_THRESHOLD'', ''STALE_THRESHOLD'']"

text \<open>An environment with one variable set.\<close>

definition only_dsn :: environment where
  "only_dsn = (\<lambda>_. '''')(''POSTGRES_DSN'' := ''postgres://localhost/db'')"

section \<open>Lemmas\<close>

lemma getEnvInt_int64: "is_int64 fallback \<Longrightarrow> is_int64 (getEnvInt env key fallback)"
  by (auto simp: getEnvInt_def Let_def dest: Atoi_int64 split: option.split)

lemma getEnvDuration_int64: "is_int64 fallback \<Longrightarrow> is_int64 (getEnvDuration env key fallback)"
  by (auto simp: getEnvDuration_def Let_def dest: ParseDuration_int64 split: option.split)

lemma getEnv_not_empty: "fallback \<noteq> '''' \<Longrightarrow> getEnv env key fallback \<noteq> ''''"
  by (simp add: getEnv_def Let_def)

lemma getEnv_other: "key \<noteq> k \<Longrightarrow> getEnv (env(k := v)) key fallback = getEnv env key fallback"
  by (simp add: getEnv_def)

lemma getEnvInt_other: "key \<noteq> k \<Longrightarrow> getEnvInt (env(k := v)) key fallback = getEnvInt env key fallback"
  by (simp add: getEnvInt_def)

lemma getEnvDuration_other:
  "key \<noteq> k \<Longrightarrow> getEnvDuration (env(k := v)) key fallback = getEnvDuration env key fallback"
  by (simp add: getEnvDuration_def)

lemma getEnvList_other: "key \<noteq> k \<Longrightarrow> getEnvList (env(k := v)) key fallback = getEnvList env key fallback"
  by (simp add: getEnvList_def)

lemma getEnv_default:
  "getEnvInt (env(k := '''')) k fallback = fallback"
  "strconv_Atoi v = None \<Longrightarrow> getEnvInt (env(k := v)) k fallback = fallback"
  "getEnvDuration (env(k := '''')) k d = d"
  "ParseDuration v = None \<Longrightarrow> getEnvDuration (env(k := v)) k d = d"
  by (simp_all add: getEnvInt_def getEnvDuration_def Let_def)

lemmas getEnv_simps = getEnv_other getEnvInt_other getEnvDuration_other getEnvList_other getEnv_default

lemma malformed_int:
  assumes "strconv_Atoi v = None" and "k \<in> set int_keys"
  shows "config_of (env(k := v)) = config_of (env(k := ''''))"
  using assms(2) unfolding int_keys_def list.set
  by (elim insertE emptyE) (simp_all add: config_of_def getEnv_simps assms(1) del: fun_upd_apply)

lemma malformed_duration:
  assumes "ParseDuration v = None" and "k \<in> set duration_keys"
  shows "config_of (env(k := v)) = config_of (env(k := ''''))"
  using assms(2) unfolding duration_keys_def list.set
  by (elim insertE emptyE) (simp_all add: config_of_def getEnv_simps assms(1) del: fun_upd_apply)

lemma list_items_spec: "list_items ps = filter (\<lambda>p. p \<noteq> '''') (map strings_TrimSpace ps)"
  by (induction ps) (simp_all add: Let_def)

lemma validate_usable: "Config_validate (config_of env) = None \<longleftrightarrow> usable (config_of env)"
  by (auto simp: Config_validate_def usable_def config_of_def getEnv_not_empty)

lemma config_well_typed: "well_typed (config_of env)"
  by (auto simp: well_typed_def config_of_def time_defs is_int64_def [symmetric]
      intro!: getEnvInt_int64 getEnvDuration_int64) (simp_all add: is_int64_def)

lemma Load_Inr: "Load env = Inr cfg \<longleftrightarrow> cfg = config_of env \<and> usable (config_of env)"
  using validate_usable [of env] by (auto simp: Load_def Let_def split: option.split)

lemma only_dsn_loads: "Load only_dsn = Inr (config_of only_dsn)"
  unfolding Load_Inr by (simp add: usable_def config_of_def only_dsn_def getEnv_def getEnvInt_def getEnvDuration_def second_def)

section \<open>Properties\<close>


text \<open>
  A number or duration that does not parse is not an error: the variable counts as not set,
  and the service starts with the default.
\<close>

theorem malformed_settings_ignored:
  assumes "k \<in> set int_keys \<and> strconv_Atoi v = None \<or> k \<in> set duration_keys \<and> ParseDuration v = None"
  shows "Load (env(k := v)) = Load (env(k := ''''))"
  using assms malformed_int malformed_duration by (auto simp: Load_def)

theorem malformed_settings_ignored_witness:
  "Load (only_dsn(''HTTP_PORT'' := ''80 80'')) = Load (only_dsn(''HTTP_PORT'' := ''''))"
  by (rule malformed_settings_ignored) (simp add: int_keys_def strconv_Atoi_def is_digit_def)

end
