(* ===== verification/Commands.thy ===== *)
theory Commands
  imports API_Handlers Migrations Config
begin

text \<open>
  What the commands under \<open>cmd\<close> make of the configuration: the provider chain and the
  orchestrator of the ingestor, the request handler of the API, the subcommands of the API
  binary, and the log level of \<open>internal/telemetry/logger.go\<close>. Opening connections, listening
  and signals are left out; a process that gives up has exit code 1.
\<close>

section \<open>Logger\<close>

datatype log_level = LevelDebug | LevelInfo | LevelWarn | LevelError

definition strings_ToLower :: "(string \<Rightarrow> string) \<Rightarrow> string \<Rightarrow> string" where
  "strings_ToLower unicode s = (if list_all is_ascii s then map char_lower s else unicode s)"

definition logger_level :: "(string \<Rightarrow> string) \<Rightarrow> string \<Rightarrow> log_level" where
  "logger_level unicode level =
     (let l = strings_ToLower unicode level
      in if l = ''debug'' then LevelDebug
         else if l = ''warn'' \<or> l = ''warning'' then LevelWarn
         else if l = ''error'' then LevelError
         else LevelInfo)"

section \<open>Ingestor\<close>

definition ingestor_registry :: "'w adapter_env \<Rightarrow> Config \<Rightarrow> 'w Registry" where
  "ingestor_registry env cfg =
     SetBaseURL ''coincap'' (cfg_CoinCapBaseURL cfg)
       (SetBaseURL ''coingecko'' (cfg_ProviderBaseURL cfg) (default_registry env))"

text \<open>The loop over the names: an unknown provider is skipped with a warning.\<close>

fun create_providers :: "'w Registry \<Rightarrow> Config \<Rightarrow> string list \<Rightarrow> 'w Provider list" where
  "create_providers registry cfg [] = []"
| "create_providers registry cfg (name # names) =
     (case Registry_Create name (cfg_ProviderBaseURL cfg) (cfg_ProviderTimeout cfg) registry of
        Inl err \<Rightarrow> create_providers registry cfg names
      | Inr p \<Rightarrow> p # create_providers registry cfg names)"

definition breaker_config :: "Config \<Rightarrow> CircuitBreakerConfig" where
  "breaker_config cfg =
     \<lparr>FailureThreshold = cfg_CircuitBreakerFailureThreshold cfg,
      OpenDuration = cfg_CircuitBreakerOpenDuration cfg,
      SuccessThreshold = cfg_CircuitBreakerSuccessThreshold cfg, cbc_Name = ''''\<rparr>"

definition retry_config :: "Config \<Rightarrow> RetryConfig" where
  "retry_config cfg =
     \<lparr>MaxAttempts = cfg_RetryMaxAttempts cfg, BaseDelay = cfg_RetryBaseDelay cfg,
      MaxDelay = cfg_RetryMaxDelay cfg, RetryableFunc = None\<rparr>"

text \<open>From the configuration to the orchestrator; \<open>None\<close> is the exit without providers.\<close>

definition ingestor_orchestrator :: "'w adapter_env \<Rightarrow> Config \<Rightarrow> 'w FallbackOrchestrator option" where
  "ingestor_orchestrator env cfg =
     (let providerNames = cfg_ProviderPrimary cfg # cfg_ProviderFallback cfg;
          providers = create_providers (ingestor_registry env cfg) cfg providerNames
      in if length providers = 0 then None
         else
           let selector = NewSelector providers (cfg_ProviderDisabled cfg);
               cbManager = NewManager (breaker_config cfg);
               rateTracker = NewRateLimitTracker
           in Some (NewFallbackOrchestrator selector cbManager rateTracker (retry_config cfg)))"

definition ingestor_setup ::
    "'w adapter_env \<Rightarrow> environment \<Rightarrow> (Config \<times> 'w Ingestor) option" where
  "ingestor_setup aenv env =
     (case Load env of
        Inl err \<Rightarrow> None
      | Inr cfg \<Rightarrow>
          (case ingestor_orchestrator aenv cfg of
             None \<Rightarrow> None
           | Some orchestrator \<Rightarrow> Some (cfg, NewIngestorWithFallback orchestrator)))"

section \<open>API\<close>

text \<open>The handler of the API server; no status reporter is set.\<close>

definition api_handler ::
    "'w api_app api_env \<Rightarrow> 'w sql_db \<Rightarrow> 'w redis_client \<Rightarrow> (string \<Rightarrow> string) \<Rightarrow> 'w api_app chi_router
       \<Rightarrow> Config \<Rightarrow> 'w api_app handler" where
  "api_handler aenv db redisClient unicode chi cfg =
     (let coinRepo = NewPostgresCoinRepository db;
          snapshotRepo = NewPostgresSnapshotRepository db;
          syncLogRepo = NewPostgresSyncLogRepository db;
          h = NewHandler (Some db) coinRepo snapshotRepo (Some syncLogRepo) (Some redisClient) unicode;
          authCfg = NewAuthConfig (cfg_AuthEnabled cfg) (cfg_AuthAPIKeys cfg) (cfg_AuthJWTSecret cfg)
                      (cfg_AuthJWTIssuer cfg)
      in NewRouter aenv h chi authCfg)"

text \<open>The subcommands: the exit code and the world; \<open>sql_Open\<close> fails without touching the world.\<close>

definition handleSubcommand ::
    "environment \<Rightarrow> (string \<Rightarrow> go_error + 'w sql_db) \<Rightarrow> 'w file_system \<Rightarrow> string \<Rightarrow> 'w \<Rightarrow> int \<times> 'w" where
  "handleSubcommand env sql_Open fs cmd w =
     (case Load env of
        Inl err \<Rightarrow> (1, w)
      | Inr cfg \<Rightarrow>
          (case sql_Open (cfg_PostgresDSN cfg) of
             Inl err \<Rightarrow> (1, w)
           | Inr db \<Rightarrow>
               if cmd = ''migrate'' then
                 (case Migrate db fs ''migrations'' w of
                    (Some err, w1) \<Rightarrow> (1, w1)
                  | (None, w1) \<Rightarrow> (0, fs_Print fs (''migrations complete'' @ [CHR 0x0A]) w1))
               else if cmd = ''migrate-down'' then
                 (case MigrateDown db fs ''migrations'' w of
                    (Some err, w1) \<Rightarrow> (1, w1)
                  | (None, w1) \<Rightarrow> (0, w1))
               else if cmd = ''seed'' then
                 (case Migrate db fs ''migrations'' w of
                    (Some err, w1) \<Rightarrow> (1, w1)
                  | (None, w1) \<Rightarrow> (0, fs_Print fs (''seed complete'' @ [CHR 0x0A]) w1))
               else (1, w)))"

section \<open>Lemmas\<close>

lemma create_providers_names:
  "map pv_Name (create_providers (ingestor_registry env cfg) cfg names) =
     filter (\<lambda>n. n = ''coingecko'' \<or> n = ''coincap'') names"
proof (induction names)
  case (Cons n ns)
  then show ?case
    by (auto simp: Registry_Create_def ingestor_registry_def SetBaseURL_def default_registry_def NewRegistry_def
        Register_def gm_simps coingecko_Provider_def coincap_Provider_def providerName_def coincapProviderName_def
        Let_def)
qed simp

lemma orchestrator_selector: "fo_selector (NewFallbackOrchestrator sel mgr t rc) = sel"
  by (simp add: NewFallbackOrchestrator_def Let_def split: sum.split)

lemma breaker_config_wf: "well_typed cfg \<Longrightarrow> cbc_wf (breaker_config cfg)"
  by (simp add: well_typed_def cbc_wf_def breaker_config_def)

section \<open>Properties\<close>

text \<open>
  Whatever the environment, an ingestor that starts has an orchestrator over exactly the known
  names among the primary and the fallback providers, in that order, and keeps the
  orchestrator's invariant through any sequence of fetches and status requests.
\<close>

theorem configured_ingestor:
  assumes "ingestor_setup aenv env = Some (cfg, ing)"
  shows "\<exists>fo. ing_source ing = Orchestrated fo \<and>
    map pv_Name (Selector_All (fo_selector fo)) =
      filter (\<lambda>n. n = ''coingecko'' \<or> n = ''coincap'') (cfg_ProviderPrimary cfg # cfg_ProviderFallback cfg) \<and>
    (\<forall>rt ops w. fo_inv (fst (fold (fo_step rt) ops (fo, w))))"
proof -
  let ?ps = "create_providers (ingestor_registry aenv cfg) cfg (cfg_ProviderPrimary cfg # cfg_ProviderFallback cfg)"
  let ?fo = "NewFallbackOrchestrator (NewSelector ?ps (cfg_ProviderDisabled cfg)) (NewManager (breaker_config cfg))
    NewRateLimitTracker (retry_config cfg)"
  have "Load env = Inr cfg" and ing: "ing = NewIngestorWithFallback ?fo"
    using assms by (auto simp: ingestor_setup_def ingestor_orchestrator_def Let_def
        split: sum.splits option.splits if_splits)
  then have "cbc_wf (breaker_config cfg)" by (simp add: Load_Inr breaker_config_wf config_well_typed)
  then have "fo_inv (fst (fold (fo_step rt) ops (?fo, w)))" for rt ops w
    using fom.reachable_inv [of "(?fo, w)" rt ops] by (auto simp: split_beta)
  then show ?thesis
    using create_providers_names [of aenv cfg "cfg_ProviderPrimary cfg # cfg_ProviderFallback cfg"]
    by (intro exI [of _ ?fo])
      (simp add: ing NewIngestorWithFallback_def orchestrator_selector Selector_All_def NewSelector_def)
qed

theorem configured_ingestor_witness:
  "\<exists>ing fo. ingestor_setup (demo_env (Inl Canceled)) only_dsn = Some (config_of only_dsn, ing) \<and>
     ing_source ing = Orchestrated fo \<and>
     map pv_Name (Selector_All (fo_selector fo)) = [''coingecko'', ''coincap'']"
proof -
  have names: "cfg_ProviderPrimary (config_of only_dsn) = ''coingecko''"
      "cfg_ProviderFallback (config_of only_dsn) = [''coincap'']"
    by (simp_all add: config_of_def only_dsn_def getEnv_def getEnvList_def)
  obtain ing where ing: "ingestor_setup (demo_env (Inl Canceled)) only_dsn = Some (config_of only_dsn, ing)"
    using create_providers_names [of "demo_env (Inl Canceled)" "config_of only_dsn" "[''coingecko'', ''coincap'']"]
    by (auto simp: ingestor_setup_def only_dsn_loads ingestor_orchestrator_def names Let_def)
  from configured_ingestor [OF this] show ?thesis using ing by (auto simp: names)
qed

text \<open>
  The subcommands of the API binary: after \<open>migrate\<close> and \<open>seed\<close> exit with 0 every
  outstanding migration is recorded, after \<open>migrate-down\<close> the last one is taken back, and any
  other word exits with 1 and changes nothing.
\<close>

theorem subcommand_effects:
  assumes "migration_db db fs committed pending ''migrations'' files" and "distinct (committed w)"
    and "Load env = Inr cfg" and "sql_Open (cfg_PostgresDSN cfg) = Inr db"
    and "handleSubcommand env sql_Open fs cmd w = (code, w')"
  shows "(code = 0 \<longrightarrow> committed w' = (if cmd = ''migrate-down'' then butlast (committed w)
             else committed w @ outstanding (committed w) files)) \<and>
    (cmd \<notin> {''migrate'', ''seed'', ''migrate-down''} \<longrightarrow> code = 1 \<and> w' = w)"
proof -
  have up: "Migrate db fs ''migrations'' w = (None, w1) \<Longrightarrow> committed w1 = committed w @ outstanding (committed w) files"
    for w1 using Migrate_rows [OF assms(1), of w None w1] by auto
  have down: "MigrateDown db fs ''migrations'' w = (None, w1) \<Longrightarrow> committed w1 = butlast (committed w)"
    for w1 using MigrateDown_rows [OF assms(1,2), of None w1] by simp
  show ?thesis
    using assms(3-5) reads_keep(5) [OF assms(1)] up down
    by (auto simp: handleSubcommand_def split: prod.splits option.splits if_splits)
qed

theorem subcommand_effects_witness:
  "fst (snd (handleSubcommand only_dsn (\<lambda>dsn. Inr demo_migrations_db) (demo_files [''migrations/001_a.up.sql''])
     ''migrate'' ([], []))) = [''001_a.up.sql'']"
proof -
  let ?fs = "demo_files [''migrations/001_a.up.sql'']"
  have out: "outstanding [] [''migrations/001_a.up.sql''] = [''001_a.up.sql'']" by code_simp
  obtain code w' where run: "handleSubcommand only_dsn (\<lambda>dsn. Inr demo_migrations_db) ?fs ''migrate'' ([], []) = (code, w')"
    by (metis surj_pair)
  moreover have "code = 0"
    using run demo_Migrate_None [of "[''migrations/001_a.up.sql'']" "''migrations''" "([], [])"]
    by (auto simp: handleSubcommand_def only_dsn_loads split: prod.splits option.splits)
  ultimately show ?thesis
    using subcommand_effects [OF demo_migrations_laws _ only_dsn_loads refl run] out by simp
qed

text \<open>
  Authentication fails closed: switched on with neither API keys nor a secret configured, it
  rejects every request outside the public paths.
\<close>

theorem auth_fails_closed:
  assumes "cfg_AuthEnabled cfg" and "cfg_AuthAPIKeys cfg = []" and "cfg_AuthJWTSecret cfg = ''''"
    and "rq_Path r \<notin> {''/health'', ''/ready'', ''/metrics''}"
  shows "\<exists>st1. Authenticate env (NewAuthConfig (cfg_AuthEnabled cfg) (cfg_AuthAPIKeys cfg) (cfg_AuthJWTSecret cfg)
        (cfg_AuthJWTIssuer cfg)) next r w st =
      (None, writeJSON 401 (ErrorResponse unauthorized_message) (Header_Set ''WWW-Authenticate'' challenge w), st1)"
proof -
  let ?auth = "NewAuthConfig (cfg_AuthEnabled cfg) (cfg_AuthAPIKeys cfg) (cfg_AuthJWTSecret cfg) (cfg_AuthJWTIssuer cfg)"
  have "\<not> authorized ?auth now r" for now
    using assms by (auto simp: authorized_def NewAuthConfig_def gm_true_def gm_get_def)
  then show ?thesis using Authenticate_gate [of st env ?auth "next" r w] by auto
qed

theorem auth_fails_closed_witness:
  "\<exists>st1. Authenticate demo_api_env (NewAuthConfig True [] '''' ''cryptomarket'') (\<lambda>r w st. (None, w, st))
      (get_request ''/coins'' []) new_writer (demo_api_state 0) =
    (None, writeJSON 401 (ErrorResponse unauthorized_message) (Header_Set ''WWW-Authenticate'' challenge new_writer), st1)"
  using auth_fails_closed [of "(config_of only_dsn)\<lparr>cfg_AuthEnabled := True\<rparr>" "get_request ''/coins'' []" demo_api_env
      "\<lambda>r w st. (None, w, st)" new_writer "demo_api_state 0"]
  by (simp add: config_of_def only_dsn_def getEnv_def getEnvList_def get_request_def)

end
