(* ===== verification/Subscriber.thy ===== *)
theory Subscriber
  imports Stream_Event
begin

text \<open>
  \<open>internal/subscriber/client.go\<close> and \<open>hub.go\<close>: the SSE clients with their bounded
  buffers, and the hub that broadcasts to them.

  \<^item> A buffered channel is the list of the events in it and its capacity. A send that would
    block for ever is \<open>None\<close>: the code refills a new channel while no one receives from it.
  \<^item> \<open>range\<close> over a map may visit it in any order: the order in which \<open>send\<close> refills
    the channel is the parameter \<open>order\<close>, which rearranges the entries of the map.
  \<^item> The hub holds pointers; a method called on a client changes the client the hub holds.
  \<^item> \<open>ServeSSE\<close> is a function of the choices its \<open>select\<close> makes, one per round.
\<close>

section \<open>Clients\<close>

record Client =
  cl_id :: string
  cl_events :: "PriceEvent list"
  cl_closed :: bool
  cl_latestPerSymbol :: "(string, PriceEvent) gomap"
  cl_bufferSize :: int

text \<open>\<open>make(chan T, n)\<close> panics for a negative \<open>n\<close>.\<close>

definition newClient :: "string \<Rightarrow> int \<Rightarrow> Client option" where
  "newClient i bufferSize =
     (if bufferSize < 0 then None
      else Some \<lparr>cl_id = i, cl_events = [], cl_closed = False, cl_latestPerSymbol = [],
                 cl_bufferSize = bufferSize\<rparr>)"

definition Client_ID :: "Client \<Rightarrow> string" where
  "Client_ID c = cl_id c"

definition drain_latest :: "PriceEvent list \<Rightarrow> (string, PriceEvent) gomap" where
  "drain_latest evs = fold (\<lambda>ev latest. gm_put (ev_Symbol ev) ev latest) evs []"

type_synonym map_order = "(string, PriceEvent) gomap \<Rightarrow> (string, PriceEvent) gomap"

definition Client_send :: "map_order \<Rightarrow> PriceEvent \<Rightarrow> Client \<Rightarrow> (bool \<times> Client) option" where
  "Client_send order event c =
     (if cl_closed c then Some (False, c)
      else if int (length (cl_events c)) < cl_bufferSize c
      then Some (True, c\<lparr>cl_events := cl_events c @ [event],
                         cl_latestPerSymbol := gm_put (ev_Symbol event) event (cl_latestPerSymbol c)\<rparr>)
      else
        (let latest = gm_put (ev_Symbol event) event (drain_latest (cl_events c))
         in if int (length latest) \<le> cl_bufferSize c
            then Some (True, c\<lparr>cl_events := map snd (order latest), cl_latestPerSymbol := latest\<rparr>)
            else None))"

definition SendReplay :: "PriceEvent \<Rightarrow> Client \<Rightarrow> Client" where
  "SendReplay event c =
     (if cl_closed c then c
      else if int (length (cl_events c)) < cl_bufferSize c
      then c\<lparr>cl_events := cl_events c @ [event]\<rparr>
      else c)"

definition Client_close :: "Client \<Rightarrow> Client" where
  "Client_close c = (if cl_closed c then c else c\<lparr>cl_closed := True\<rparr>)"

section \<open>Server-sent events\<close>

definition newline :: string where
  "newline = [char_of (10 :: nat)]"

definition sse_text :: "PriceEvent \<Rightarrow> string \<Rightarrow> string" where
  "sse_text event data =
     ''event: '' @ ev_EventType event @ newline @ ''id: '' @ ev_EventID event @ newline
       @ ''data: '' @ data @ newline @ newline"

text \<open>\<open>write\<close> is the response writer: the error of a write, if any.\<close>

definition writeSSEEvent ::
    "codec \<Rightarrow> (string \<Rightarrow> 'w \<Rightarrow> go_error option \<times> 'w) \<Rightarrow> PriceEvent \<Rightarrow> 'w \<Rightarrow> go_error option \<times> 'w" where
  "writeSSEEvent cd write event w =
     (case jc_MarshalEvent cd event of
        Inl err \<Rightarrow> (Some (Wrapped ''marshal sse event: '' err ''''), w)
      | Inr data \<Rightarrow>
          (case write (sse_text event data) w of
             (Some err, w1) \<Rightarrow> (Some (Wrapped ''write sse event: '' err ''''), w1)
           | (None, w1) \<Rightarrow> (None, w1)))"

text \<open>
  The ready case a \<open>select\<close> takes. \<open>CaseEvent\<close> with an empty buffer is the receive on a
  channel that was closed.
\<close>

datatype sse_case = CaseCtxDone | CaseDone | CaseHeartbeat | CaseEvent

text \<open>One round: whether the loop goes on.\<close>

fun ServeSSE_round ::
    "codec \<Rightarrow> (string \<Rightarrow> 'w \<Rightarrow> go_error option \<times> 'w) \<Rightarrow> sse_case \<Rightarrow> Client \<Rightarrow> 'w \<Rightarrow> bool \<times> Client \<times> 'w" where
  "ServeSSE_round cd write CaseCtxDone c w = (False, c, w)"
| "ServeSSE_round cd write CaseDone c w = (False, c, w)"
| "ServeSSE_round cd write CaseHeartbeat c w =
     (case write ('':heartbeat'' @ newline @ newline) w of (err, w1) \<Rightarrow> (err = None, c, w1))"
| "ServeSSE_round cd write CaseEvent c w =
     (case cl_events c of
        [] \<Rightarrow> (False, c, w)
      | event # events \<Rightarrow>
          (case writeSSEEvent cd write event w of
             (err, w1) \<Rightarrow> (err = None, c\<lparr>cl_events := events\<rparr>, w1)))"

text \<open>The loop under a schedule of choices; it has returned when the flag is set.\<close>

fun ServeSSE ::
    "codec \<Rightarrow> (string \<Rightarrow> 'w \<Rightarrow> go_error option \<times> 'w) \<Rightarrow> sse_case list \<Rightarrow> Client \<Rightarrow> 'w \<Rightarrow> bool \<times> Client \<times> 'w" where
  "ServeSSE cd write [] c w = (False, c, w)"
| "ServeSSE cd write (x # xs) c w =
     (case ServeSSE_round cd write x c w of
        (True, c1, w1) \<Rightarrow> ServeSSE cd write xs c1 w1
      | (False, c1, w1) \<Rightarrow> (True, c1, w1))"

section \<open>Client identifiers\<close>

function itoa_digits :: "int \<Rightarrow> string \<Rightarrow> string" where
  "itoa_digits n buf =
     (if 0 < n then itoa_digits (n div 10) (buf @ [digit_char (nat (n mod 10))]) else buf)"
  by pat_completeness auto
termination
  by (relation "measure (\<lambda>(n, buf). nat n)") auto

declare itoa_digits.simps [simp del]

text \<open>The loop that reverses the buffer in place.\<close>

function itoa_reverse :: "int \<Rightarrow> int \<Rightarrow> string \<Rightarrow> string" where
  "itoa_reverse i j buf =
     (if i < j
      then itoa_reverse (i + 1) (j - 1) (buf[nat i := buf ! nat j, nat j := buf ! nat i])
      else buf)"
  by pat_completeness auto
termination
  by (relation "measure (\<lambda>(i, j, buf). nat (j - i))") auto

declare itoa_reverse.simps [simp del]

definition itoa :: "int \<Rightarrow> string" where
  "itoa n =
     (if n = 0 then ''0''
      else let buf = itoa_digits n [] in itoa_reverse 0 (int (length buf) - 1) buf)"

definition formatClientID :: "int \<Rightarrow> string" where
  "formatClientID i = ''client-'' @ itoa i"

section \<open>Hub\<close>

record HubConfig =
  hc_MaxClients :: int
  hc_ClientBuffer :: int

definition DefaultHubConfig :: HubConfig where
  "DefaultHubConfig = \<lparr>hc_MaxClients = 100, hc_ClientBuffer = 64\<rparr>"

record Hub =
  hub_cfg :: HubConfig
  hub_clients :: "(string, Client) gomap"
  hub_nextID :: int
  hub_metrics :: metrics

definition NewHub :: "HubConfig \<Rightarrow> Hub" where
  "NewHub cfg = \<lparr>hub_cfg = cfg, hub_clients = [], hub_nextID = 0, hub_metrics = m_empty\<rparr>"

definition set_active :: "Hub \<Rightarrow> Hub" where
  "set_active h =
     h\<lparr>hub_metrics := m_set ''realtime_active_connections'' [] (int (length (hub_clients h))) (hub_metrics h)\<rparr>"

text \<open>The new client, or none at the connection limit; \<open>None\<close> when \<open>newClient\<close> panics.\<close>

definition Subscribe :: "Hub \<Rightarrow> (Client option \<times> Hub) option" where
  "Subscribe h =
     (if hc_MaxClients (hub_cfg h) \<le> int (length (hub_clients h)) then Some (None, h)
      else
        (let i = wrap64 (hub_nextID h + 1); clientID = formatClientID i; h1 = h\<lparr>hub_nextID := i\<rparr>
         in case newClient clientID (hc_ClientBuffer (hub_cfg h)) of
              None \<Rightarrow> None
            | Some client \<Rightarrow>
                (let h2 = h1\<lparr>hub_clients := gm_put clientID client (hub_clients h1)\<rparr>;
                     h3 = h2\<lparr>hub_metrics := m_inc ''realtime_connections_total'' [] (hub_metrics h2)\<rparr>
                 in Some (Some client, set_active h3))))"

definition Unsubscribe :: "Client \<Rightarrow> Hub \<Rightarrow> Client \<times> Hub" where
  "Unsubscribe client h =
     (if gm_get (hub_clients h) (Client_ID client) \<noteq> None
      then (Client_close client,
            set_active (h\<lparr>hub_clients := gm_del (Client_ID client) (hub_clients h)\<rparr>))
      else (client, h))"

fun Broadcast_loop ::
    "map_order \<Rightarrow> PriceEvent \<Rightarrow> (string, Client) gomap \<Rightarrow> metrics \<Rightarrow> ((string, Client) gomap \<times> metrics) option" where
  "Broadcast_loop order event [] m = Some ([], m)"
| "Broadcast_loop order event ((i, c) # cs) m =
     (case Client_send order event c of
        None \<Rightarrow> None
      | Some (sent, c1) \<Rightarrow>
          (case Broadcast_loop order event cs
                  (if sent then m else m_inc ''realtime_dropped_messages_total'' [] m) of
             None \<Rightarrow> None
           | Some (cs1, m1) \<Rightarrow> Some ((i, c1) # cs1, m1)))"

definition Broadcast :: "map_order \<Rightarrow> PriceEvent \<Rightarrow> Hub \<Rightarrow> Hub option" where
  "Broadcast order event h =
     (case Broadcast_loop order event (hub_clients h) (hub_metrics h) of
        None \<Rightarrow> None
      | Some (cs, m) \<Rightarrow> Some (h\<lparr>hub_clients := cs, hub_metrics := m\<rparr>))"

definition ClientCount :: "Hub \<Rightarrow> int" where
  "ClientCount h = int (length (hub_clients h))"

text \<open>The closed clients and the empty hub.\<close>

definition CloseAll :: "Hub \<Rightarrow> Client list \<times> Hub" where
  "CloseAll h =
     (map (\<lambda>(i, c). Client_close c) (hub_clients h),
      h\<lparr>hub_clients := [],
        hub_metrics := m_set ''realtime_active_connections'' [] 0 (hub_metrics h)\<rparr>)"

section \<open>Specification\<close>

text \<open>The latest buffered event of a symbol: what a reader of the buffer ends up knowing.\<close>

definition latest_of :: "PriceEvent list \<Rightarrow> string \<Rightarrow> PriceEvent option" where
  "latest_of evs s = List.find (\<lambda>e. ev_Symbol e = s) (rev evs)"

definition client_inv :: "Client \<Rightarrow> bool" where
  "client_inv c \<longleftrightarrow> 0 \<le> cl_bufferSize c \<and> int (length (cl_events c)) \<le> cl_bufferSize c"

text \<open>A client the hub holds: open, within its buffer, with one of the identifiers given out so far.\<close>

definition member_ok :: "HubConfig \<Rightarrow> int \<Rightarrow> string \<Rightarrow> Client \<Rightarrow> bool" where
  "member_ok cfg lastID i c \<longleftrightarrow>
     cl_id c = i \<and> client_inv c \<and> cl_bufferSize c = hc_ClientBuffer cfg \<and> \<not> cl_closed c \<and>
     (\<exists>k. 0 < k \<and> k \<le> lastID \<and> i = formatClientID k)"

definition hub_inv :: "Hub \<Rightarrow> bool" where
  "hub_inv h \<longleftrightarrow>
     gm_wf (hub_clients h) \<and> 0 \<le> hub_nextID h \<and>
     length (hub_clients h) \<le> nat (hc_MaxClients (hub_cfg h)) \<and>
     (\<forall>x \<in> set (hub_clients h). member_ok (hub_cfg h) (hub_nextID h) (fst x) (snd x)) \<and>
     hub_metrics h (''realtime_active_connections'', []) = int (length (hub_clients h))"

definition is_order :: "map_order \<Rightarrow> bool" where
  "is_order order \<longleftrightarrow> (\<forall>m. set (order m) = set m \<and> length (order m) = length m)"

text \<open>The hub under any interleaving of its methods and of receives by the serving goroutines.\<close>

datatype hub_op =
    SubscribeOp
  | UnsubscribeOp Client
  | BroadcastOp map_order PriceEvent
  | ReplayOp string PriceEvent
  | ReceiveOp string
  | CloseAllOp

definition on_client :: "string \<Rightarrow> (Client \<Rightarrow> Client) \<Rightarrow> Hub \<Rightarrow> Hub" where
  "on_client i f h =
     (case gm_get (hub_clients h) i of
        None \<Rightarrow> h
      | Some c \<Rightarrow> h\<lparr>hub_clients := gm_put i (f c) (hub_clients h)\<rparr>)"

text \<open>An operation that blocks or panics leaves the hub as it is.\<close>

fun hub_step :: "hub_op \<Rightarrow> Hub \<Rightarrow> Hub" where
  "hub_step SubscribeOp h = (case Subscribe h of None \<Rightarrow> h | Some (_, h1) \<Rightarrow> h1)"
| "hub_step (UnsubscribeOp c) h = snd (Unsubscribe c h)"
| "hub_step (BroadcastOp order e) h = (case Broadcast order e h of None \<Rightarrow> h | Some h1 \<Rightarrow> h1)"
| "hub_step (ReplayOp i e) h = on_client i (SendReplay e) h"
| "hub_step (ReceiveOp i) h = on_client i (\<lambda>c. c\<lparr>cl_events := tl (cl_events c)\<rparr>) h"
| "hub_step CloseAllOp h = snd (CloseAll h)"

fun op_order_ok :: "hub_op \<Rightarrow> bool" where
  "op_order_ok (BroadcastOp order e) = is_order order"
| "op_order_ok _ = True"

section \<open>Lemmas\<close>

lemma itoa_digits_dec: "0 < n \<Longrightarrow> itoa_digits n buf = buf @ rev (dec_digits (nat n))"
proof (induction n buf rule: itoa_digits.induct)
  case (1 n buf)
  show ?case
  proof (cases "n < 10")
    case True
    then have "n div 10 = 0" "n mod 10 = n" using 1(2) by auto
    then show ?thesis
      using True 1(2) by (simp add: itoa_digits.simps [of n] itoa_digits.simps [of 0] dec_digits.simps [of "nat n"])
  next
    case False
    then have "0 < n div 10" by simp
    moreover have "nat (n div 10) = nat n div 10" "nat (n mod 10) = nat n mod 10"
      using 1(2) by (simp_all add: nat_div_distrib nat_mod_distrib)
    moreover have "\<not> nat n < 10" using False by linarith
    ultimately show ?thesis
      using 1 False by (simp add: itoa_digits.simps [of n] dec_digits.simps [of "nat n"])
  qed
qed

lemma itoa_reverse_middle:
  "itoa_reverse (int (length a)) (int (length a) + int (length xs) - 1) (a @ xs @ b) = a @ rev xs @ b"
proof (induction "length xs" arbitrary: a xs b rule: less_induct)
  case less
  show ?case
  proof (cases "length xs < 2")
    case True
    then have "rev xs = xs" by (cases xs) auto
    with True show ?thesis by (simp add: itoa_reverse.simps)
  next
    case False
    then obtain x ys y where xs: "xs = x # ys @ [y]"
      by (cases xs; cases "tl xs" rule: rev_cases) auto
    let ?n = "length a"
    have swap: "(a @ xs @ b)[nat (int ?n) := (a @ xs @ b) ! nat (int ?n + int (length xs) - 1),
        nat (int ?n + int (length xs) - 1) := (a @ xs @ b) ! nat (int ?n)] = (a @ [y]) @ ys @ ([x] @ b)"
      by (simp add: xs nat_add_distrib nth_append list_update_append)
    have "itoa_reverse (int ?n) (int ?n + int (length xs) - 1) (a @ xs @ b)
        = itoa_reverse (int ?n + 1) (int ?n + int (length xs) - 2) ((a @ [y]) @ ys @ ([x] @ b))"
      using False swap by (subst itoa_reverse.simps) simp
    also have "\<dots> = (a @ [y]) @ rev ys @ [x] @ b"
      using less [of ys "a @ [y]" "[x] @ b"] by (simp add: xs algebra_simps)
    finally show ?thesis by (simp add: xs)
  qed
qed

lemma itoa_reverse_rev: "itoa_reverse 0 (int (length buf) - 1) buf = rev buf"
  using itoa_reverse_middle [of "[]" buf "[]"] by simp

lemma digit_char_0: "digit_char 0 = CHR ''0''"
  by code_simp

lemma itoa_Itoa: "0 \<le> n \<Longrightarrow> itoa n = strconv_Itoa n"
  using itoa_digits_dec [of n "[]"] itoa_reverse_rev
  by (cases "n = 0") (simp_all add: itoa_def strconv_Itoa_def dec_digits.simps [of 0] digit_char_0 Let_def)

lemma formatClientID_inj: "0 \<le> i \<Longrightarrow> 0 \<le> j \<Longrightarrow> formatClientID i = formatClientID j \<Longrightarrow> i = j"
  by (auto simp: formatClientID_def itoa_Itoa strconv_Itoa_def dest!: dec_digits_inj)

lemma latest_of_snoc:
  "latest_of (evs @ [e]) s = (if s = ev_Symbol e then Some e else latest_of evs s)"
  by (simp add: latest_of_def)

lemma drain_latest_snoc: "drain_latest (evs @ [e]) = gm_put (ev_Symbol e) e (drain_latest evs)"
  by (simp add: drain_latest_def)

lemma drain_latest_get: "gm_get (drain_latest evs) s = latest_of evs s"
proof (induction evs rule: rev_induct)
  case Nil
  then show ?case by (simp add: drain_latest_def latest_of_def)
next
  case (snoc e evs)
  then show ?case by (simp add: drain_latest_snoc latest_of_snoc gm_simps)
qed

lemma drain_latest_wf: "gm_wf (drain_latest evs)"
  by (induction evs rule: rev_induct) (simp_all add: drain_latest_snoc, simp add: drain_latest_def)

lemma drain_latest_keys: "fst ` set (drain_latest evs) = ev_Symbol ` set evs"
  by (induction evs rule: rev_induct) (simp_all add: drain_latest_snoc gm_keys_put, simp add: drain_latest_def)

lemma drain_latest_symbol: "(k, e) \<in> set (drain_latest evs) \<Longrightarrow> ev_Symbol e = k"
proof (induction evs rule: rev_induct)
  case (snoc e' evs)
  then show ?case
    using gm_set_put_subset [of "ev_Symbol e'" e' "drain_latest evs"] by (auto simp: drain_latest_snoc)
qed (simp add: drain_latest_def)

lemma drain_latest_length: "length (drain_latest evs) = card (ev_Symbol ` set evs)"
  using drain_latest_wf [of evs]
  by (metis distinct_card drain_latest_keys gm_wf_def length_map list.set_map)

lemma find_unique: "a \<in> set xs \<Longrightarrow> P a \<Longrightarrow> (\<And>x. x \<in> set xs \<Longrightarrow> P x \<Longrightarrow> x = a) \<Longrightarrow> List.find P xs = Some a"
  by (cases "List.find P xs") (metis find_None_iff, metis find_Some_iff nth_mem)

lemma latest_of_refill:
  assumes "set xs = set (drain_latest evs)"
  shows "latest_of (map snd xs) s = latest_of evs s"
proof (cases "latest_of evs s")
  case None
  then have "s \<notin> ev_Symbol ` set evs"
    by (auto simp: latest_of_def find_None_iff)
  then have "ev_Symbol (snd ke) \<noteq> s" if "ke \<in> set xs" for ke
    using that drain_latest_symbol [of "fst ke" "snd ke" evs] drain_latest_keys [of evs] assms by force
  then have "latest_of (map snd xs) s = None"
    by (auto simp: latest_of_def find_None_iff)
  with None show ?thesis by simp
next
  case (Some e)
  then have e: "(s, e) \<in> set (drain_latest evs)"
    using drain_latest_get [of evs s] by (simp add: gm_get_in_set)
  have unique: "x = e" if "x \<in> set (rev (map snd xs))" "ev_Symbol x = s" for x
  proof -
    from that(1) obtain k where k: "(k, x) \<in> set (drain_latest evs)" by (auto simp: assms)
    with drain_latest_symbol that(2) have "k = s" by blast
    with k e show ?thesis by (metis drain_latest_wf gm_get_Some_iff option.inject)
  qed
  have mem: "e \<in> set (rev (map snd xs))" using e by (force simp: assms)
  have "ev_Symbol e = s" using e by (rule drain_latest_symbol)
  from find_unique [of e "rev (map snd xs)" "\<lambda>x. ev_Symbol x = s", OF mem this unique]
  show ?thesis by (simp add: latest_of_def Some [unfolded latest_of_def])
qed

lemma Client_send_blocks:
  assumes "client_inv c" and "\<not> cl_closed c"
  shows "Client_send order e c = None \<longleftrightarrow>
    int (length (cl_events c)) = cl_bufferSize c \<and>
    cl_bufferSize c < int (card (insert (ev_Symbol e) (ev_Symbol ` set (cl_events c))))"
  using assms drain_latest_length [of "cl_events c @ [e]"]
  by (auto simp: Client_send_def client_inv_def Let_def drain_latest_snoc [symmetric])

lemma Client_send_spec:
  assumes "is_order order" and "client_inv c" and "Client_send order e c = Some (sent, c')"
  shows "client_inv c' \<and> cl_id c' = cl_id c \<and> cl_closed c' = cl_closed c \<and>
    cl_bufferSize c' = cl_bufferSize c \<and> sent = (\<not> cl_closed c) \<and>
    (\<forall>s. latest_of (cl_events c') s
       = (if sent \<and> s = ev_Symbol e then Some e else latest_of (cl_events c) s))"
proof -
  let ?new = "drain_latest (cl_events c @ [e])"
  have order: "set (order ?new) = set ?new" "length (order ?new) = length ?new"
    using assms(1) by (auto simp: is_order_def)
  from latest_of_refill [OF order(1)] order(2) assms(2,3) show ?thesis
    by (auto simp: Client_send_def client_inv_def Let_def drain_latest_snoc [symmetric] latest_of_snoc
        split: if_splits)
qed

lemma member_ok_mono: "member_ok cfg k i c \<Longrightarrow> k \<le> k' \<Longrightarrow> member_ok cfg k' i c"
  by (force simp: member_ok_def)

lemma fresh_client_id:
  assumes "hub_inv h" and "is_int64 (hub_nextID h + 1)"
  shows "gm_get (hub_clients h) (formatClientID (wrap64 (hub_nextID h + 1))) = None"
proof -
  have "formatClientID (hub_nextID h + 1) \<noteq> formatClientID k" if "0 < k" "k \<le> hub_nextID h" for k
    using that assms(1) formatClientID_inj [of "hub_nextID h + 1" k] by (auto simp: hub_inv_def)
  with assms show ?thesis by (fastforce simp: gm_get_None_iff hub_inv_def member_ok_def)
qed

lemma Subscribe_inv:
  assumes "hub_inv h" and "is_int64 (hub_nextID h + 1)" and "Subscribe h = Some (c, h')"
  shows "hub_inv h' \<and> hub_nextID h' \<le> hub_nextID h + 1"
proof (cases "hc_MaxClients (hub_cfg h) \<le> int (length (hub_clients h))")
  case True
  with assms show ?thesis by (simp add: Subscribe_def)
next
  case False
  let ?i = "hub_nextID h + 1"
  let ?cid = "formatClientID ?i"
  have fresh: "gm_get (hub_clients h) ?cid = None" using fresh_client_id [OF assms(1,2)] assms(2) by simp
  from assms(2,3) False obtain client where new: "newClient ?cid (hc_ClientBuffer (hub_cfg h)) = Some client"
    and h': "h' = set_active (h\<lparr>hub_nextID := ?i, hub_clients := gm_put ?cid client (hub_clients h),
       hub_metrics := m_inc ''realtime_connections_total'' [] (hub_metrics h)\<rparr>)"
    by (auto simp: Subscribe_def Let_def split: option.splits)
  have "\<exists>k. 0 < k \<and> k \<le> ?i \<and> ?cid = formatClientID k"
    using assms(1) by (intro exI [of _ ?i]) (simp add: hub_inv_def)
  with new have "member_ok (hub_cfg h) ?i ?cid client"
    by (auto simp: newClient_def member_ok_def client_inv_def split: if_splits)
  moreover have "member_ok (hub_cfg h) ?i (fst x) (snd x)" if "x \<in> set (hub_clients h)" for x
    using that assms(1) member_ok_mono by (fastforce simp: hub_inv_def)
  ultimately have "\<forall>x \<in> set (gm_put ?cid client (hub_clients h)). member_ok (hub_cfg h) ?i (fst x) (snd x)"
    using gm_set_put_subset [of ?cid client "hub_clients h"] by fastforce
  then show ?thesis
    using assms(1) fresh False by (simp add: h' hub_inv_def set_active_def gm_length_put metric_simps)
qed

lemma gm_length_del: "length (gm_del k m) \<le> length m"
  by (simp add: gm_del_def AList.delete_eq)

lemma Unsubscribe_inv: "hub_inv h \<Longrightarrow> hub_inv (snd (Unsubscribe c h)) \<and> hub_nextID (snd (Unsubscribe c h)) = hub_nextID h"
  using gm_length_del [of "Client_ID c" "hub_clients h"] gm_set_del_subset [of "Client_ID c" "hub_clients h"]
  by (auto simp: Unsubscribe_def hub_inv_def set_active_def metric_simps)

lemma Broadcast_loop_keys:
  "Broadcast_loop order e cs m = Some (cs', m') \<Longrightarrow>
     map fst cs' = map fst cs \<and> (\<forall>k. k \<noteq> ''realtime_dropped_messages_total'' \<longrightarrow> m' (k, []) = m (k, []))"
  by (induction order e cs m arbitrary: cs' m' rule: Broadcast_loop.induct)
    (fastforce simp: metric_simps split: option.splits prod.splits if_splits)+

lemma Broadcast_loop_members:
  assumes "is_order order" and "Broadcast_loop order e cs m = Some (cs', m')"
    and "\<forall>x \<in> set cs. member_ok cfg k (fst x) (snd x)"
  shows "\<forall>x \<in> set cs'. member_ok cfg k (fst x) (snd x)"
  using assms(2,3)
proof (induction cs arbitrary: cs' m)
  case (Cons ic cs)
  obtain i c where ic: "ic = (i, c)" by (cases ic)
  from Cons.prems(1) obtain sent c1 cs1 where send: "Client_send order e c = Some (sent, c1)"
    and rest: "Broadcast_loop order e cs
        (if sent then m else m_inc ''realtime_dropped_messages_total'' [] m) = Some (cs1, m')"
    and cs': "cs' = (i, c1) # cs1"
    by (auto simp: ic split: option.splits prod.splits)
  have "member_ok cfg k i c1"
    using Cons.prems(2) Client_send_spec [OF assms(1) _ send] by (auto simp: ic member_ok_def)
  with Cons.IH [OF rest] Cons.prems(2) show ?case by (simp add: cs')
qed simp

lemma Broadcast_inv:
  assumes "hub_inv h" and "is_order order" and "Broadcast order e h = Some h'"
  shows "hub_inv h' \<and> hub_nextID h' = hub_nextID h"
proof -
  obtain cs m where loop: "Broadcast_loop order e (hub_clients h) (hub_metrics h) = Some (cs, m)"
    and h': "h' = h\<lparr>hub_clients := cs, hub_metrics := m\<rparr>"
    using assms(3) by (auto simp: Broadcast_def split: option.splits prod.splits)
  have "map fst cs = map fst (hub_clients h)" using Broadcast_loop_keys [OF loop] by simp
  then have "length cs = length (hub_clients h)" by (metis length_map)
  then show ?thesis
    using Broadcast_loop_keys [OF loop] Broadcast_loop_members [OF assms(2) loop] assms(1)
    by (auto simp: hub_inv_def h' gm_wf_def)
qed

lemma on_client_inv:
  assumes "hub_inv h" and "\<And>c. client_inv c \<Longrightarrow> client_inv (f c)"
    and "\<And>c. cl_id (f c) = cl_id c \<and> cl_closed (f c) = cl_closed c \<and> cl_bufferSize (f c) = cl_bufferSize c"
  shows "hub_inv (on_client i f h) \<and> hub_nextID (on_client i f h) = hub_nextID h"
proof (cases "gm_get (hub_clients h) i")
  case (Some c)
  have "member_ok (hub_cfg h) (hub_nextID h) i c"
    using assms(1) gm_get_in_set [OF Some] by (force simp: hub_inv_def)
  then have ok: "member_ok (hub_cfg h) (hub_nextID h) i (f c)"
    using assms(2,3) by (auto simp: member_ok_def)
  have "\<forall>x \<in> set (gm_put i (f c) (hub_clients h)). member_ok (hub_cfg h) (hub_nextID h) (fst x) (snd x)"
    using gm_set_put_subset [of i "f c" "hub_clients h"] ok assms(1) by (fastforce simp: hub_inv_def)
  with assms(1) Some show ?thesis by (simp add: on_client_def hub_inv_def gm_length_put)
qed (simp add: on_client_def assms(1))

lemma hub_step_inv:
  assumes "hub_inv h" and "is_int64 (hub_nextID h + 1)" and "op_order_ok x"
  shows "hub_inv (hub_step x h) \<and> hub_nextID (hub_step x h) \<le> hub_nextID h + 1"
proof (cases x)
  case SubscribeOp
  with assms Subscribe_inv show ?thesis by (auto split: option.splits)
next
  case (UnsubscribeOp c)
  with Unsubscribe_inv [OF assms(1), of c] show ?thesis by simp
next
  case (BroadcastOp order e)
  with assms Broadcast_inv [of h order e] show ?thesis by (auto split: option.splits)
next
  case (ReplayOp i e)
  have "hub_inv (on_client i (SendReplay e) h) \<and> hub_nextID (on_client i (SendReplay e) h) = hub_nextID h"
    by (rule on_client_inv [OF assms(1)]) (auto simp: SendReplay_def client_inv_def)
  with ReplayOp show ?thesis by simp
next
  case (ReceiveOp i)
  let ?f = "\<lambda>c. c\<lparr>cl_events := tl (cl_events c)\<rparr>"
  have "hub_inv (on_client i ?f h) \<and> hub_nextID (on_client i ?f h) = hub_nextID h"
    by (rule on_client_inv [OF assms(1)]) (auto simp: client_inv_def)
  with ReceiveOp show ?thesis by simp
next
  case CloseAllOp
  with assms(1) show ?thesis by (simp add: CloseAll_def hub_inv_def metric_simps)
qed

lemma hub_run_inv:
  assumes "hub_inv h" and "hub_nextID h + int (length ops) < 2 ^ 63" and "list_all op_order_ok ops"
  shows "hub_inv (fold hub_step ops h)"
  using assms
proof (induction ops arbitrary: h)
  case (Cons x ops)
  have "is_int64 (hub_nextID h + 1)" using Cons.prems by (simp add: hub_inv_def is_int64_def)
  with Cons hub_step_inv [of h x] show ?case by auto
qed simp

section \<open>Properties\<close>

text \<open>
  C11: Latest state wins: when a send returns, the buffer is within its bound and a reader of it
  ends up with the new event as the latest of its symbol and, for every other symbol, with
  the same latest event as before. Compaction loses only events that a later one of the same
  symbol supersedes. A send to a closed client changes nothing.
\<close>

theorem send_latest_wins:
  assumes "is_order order" and "client_inv c" and "Client_send order e c = Some (sent, c')"
  shows "client_inv c' \<and> sent = (\<not> cl_closed c) \<and>
    (\<forall>s. latest_of (cl_events c') s
       = (if sent \<and> s = ev_Symbol e then Some e else latest_of (cl_events c) s))"
  using Client_send_spec [OF assms] by simp

theorem send_latest_wins_witness:
  "latest_of (cl_events (snd (the (Client_send (\<lambda>m. m) (demo_event ''2'')
     \<lparr>cl_id = ''client-1'', cl_events = [demo_event ''1''], cl_closed = False, cl_latestPerSymbol = [],
      cl_bufferSize = 1\<rparr>)))) ''BTC'' = Some (demo_event ''2'')"
proof -
  let ?c = "\<lparr>cl_id = ''client-1'', cl_events = [demo_event ''1''], cl_closed = False,
      cl_latestPerSymbol = [], cl_bufferSize = 1\<rparr>"
  obtain sent c' where send: "Client_send (\<lambda>m. m) (demo_event ''2'') ?c = Some (sent, c')"
    by (simp add: Client_send_def drain_latest_def demo_event_def gm_put_def Let_def)
  have "is_order (\<lambda>m. m)" "client_inv ?c" by (simp_all add: is_order_def client_inv_def)
  from send_latest_wins [OF this send] send show ?thesis by (simp add: demo_event_def)
qed



text \<open>
  C21: The hub keeps its books right under any interleaving of subscriptions, unsubscriptions,
  broadcasts, replays, receives and shutdowns (fewer than \<open>2^63\<close> of them): at most
  \<open>MaxClients\<close> clients, each open, under its own identifier and within its buffer bound, no
  identifier given out twice, and the gauge of active connections equal to their number.
\<close>

theorem hub_invariant:
  assumes "length ops < 2 ^ 63" and "list_all op_order_ok ops"
  shows "hub_inv (fold hub_step ops (NewHub cfg))"
  using assms
  by (intro hub_run_inv) (simp_all add: NewHub_def hub_inv_def m_empty_def)

theorem hub_invariant_witness:
  "hub_inv (fold hub_step [SubscribeOp, SubscribeOp, BroadcastOp (\<lambda>m. m) (demo_event ''1''), CloseAllOp]
     (NewHub DefaultHubConfig))"
  by (rule hub_invariant) (simp_all add: is_order_def)

text \<open>
  C40: The hand-written decimal conversion behind the client identifiers, which collects the digits
  backwards and reverses them in place, agrees with \<open>strconv.Itoa\<close> on every number that is
  not negative.
\<close>

theorem itoa_reference:
  assumes "0 \<le> n"
  shows "itoa n = strconv_Itoa n"
  using assms by (rule itoa_Itoa)

theorem itoa_reference_witness: "itoa 1024 = ''1024''"
  using itoa_reference [of 1024] by code_simp

end
