(* ===== verification/Realtime_Server.thy ===== *)
theory Realtime_Server
  imports Subscriber Market_Cache
begin

text \<open>
  \<open>internal/realtime/server.go\<close> and \<open>metrics.go\<close>: the gateway's handlers. The hub is
  the one of \<open>Subscriber\<close>; \<open>HandleEvent\<close> is the handler the stream consumer calls. An
  HTTP response is its status, its headers and its body; \<open>http.Error\<close> writes a line of
  text. The methods of \<open>Metrics\<close> are updates of registry cells.
\<close>

record http_reply =
  hr_status :: int
  hr_headers :: "(string, string) gomap"
  hr_body :: string

definition json_reply :: "int \<Rightarrow> string \<Rightarrow> http_reply" where
  "json_reply status body =
     \<lparr>hr_status = status, hr_headers = [(''Content-Type'', ''application/json'')], hr_body = body\<rparr>"

definition http_Error :: "string \<Rightarrow> int \<Rightarrow> http_reply" where
  "http_Error text code =
     \<lparr>hr_status = code,
      hr_headers = [(''Content-Type'', ''text/plain; charset=utf-8''),
                    (''X-Content-Type-Options'', ''nosniff'')],
      hr_body = text @ newline\<rparr>"

record Server =
  srv_hub :: Hub
  srv_metrics :: metrics

definition NewServer :: "Hub \<Rightarrow> Server" where
  "NewServer hub = \<lparr>srv_hub = hub, srv_metrics = m_empty\<rparr>"

definition double_quote :: string where
  "double_quote = [char_of (34 :: nat)]"

text \<open>A JSON object of string fields, as the handlers write them literally.\<close>

definition json_fields :: "(string \<times> string) list \<Rightarrow> string" where
  "json_fields fs =
     ''{'' @ strings_Join (map (\<lambda>(k, v). double_quote @ k @ double_quote @ '':'' @ double_quote @ v @ double_quote) fs)
        '','' @ ''}''"

definition Health :: http_reply where
  "Health = json_reply 200 (json_fields [(''status'', ''ok'')])"

definition Ready :: "'w redis_client \<Rightarrow> 'w \<Rightarrow> http_reply \<times> 'w" where
  "Ready rc w =
     (case rc_Ping rc w of
        (Some err, w1) \<Rightarrow>
          (json_reply 503 (json_fields [(''status'', ''not_ready''), (''error'', ''redis unavailable'')]), w1)
      | (None, w1) \<Rightarrow> (json_reply 200 (json_fields [(''status'', ''ready'')]), w1))"

definition maxReplay :: nat where
  "maxReplay = 50"

text \<open>The event an entry replays as, if it is one the client has not got and it is valid.\<close>

definition replay_event :: "codec \<Rightarrow> string \<Rightarrow> XMessage \<Rightarrow> PriceEvent option" where
  "replay_event cd afterID entry =
     (if xm_ID entry = afterID then None
      else case string_field ''data'' entry of
             None \<Rightarrow> None
           | Some dataStr \<Rightarrow>
               (case ParseEvent cd dataStr of
                  Inl _ \<Rightarrow> None
                | Inr event \<Rightarrow> if PriceEvent_Validate cd event \<noteq> None then None else Some event))"

fun replay_loop :: "codec \<Rightarrow> string \<Rightarrow> XMessage list \<Rightarrow> Client \<Rightarrow> Client" where
  "replay_loop cd afterID [] client = client"
| "replay_loop cd afterID (entry # entries) client =
     (case replay_event cd afterID entry of
        None \<Rightarrow> replay_loop cd afterID entries client
      | Some event \<Rightarrow> replay_loop cd afterID entries (SendReplay event client))"

definition replayEvents :: "'w redis_client \<Rightarrow> Client \<Rightarrow> string \<Rightarrow> 'w \<Rightarrow> Client \<times> 'w" where
  "replayEvents rc client afterID w =
     (case rc_XRange rc streamKey afterID ''+'' w of
        (Inl err, w1) \<Rightarrow> (client, w1)
      | (Inr entries, w1) \<Rightarrow>
          (let entries' = (if maxReplay < length entries then drop (length entries - maxReplay) entries
                           else entries)
           in (replay_loop (rc_codec rc) afterID entries' client, w1)))"

text \<open>
  \<open>EventsMarkets\<close> for one connection with no other goroutine at work in between: the
  choices are those of the client's \<open>select\<close>. \<open>None\<close> when \<open>Subscribe\<close> panics; otherwise
  the reply of a rejected connection, or none when the response was streamed.
\<close>

definition EventsMarkets ::
    "'w redis_client \<Rightarrow> (string \<Rightarrow> 'w \<Rightarrow> go_error option \<times> 'w) \<Rightarrow> sse_case list \<Rightarrow> string \<Rightarrow> Server \<Rightarrow> 'w
       \<Rightarrow> (http_reply option \<times> Server \<times> 'w) option" where
  "EventsMarkets rc write choices lastEventID srv w =
     (case Subscribe (srv_hub srv) of
        None \<Rightarrow> None
      | Some (None, hub) \<Rightarrow>
          Some (Some (http_Error ''connection limit reached'' 503), srv\<lparr>srv_hub := hub\<rparr>, w)
      | Some (Some client, hub) \<Rightarrow>
          (case (if lastEventID \<noteq> '''' then replayEvents rc client lastEventID w else (client, w)) of
             (client1, w1) \<Rightarrow>
               (case ServeSSE (rc_codec rc) write choices client1 w1 of
                  (_, client2, w2) \<Rightarrow>
                    Some (None,
                      srv\<lparr>srv_hub := snd (Unsubscribe client2 hub),
                          srv_metrics := m_inc ''realtime_connection_duration_seconds_count'' [] (srv_metrics srv)\<rparr>,
                      w2))))"

definition HandleEvent :: "map_order \<Rightarrow> StreamMessage \<Rightarrow> Server \<Rightarrow> (go_error option \<times> Server) option" where
  "HandleEvent order msg srv =
     (case Broadcast order (sm_Event msg) (srv_hub srv) of
        None \<Rightarrow> None
      | Some hub \<Rightarrow>
          Some (None, srv\<lparr>srv_hub := hub,
            srv_metrics := m_inc ''realtime_events_broadcast_total'' [] (srv_metrics srv)\<rparr>))"

section \<open>Lemmas\<close>

lemma SendReplay_take:
  "client_inv c \<Longrightarrow> \<not> cl_closed c \<Longrightarrow>
     cl_events (SendReplay e c) = take (nat (cl_bufferSize c)) (cl_events c @ [e])"
  by (auto simp: SendReplay_def client_inv_def)

lemma SendReplay_frame:
  "client_inv c \<Longrightarrow> client_inv (SendReplay e c)"
  "cl_closed (SendReplay e c) = cl_closed c" "cl_bufferSize (SendReplay e c) = cl_bufferSize c"
  by (auto simp: SendReplay_def client_inv_def)

lemma take_take_append: "take n (take n xs @ ys) = take n (xs @ ys)"
  by (simp add: min_def)

lemma replay_loop_events:
  assumes "client_inv c" and "\<not> cl_closed c"
  shows "cl_events (replay_loop cd afterID entries c)
    = take (nat (cl_bufferSize c)) (cl_events c @ List.map_filter (replay_event cd afterID) entries)"
  using assms
proof (induction entries arbitrary: c)
  case Nil
  then show ?case by (simp add: client_inv_def List.map_filter_simps take_all le_nat_iff)
next
  case (Cons entry entries)
  show ?case
  proof (cases "replay_event cd afterID entry")
    case None
    with Cons show ?thesis by (simp add: List.map_filter_simps)
  next
    case (Some e)
    have "cl_events (replay_loop cd afterID entries (SendReplay e c))
        = take (nat (cl_bufferSize c)) (take (nat (cl_bufferSize c)) (cl_events c @ [e])
            @ List.map_filter (replay_event cd afterID) entries)"
      using Cons.IH [of "SendReplay e c"] Cons.prems SendReplay_frame SendReplay_take by simp
    then show ?thesis
      using take_take_append [of "nat (cl_bufferSize c)" "cl_events c @ [e]"]
      by (simp add: Some List.map_filter_simps)
  qed
qed

section \<open>Properties\<close>

text \<open>
  Replay: a reconnecting client gets, in stream order and after what its buffer holds, the
  valid events among the last 50 entries of the range, never the entry it already has, cut
  off at its buffer size; when the range query fails it gets nothing.
\<close>

theorem replay_appends_valid:
  assumes "client_inv c" and "\<not> cl_closed c"
  shows "cl_events (fst (replayEvents rc c afterID w)) =
    (case fst (rc_XRange rc streamKey afterID ''+'' w) of
       Inl _ \<Rightarrow> cl_events c
     | Inr entries \<Rightarrow>
         take (nat (cl_bufferSize c))
           (cl_events c @ List.map_filter (replay_event (rc_codec rc) afterID)
              (rev (take 50 (rev entries)))))"
proof -
  have last: "(if maxReplay < length xs then drop (length xs - maxReplay) xs else xs)
      = rev (take 50 (rev xs))" for xs :: "XMessage list"
    by (simp add: maxReplay_def rev_take)
  show ?thesis
    by (auto simp: replayEvents_def last replay_loop_events [OF assms] Let_def split: prod.splits sum.splits)
qed

theorem replay_appends_valid_witness:
  "cl_events (fst (replayEvents (kv_client demo_codec)
     \<lparr>cl_id = ''client-1'', cl_events = [], cl_closed = False, cl_latestPerSymbol = [], cl_bufferSize = 1\<rparr>
     ''0-0'' ([], [demo_entry ''0-0'' ''a'', demo_entry ''1-0'' ''b'', demo_entry ''2-0'' ''c''])))
   = [demo_event ''b'']"
  by (subst replay_appends_valid)
    (simp_all add: client_inv_def kv_client_def replay_event_def demo_entry_def string_field_def
      gm_get_def ParseEvent_def demo_codec_def demo_event_def PriceEvent_Validate_def
      List.map_filter_simps)

end
