(* ===== verification/Consumer_Concurrency.thy ===== *)
theory Consumer_Concurrency
  imports Stream_Consumer
begin

text \<open>
  The two goroutines of the stream consumer (\<open>internal/stream/consumer.go\<close>): \<open>Run\<close> reads new
  entries and starts \<open>claimPendingLoop\<close>, which claims idle ones, and both hand their entries to
  \<open>processEntry\<close>. They share the consumer and the world. \<open>processEntry\<close> holds the lock only
  inside \<open>isDuplicate\<close> and \<open>markSeen\<close>, so it is split here at these calls, the handler and
  the acknowledgement, and any interleaving of the pieces is an execution.

  The log is a ghost: it records which events were handled without an error and which entries
  were acknowledged, in order.
\<close>

section \<open>One goroutine inside \<open>processEntry\<close>\<close>

text \<open>Where a goroutine stands, with the entries of its batch that are still to come.\<close>

datatype worker =
    Ready "(time \<times> XMessage) list"
  | ToHandle XMessage PriceEvent "(time \<times> XMessage) list"
  | ToMark XMessage PriceEvent "(time \<times> XMessage) list"
  | ToAck XMessage "(time \<times> XMessage) list"
  | Stopped

datatype action = HandledEvent string | AckedEntry XMessage

inductive work ::
    "'w stream_env \<Rightarrow> worker \<Rightarrow> Consumer \<Rightarrow> 'w \<Rightarrow> action list \<Rightarrow> worker \<Rightarrow> Consumer \<Rightarrow> 'w \<Rightarrow> bool"
  for env where
  malformed:
    "parseEntry (se_codec env) now e = Inl err \<Longrightarrow>
     work env (Ready ((now, e) # es)) c w []
       (ToAck e es) (consumer_inc ''realtime_event_validation_failures_total'' c) w"
| duplicate:
    "parseEntry (se_codec env) now e = Inr ev \<Longrightarrow> isDuplicate (ev_EventID ev) c \<Longrightarrow>
     work env (Ready ((now, e) # es)) c w [] (ToAck e es) c w"
| fresh:
    "parseEntry (se_codec env) now e = Inr ev \<Longrightarrow> \<not> isDuplicate (ev_EventID ev) c \<Longrightarrow>
     work env (Ready ((now, e) # es)) c w [] (ToHandle e ev es) c w"
| handler_failed:
    "se_handler env \<lparr>sm_StreamID = xm_ID e, sm_Event = ev\<rparr> w = (Some err, w1) \<Longrightarrow>
     work env (ToHandle e ev es) c w [] (Ready es) c w1"
| handled:
    "se_handler env \<lparr>sm_StreamID = xm_ID e, sm_Event = ev\<rparr> w = (None, w1) \<Longrightarrow>
     work env (ToHandle e ev es) c w [HandledEvent (ev_EventID ev)] (ToMark e ev es) c w1"
| mark:
    "work env (ToMark e ev es) c w []
       (ToAck e es) (consumer_inc ''realtime_events_consumed_total'' (markSeen (ev_EventID ev) c)) w"
| acknowledge:
    "work env (ToAck e es) c w [AckedEntry e] (Ready es) c (ack env c (xm_ID e) w)"

inductive_cases work_ReadyE: "work env (Ready es) c w as t c' w'"
inductive_cases work_ToHandleE: "work env (ToHandle e ev es) c w as t c' w'"
inductive_cases work_ToMarkE: "work env (ToMark e ev es) c w as t c' w'"
inductive_cases work_ToAckE: "work env (ToAck e es) c w as t c' w'"

text \<open>A goroutine that is not interrupted.\<close>

inductive works ::
    "'w stream_env \<Rightarrow> worker \<Rightarrow> Consumer \<Rightarrow> 'w \<Rightarrow> action list \<Rightarrow> worker \<Rightarrow> Consumer \<Rightarrow> 'w \<Rightarrow> bool"
  for env where
  works_refl: "works env t c w [] t c w"
| works_step:
    "work env t c w as t1 c1 w1 \<Longrightarrow> works env t1 c1 w1 bs t2 c2 w2 \<Longrightarrow> works env t c w (as @ bs) t2 c2 w2"

section \<open>Both goroutines\<close>

record 'w gateway =
  gw_consumer :: Consumer
  gw_world :: 'w
  gw_reader :: worker
  gw_claimer :: worker
  gw_log :: "action list"

definition gateway_start :: "Consumer \<Rightarrow> 'w \<Rightarrow> 'w gateway" where
  "gateway_start c w =
     \<lparr>gw_consumer = c\<lparr>co_running := True\<rparr>, gw_world = w, gw_reader = Ready [], gw_claimer = Ready [],
      gw_log = []\<rparr>"

text \<open>The goroutine of \<open>Run\<close>: it reads, works on what it has read, backs off or stops.\<close>

inductive reader_step :: "'w stream_env \<Rightarrow> 'w gateway \<Rightarrow> 'w gateway \<Rightarrow> bool" for env where
  reader_works:
    "work env (gw_reader g) (gw_consumer g) (gw_world g) as t c w \<Longrightarrow>
     reader_step env g (g\<lparr>gw_consumer := c, gw_world := w, gw_reader := t, gw_log := gw_log g @ as\<rparr>)"
| reader_reads:
    "gw_reader g = Ready [] \<Longrightarrow> rt_CtxErr (se_runtime env) (gw_world g) = None \<Longrightarrow>
     se_XReadGroup env (co_cfg (gw_consumer g)) (gw_world g) = (Inr streams, w) \<Longrightarrow>
     map snd batch = concat streams \<Longrightarrow>
     reader_step env g (g\<lparr>gw_world := w, gw_reader := Ready batch\<rparr>)"
| reader_retries:
    "gw_reader g = Ready [] \<Longrightarrow> rt_CtxErr (se_runtime env) (gw_world g) = None \<Longrightarrow>
     se_XReadGroup env (co_cfg (gw_consumer g)) (gw_world g) = (Inl err, w) \<Longrightarrow>
     handleReadError env err (gw_consumer g) w = (None, c, w1) \<Longrightarrow>
     reader_step env g (g\<lparr>gw_consumer := c, gw_world := w1\<rparr>)"
| reader_gives_up:
    "gw_reader g = Ready [] \<Longrightarrow> rt_CtxErr (se_runtime env) (gw_world g) = None \<Longrightarrow>
     se_XReadGroup env (co_cfg (gw_consumer g)) (gw_world g) = (Inl err, w) \<Longrightarrow>
     handleReadError env err (gw_consumer g) w = (Some e, c, w1) \<Longrightarrow>
     reader_step env g (g\<lparr>gw_consumer := c\<lparr>co_running := False\<rparr>, gw_world := w1, gw_reader := Stopped\<rparr>)"
| reader_stops:
    "gw_reader g = Ready [] \<Longrightarrow> rt_CtxErr (se_runtime env) (gw_world g) = Some e \<Longrightarrow>
     reader_step env g (g\<lparr>gw_consumer := (gw_consumer g)\<lparr>co_running := False\<rparr>, gw_reader := Stopped\<rparr>)"

text \<open>The goroutine of \<open>claimPendingLoop\<close>: at a tick it claims idle entries and works on them.\<close>

inductive claimer_step :: "'w stream_env \<Rightarrow> 'w gateway \<Rightarrow> 'w gateway \<Rightarrow> bool" for env where
  claimer_works:
    "work env (gw_claimer g) (gw_consumer g) (gw_world g) as t c w \<Longrightarrow>
     claimer_step env g (g\<lparr>gw_consumer := c, gw_world := w, gw_claimer := t, gw_log := gw_log g @ as\<rparr>)"
| claimer_claims:
    "gw_claimer g = Ready [] \<Longrightarrow>
     se_XAutoClaim env (co_cfg (gw_consumer g)) (gw_world g) = (Inr entries, w) \<Longrightarrow>
     map snd batch = entries \<Longrightarrow>
     claimer_step env g (g\<lparr>gw_world := w, gw_claimer := Ready batch\<rparr>)"
| claimer_fails:
    "gw_claimer g = Ready [] \<Longrightarrow>
     se_XAutoClaim env (co_cfg (gw_consumer g)) (gw_world g) = (Inl err, w) \<Longrightarrow>
     claimer_step env g (g\<lparr>gw_world := w\<rparr>)"
| claimer_stops:
    "gw_claimer g = Ready [] \<Longrightarrow> rt_CtxErr (se_runtime env) (gw_world g) = Some e \<Longrightarrow>
     claimer_step env g (g\<lparr>gw_claimer := Stopped\<rparr>)"

inductive gstep :: "'w stream_env \<Rightarrow> 'w gateway \<Rightarrow> 'w gateway \<Rightarrow> bool" for env where
  by_reader: "reader_step env g g' \<Longrightarrow> gstep env g g'"
| by_claimer: "claimer_step env g g' \<Longrightarrow> gstep env g g'"

section \<open>Specification\<close>

definition handled_events :: "action list \<Rightarrow> string set" where
  "handled_events hist = {i. HandledEvent i \<in> set hist}"

text \<open>An entry may be acknowledged: it is malformed, or its event was handled.\<close>

definition settled :: "'w stream_env \<Rightarrow> string set \<Rightarrow> XMessage \<Rightarrow> bool" where
  "settled env H e \<longleftrightarrow>
     (\<exists>now. case parseEntry (se_codec env) now e of Inl err \<Rightarrow> True | Inr ev \<Rightarrow> ev_EventID ev \<in> H)"

definition acks_settled :: "'w stream_env \<Rightarrow> action list \<Rightarrow> bool" where
  "acks_settled env hist \<longleftrightarrow>
     (\<forall>k e. k < length hist \<longrightarrow> hist ! k = AckedEntry e \<longrightarrow> settled env (handled_events (take k hist)) e)"

fun worker_ok :: "'w stream_env \<Rightarrow> string set \<Rightarrow> worker \<Rightarrow> bool" where
  "worker_ok env H (ToHandle e ev es) = (\<exists>now. parseEntry (se_codec env) now e = Inr ev)"
| "worker_ok env H (ToMark e ev es) =
     ((\<exists>now. parseEntry (se_codec env) now e = Inr ev) \<and> ev_EventID ev \<in> H)"
| "worker_ok env H (ToAck e es) = settled env H e"
| "worker_ok env H _ = True"

text \<open>The set of seen identifiers is bounded and holds only events that were handled.\<close>

definition gateway_inv :: "'w stream_env \<Rightarrow> 'w gateway \<Rightarrow> bool" where
  "gateway_inv env g \<longleftrightarrow>
     (let H = handled_events (gw_log g)
      in seen_inv (gw_consumer g) \<and> fst ` set (co_seen (gw_consumer g)) \<subseteq> H \<and>
         worker_ok env H (gw_reader g) \<and> worker_ok env H (gw_claimer g) \<and> acks_settled env (gw_log g))"

text \<open>What one call of \<open>processEntry\<close> writes to the log.\<close>

fun outcome_actions :: "XMessage \<Rightarrow> entry_outcome \<Rightarrow> action list" where
  "outcome_actions e (Handled i) = [HandledEvent i, AckedEntry e]"
| "outcome_actions e (HandlerFailed i err) = []"
| "outcome_actions e _ = [AckedEntry e]"

text \<open>
  A server for closed examples. Its world is the time since the entry was delivered: the entry
  stays unacknowledged while its handler runs, and a claim, which comes at every
  \<open>ClaimInterval\<close>, returns it once it has been idle for \<open>ClaimMinIdle\<close>.
\<close>

definition race_env :: "duration stream_env" where
  "race_env =
     \<lparr>se_XGroupCreateMkStream = (\<lambda>_ _ _ w. (None, w)),
      se_XReadGroup = (\<lambda>_ w. (Inr [[demo_entry ''1-0'' ''a'']], 0)),
      se_XAutoClaim = (\<lambda>cfg w.
        (Inr (if cc_ClaimMinIdle cfg \<le> w + cc_ClaimInterval cfg then [demo_entry ''1-0'' ''a''] else []),
         w + cc_ClaimInterval cfg)),
      se_XAck = (\<lambda>_ _ _ w. (None, w)), se_handler = (\<lambda>_ w. (None, w)),
      se_runtime =
        \<lparr>rt_Now = (\<lambda>w. (w, w)), rt_CtxErr = (\<lambda>_. None), rt_Wait = (\<lambda>_ w. (None, w)),
         rt_Float64 = (\<lambda>w. (Fin 0, w))\<rparr>,
      se_codec = demo_codec, se_quote = id\<rparr>"

section \<open>Interface: invariants of a transition system\<close>

locale invariant_system =
  fixes step :: "'s \<Rightarrow> 's \<Rightarrow> bool" and init :: "'s \<Rightarrow> bool" and inv :: "'s \<Rightarrow> bool"
  assumes inv_init: "init s \<Longrightarrow> inv s"
    and inv_step: "step s t \<Longrightarrow> inv s \<Longrightarrow> inv t"
begin

lemma inv_reachable: "step\<^sup>*\<^sup>* s t \<Longrightarrow> init s \<Longrightarrow> inv t"
  by (induction rule: rtranclp_induct) (auto intro: inv_init inv_step)

end

section \<open>Lemmas\<close>

lemma handled_append [simp]:
  "handled_events (hist @ as) = handled_events hist \<union> handled_events as"
  "handled_events [] = {}" "handled_events [AckedEntry e] = {}" "handled_events [HandledEvent i] = {i}"
  by (auto simp: handled_events_def)

lemma settled_mono: "settled env H e \<Longrightarrow> H \<subseteq> H' \<Longrightarrow> settled env H' e"
  by (fastforce simp: settled_def split: sum.splits)

lemma worker_ok_mono: "worker_ok env H t \<Longrightarrow> H \<subseteq> H' \<Longrightarrow> worker_ok env H' t"
  by (cases t) (auto intro: settled_mono)

lemma acks_settled_Nil [simp]: "acks_settled env []"
  by (simp add: acks_settled_def)

lemma acks_settled_handled: "acks_settled env hist \<Longrightarrow> acks_settled env (hist @ [HandledEvent i])"
  by (auto simp: acks_settled_def nth_append less_Suc_eq)

lemma acks_settled_acked:
  "acks_settled env hist \<Longrightarrow> settled env (handled_events hist) e \<Longrightarrow> acks_settled env (hist @ [AckedEntry e])"
  by (auto simp: acks_settled_def nth_append less_Suc_eq)

lemma markSeen_keys: "fst ` set (co_seen (markSeen i c)) \<subseteq> insert i (fst ` set (co_seen c))"
  by (simp add: markSeen_def Let_def gm_keys_put)

lemma duplicate_seen: "isDuplicate i c \<Longrightarrow> i \<in> fst ` set (co_seen c)"
  by (simp add: isDuplicate_def gm_get_None_iff)

text \<open>A step of one goroutine, seen from the shared state and the log.\<close>

lemma work_inv:
  assumes "work env t c w as t' c' w'"
    and "seen_inv c" and "fst ` set (co_seen c) \<subseteq> handled_events hist" and "acks_settled env hist"
    and "worker_ok env (handled_events hist) t"
  shows "seen_inv c' \<and> fst ` set (co_seen c') \<subseteq> handled_events (hist @ as) \<and> acks_settled env (hist @ as) \<and>
    worker_ok env (handled_events (hist @ as)) t'"
  using assms
proof (cases rule: work.cases)
  case (malformed now e err es)
  then show ?thesis using assms(2-4) by (auto simp: settled_def seen_inv_def intro!: exI [of _ now])
next
  case (duplicate now e ev es)
  then have "ev_EventID ev \<in> handled_events hist" using assms(3) duplicate_seen by blast
  then show ?thesis using duplicate assms(2-4) by (auto simp: settled_def intro!: exI [of _ now])
next
  case (mark e ev es)
  then obtain now where ev: "parseEntry (se_codec env) now e = Inr ev" "ev_EventID ev \<in> handled_events hist"
    using assms(5) by (simp only: worker_ok.simps) blast
  have "settled env (handled_events hist) e"
    unfolding settled_def using ev by (intro exI [of _ now]) simp
  moreover have "fst ` set (co_seen (markSeen (ev_EventID ev) c)) \<subseteq> handled_events hist"
    by (rule order_trans [OF markSeen_keys]) (use assms(3) ev(2) in simp)
  moreover have "seen_inv (markSeen (ev_EventID ev) c)" using assms(2) by (rule markSeen_inv)
  ultimately show ?thesis using mark assms(4) by (simp add: seen_inv_def)
qed (auto simp: settled_def seen_inv_def acks_settled_handled acks_settled_acked)

lemma handleReadError_seen: "co_seen (fst (snd (handleReadError env err c w))) = co_seen c"
  by (auto simp: handleReadError_def Let_def split: option.splits prod.splits)

lemma reader_step_inv:
  assumes "reader_step env g g'" and "gateway_inv env g"
  shows "gateway_inv env g'"
  using assms
proof (cases rule: reader_step.cases)
  case (reader_works as t c w)
  from work_inv [OF reader_works(2), of "gw_log g"] assms(2) reader_works(1) show ?thesis
    by (auto simp: gateway_inv_def Let_def intro: worker_ok_mono)
next
  case (reader_retries err w c w1)
  then have "co_seen c = co_seen (gw_consumer g)" using handleReadError_seen [of env err "gw_consumer g" w] by simp
  with reader_retries assms(2) show ?thesis by (simp add: gateway_inv_def seen_inv_def Let_def)
next
  case (reader_gives_up err w e c w1)
  then have "co_seen c = co_seen (gw_consumer g)" using handleReadError_seen [of env err "gw_consumer g" w] by simp
  with reader_gives_up assms(2) show ?thesis by (simp add: gateway_inv_def seen_inv_def Let_def)
qed (auto simp: gateway_inv_def seen_inv_def Let_def)

lemma claimer_step_inv:
  assumes "claimer_step env g g'" and "gateway_inv env g"
  shows "gateway_inv env g'"
  using assms
proof (cases rule: claimer_step.cases)
  case (claimer_works as t c w)
  from work_inv [OF claimer_works(2), of "gw_log g"] assms(2) claimer_works(1) show ?thesis
    by (auto simp: gateway_inv_def Let_def intro: worker_ok_mono)
qed (auto simp: gateway_inv_def seen_inv_def Let_def)

lemma gateway_start_inv: "gateway_inv env (gateway_start (NewConsumer cfg) w)"
  by (simp add: gateway_inv_def gateway_start_def NewConsumer_def seen_inv_def)

interpretation gw: invariant_system "gstep env" "\<lambda>g. \<exists>cfg w. g = gateway_start (NewConsumer cfg) w" "gateway_inv env"
  for env
  by unfold_locales (auto intro: gateway_start_inv elim!: gstep.cases dest: reader_step_inv claimer_step_inv)

text \<open>Every step of a goroutine brings its batch nearer to the end.\<close>

fun work_left :: "worker \<Rightarrow> nat" where
  "work_left (Ready es) = 4 * length es"
| "work_left (ToHandle e ev es) = 4 * length es + 3"
| "work_left (ToMark e ev es) = 4 * length es + 2"
| "work_left (ToAck e es) = 4 * length es + 1"
| "work_left Stopped = 0"

lemma work_less: "work env t c w as t' c' w' \<Longrightarrow> work_left t' < work_left t"
  by (induction rule: work.induct) simp_all

lemma works_le: "works env t c w as t' c' w' \<Longrightarrow> work_left t' \<le> work_left t"
  by (induction rule: works.induct) (auto dest: work_less)

lemma works_same: "works env t c w as t c' w' \<Longrightarrow> as = [] \<and> c' = c \<and> w' = w"
  by (cases rule: works.cases) (auto dest!: work_less works_le)

lemma work_deterministic:
  assumes "work env t c w as1 t1 c1 w1" and "work env t c w as2 t2 c2 w2"
  shows "as2 = as1 \<and> t2 = t1 \<and> c2 = c1 \<and> w2 = w1"
  using assms by (cases rule: work.cases) (auto elim!: work_ReadyE work_ToHandleE work_ToMarkE work_ToAckE)

lemma works_first:
  assumes "work env t c w as1 t1 c1 w1" and "t' \<noteq> t"
  shows "works env t c w as t' c' w' \<longleftrightarrow> (\<exists>bs. as = as1 @ bs \<and> works env t1 c1 w1 bs t' c' w')"
proof
  assume "works env t c w as t' c' w'"
  then show "\<exists>bs. as = as1 @ bs \<and> works env t1 c1 w1 bs t' c' w'"
    using assms by (cases rule: works.cases) (auto dest: work_deterministic [OF assms(1)])
qed (auto intro: works_step [OF assms(1)])

text \<open>A goroutine alone with one entry: from each place to the end of the entry.\<close>

lemma works_Ready: "works env (Ready es) c w as (Ready es) c' w' \<longleftrightarrow> as = [] \<and> c' = c \<and> w' = w"
  using works_same works_refl by metis

lemma works_ToAck:
  "works env (ToAck e es) c w as (Ready es) c' w' \<longleftrightarrow> as = [AckedEntry e] \<and> c' = c \<and> w' = ack env c (xm_ID e) w"
  by (subst works_first [OF work.acknowledge]) (auto simp: works_Ready)

lemma works_ToMark:
  "works env (ToMark e ev es) c w as (Ready es) c' w' \<longleftrightarrow>
     as = [AckedEntry e] \<and> c' = consumer_inc ''realtime_events_consumed_total'' (markSeen (ev_EventID ev) c) \<and>
     w' = ack env c' (xm_ID e) w"
  by (subst works_first [OF work.mark]) (auto simp: works_ToAck)

lemma works_ToHandle:
  "works env (ToHandle e ev es) c w as (Ready es) c' w' \<longleftrightarrow>
     (case se_handler env \<lparr>sm_StreamID = xm_ID e, sm_Event = ev\<rparr> w of
        (Some err, w1) \<Rightarrow> as = [] \<and> c' = c \<and> w' = w1
      | (None, w1) \<Rightarrow>
          as = [HandledEvent (ev_EventID ev), AckedEntry e] \<and>
          c' = consumer_inc ''realtime_events_consumed_total'' (markSeen (ev_EventID ev) c) \<and>
          w' = ack env c' (xm_ID e) w1)"
proof (cases "se_handler env \<lparr>sm_StreamID = xm_ID e, sm_Event = ev\<rparr> w")
  case (Pair r w1)
  then show ?thesis
  proof (cases r)
    case None
    then show ?thesis using Pair by (subst works_first [OF work.handled]) (auto simp: works_ToMark)
  next
    case (Some err)
    then show ?thesis using Pair by (subst works_first [OF work.handler_failed]) (auto simp: works_Ready)
  qed
qed

lemma ack_inc [simp]: "ack env (consumer_inc n c) i w = ack env c i w"
  by (simp add: ack_def)

lemma works_entry:
  "works env (Ready ((now, e) # es)) c w as (Ready es) c' w' \<longleftrightarrow>
     (\<exists>out. processEntry env now e c w = (out, c', w') \<and> as = outcome_actions e out)"
proof (cases "parseEntry (se_codec env) now e")
  case (Inl err)
  then show ?thesis by (subst works_first [OF work.malformed]) (auto simp: works_ToAck processEntry_def)
next
  case (Inr ev)
  show ?thesis
  proof (cases "isDuplicate (ev_EventID ev) c")
    case True
    with Inr show ?thesis by (subst works_first [OF work.duplicate]) (auto simp: works_ToAck processEntry_def)
  next
    case False
    with Inr show ?thesis
      by (subst works_first [OF work.fresh])
        (auto simp: works_ToHandle processEntry_def Let_def split: prod.splits option.splits)
  qed
qed

lemma reader_runs:
  "works env r c w as r' c' w' \<Longrightarrow> r = gw_reader g \<Longrightarrow> c = gw_consumer g \<Longrightarrow> w = gw_world g \<Longrightarrow>
   (gstep env)\<^sup>*\<^sup>* g (g\<lparr>gw_consumer := c', gw_world := w', gw_reader := r', gw_log := gw_log g @ as\<rparr>)"
proof (induction arbitrary: g rule: works.induct)
  case (works_step t c w as t1 c1 w1 bs t2 c2 w2)
  let ?g = "g\<lparr>gw_consumer := c1, gw_world := w1, gw_reader := t1, gw_log := gw_log g @ as\<rparr>"
  have "gstep env g ?g" using works_step by (intro gstep.by_reader reader_step.reader_works) simp
  moreover have "(gstep env)\<^sup>*\<^sup>* ?g (?g\<lparr>gw_consumer := c2, gw_world := w2, gw_reader := t2, gw_log := gw_log ?g @ bs\<rparr>)"
    by (rule works_step.IH) simp_all
  ultimately show ?case by (simp add: converse_rtranclp_into_rtranclp)
qed simp

text \<open>The steps of the example.\<close>

lemma race_parse: "parseEntry (se_codec race_env) 0 (demo_entry ''1-0'' ''a'') = Inr (demo_event ''a'')"
  by (simp add: parseEntry_def string_field_def parseDataField_def race_env_def demo_entry_def ParseEvent_def
      demo_codec_def demo_event_def validated_def PriceEvent_Validate_def gm_get_def)

lemma race_handler: "se_handler race_env m w = (None, w)"
  by (simp add: race_env_def)

lemma race_work:
  assumes "\<not> isDuplicate (ev_EventID (demo_event ''a'')) c"
  shows "work race_env (Ready [(0, demo_entry ''1-0'' ''a'')]) c w []
      (ToHandle (demo_entry ''1-0'' ''a'') (demo_event ''a'') []) c w"
    and "work race_env (ToHandle (demo_entry ''1-0'' ''a'') (demo_event ''a'') []) c w
      [HandledEvent (ev_EventID (demo_event ''a''))] (ToMark (demo_entry ''1-0'' ''a'') (demo_event ''a'') []) c w"
  using assms by (auto intro!: work.fresh [OF race_parse] work.handled simp: race_handler)

lemma race_read:
  fixes g :: "duration gateway"
  assumes "gw_reader g = Ready []"
  shows "gstep race_env g (g\<lparr>gw_world := 0, gw_reader := Ready [(0, demo_entry ''1-0'' ''a'')]\<rparr>)"
  by (rule gstep.by_reader, rule reader_step.reader_reads [OF assms, of race_env "[[demo_entry ''1-0'' ''a'']]"])
    (simp_all add: race_env_def)

lemma race_lone_reader:
  "\<exists>g. (gstep race_env)\<^sup>*\<^sup>* (gateway_start (NewConsumer DefaultConsumerConfig) 0) g \<and>
     gw_log g = [HandledEvent (ev_EventID (demo_event ''a'')), AckedEntry (demo_entry ''1-0'' ''a'')]"
proof -
  let ?g0 = "gateway_start (NewConsumer DefaultConsumerConfig) (0 :: duration)" and ?e = "demo_entry ''1-0'' ''a''"
  let ?g1 = "?g0\<lparr>gw_world := 0, gw_reader := Ready [(0, ?e)]\<rparr>"
  have "gstep race_env ?g0 ?g1" by (rule race_read) (simp add: gateway_start_def)
  moreover obtain c' w' where "processEntry race_env 0 ?e (gw_consumer ?g1) (gw_world ?g1) =
      (Handled (ev_EventID (demo_event ''a'')), c', w')"
    by (auto simp: processEntry_def race_parse race_handler isDuplicate_def gateway_start_def NewConsumer_def
        gm_get_def Let_def)
  then have "works race_env (Ready [(0, ?e)]) (gw_consumer ?g1) (gw_world ?g1)
      [HandledEvent (ev_EventID (demo_event ''a'')), AckedEntry ?e] (Ready []) c' w'"
    by (subst works_entry) auto
  from reader_runs [OF this, of ?g1]
  have "(gstep race_env)\<^sup>*\<^sup>* ?g1 (?g1\<lparr>gw_consumer := c', gw_world := w', gw_reader := Ready [],
      gw_log := [HandledEvent (ev_EventID (demo_event ''a'')), AckedEntry ?e]\<rparr>)"
    by (simp add: gateway_start_def)
  ultimately show ?thesis
    by (intro exI conjI) (rule converse_rtranclp_into_rtranclp, assumption, assumption, simp)
qed

section \<open>Properties\<close>

text \<open>
  C13: No event is lost, however the two goroutines interleave: when an entry is acknowledged, it is
  malformed or its event has been handled without an error before. And the set of seen
  identifiers stays within its bound.
\<close>

theorem consumer_loses_nothing:
  assumes "(gstep env)\<^sup>*\<^sup>* (gateway_start (NewConsumer cfg) w) g"
  shows "acks_settled env (gw_log g) \<and> length (co_seen (gw_consumer g)) \<le> 10000"
  using gw.inv_reachable [OF assms] by (auto simp: gateway_inv_def seen_inv_def Let_def)

theorem consumer_loses_nothing_witness:
  "acks_settled race_env [HandledEvent (ev_EventID (demo_event ''a'')), AckedEntry (demo_entry ''1-0'' ''a'')]"
proof -
  obtain g where g: "(gstep race_env)\<^sup>*\<^sup>* (gateway_start (NewConsumer DefaultConsumerConfig) 0) g"
      "gw_log g = [HandledEvent (ev_EventID (demo_event ''a'')), AckedEntry (demo_entry ''1-0'' ''a'')]"
    using race_lone_reader by blast
  from consumer_loses_nothing [OF g(1)] g(2) show ?thesis by simp
qed

text \<open>
  Without interruption the pieces add up to \<open>processEntry\<close>: a goroutine that runs through one
  entry ends with exactly the state, the handled event and the acknowledgement of that call.
\<close>

theorem pieces_refine_processEntry:
  "works env (Ready ((now, e) # es)) c w as (Ready es) c' w' \<longleftrightarrow>
     (\<exists>out. processEntry env now e c w = (out, c', w') \<and> as = outcome_actions e out)"
  by (rule works_entry)

text \<open>
  C37: But an event can be handled twice: \<open>processEntry\<close> looks up the identifier and marks it in two
  separate sections, with the handler in between. With the default configuration, an entry whose
  handler takes longer than \<open>ClaimMinIdle\<close> is claimed by the other goroutine, passes the
  duplicate check and is handled again.
\<close>

theorem concurrent_duplicate:
  "\<exists>g. (gstep race_env)\<^sup>*\<^sup>* (gateway_start (NewConsumer DefaultConsumerConfig) 0) g \<and>
     gw_log g = [HandledEvent (ev_EventID (demo_event ''a'')), HandledEvent (ev_EventID (demo_event ''a''))]"
proof -
  let ?e = "demo_entry ''1-0'' ''a''" and ?h = "HandledEvent (ev_EventID (demo_event ''a''))"
  let ?batch = "Ready [(0, ?e)]" and ?busy = "ToHandle ?e (demo_event ''a'') []"
    and ?done = "ToMark ?e (demo_event ''a'') []"
  define c where "c = (NewConsumer DefaultConsumerConfig)\<lparr>co_running := True\<rparr>"
  have c: "co_cfg c = DefaultConsumerConfig" "\<not> isDuplicate (ev_EventID (demo_event ''a'')) c"
    by (simp_all add: c_def NewConsumer_def isDuplicate_def gm_get_def)
  define G where "G r cl w hist =
      \<lparr>gw_consumer = c, gw_world = w, gw_reader = r, gw_claimer = cl, gw_log = hist\<rparr>"
    for r cl and w :: duration and hist
  note W = race_work [OF c(2)]
  have start: "gateway_start (NewConsumer DefaultConsumerConfig) 0 = G (Ready []) (Ready []) 0 []"
    by (simp add: gateway_start_def G_def c_def)
  have read: "gstep race_env (G (Ready []) (Ready []) 0 []) (G ?batch (Ready []) 0 [])"
    using race_read [of "G (Ready []) (Ready []) 0 []"] by (simp add: G_def)
  have claim: "gstep race_env (G r (Ready []) w hist)
      (G r (Ready (map (Pair 0) (if 60 * second \<le> w + 30 * second then [?e] else []))) (w + 30 * second) hist)" for r w hist
    using gstep.by_claimer [OF claimer_step.claimer_claims [of "G r (Ready []) w hist" race_env
        "if 60 * second \<le> w + 30 * second then [?e] else []" "w + 30 * second"
        "map (Pair 0) (if 60 * second \<le> w + 30 * second then [?e] else [])"]]
    by (simp add: G_def race_env_def c(1) DefaultConsumerConfig_def o_def)
  have reader: "work race_env r c w as r' c w \<Longrightarrow> gstep race_env (G r cl w hist) (G r' cl w (hist @ as))" for r cl w hist as r'
    using gstep.by_reader [OF reader_step.reader_works [of race_env "G r cl w hist" as r' c w]] by (simp add: G_def)
  have claimer: "work race_env cl c w as cl' c w \<Longrightarrow> gstep race_env (G r cl w hist) (G r cl' w (hist @ as))" for r cl w hist as cl'
    using gstep.by_claimer [OF claimer_step.claimer_works [of race_env "G r cl w hist" as cl' c w]] by (simp add: G_def)
  have "gstep race_env (G ?batch (Ready []) 0 []) (G ?busy (Ready []) 0 [])"
    using reader [OF W(1)] by simp
  moreover have "gstep race_env (G ?busy (Ready []) 0 []) (G ?busy (Ready []) (30 * second) [])"
    "gstep race_env (G ?busy (Ready []) (30 * second) []) (G ?busy ?batch (60 * second) [])"
    using claim [of ?busy 0 "[]"] claim [of ?busy "30 * second" "[]"] by (simp_all add: second_def)
  moreover have "gstep race_env (G ?busy ?batch (60 * second) []) (G ?busy ?busy (60 * second) [])"
    using claimer [OF W(1)] by simp
  moreover have "gstep race_env (G ?busy ?busy (60 * second) []) (G ?done ?busy (60 * second) [?h])"
    "gstep race_env (G ?done ?busy (60 * second) [?h]) (G ?done ?done (60 * second) [?h, ?h])"
    using reader [OF W(2), of ?busy "60 * second" "[]"] claimer [OF W(2), of ?done "60 * second" "[?h]"] by simp_all
  ultimately have "(gstep race_env)\<^sup>*\<^sup>* (G (Ready []) (Ready []) 0 []) (G ?done ?done (60 * second) [?h, ?h])"
    using read by (meson r_into_rtranclp rtranclp_trans)
  then show ?thesis unfolding start by (intro exI conjI) (assumption, simp add: G_def)
qed

end
