(* ===== verification/Gateway.thy ===== *)
theory Gateway
  imports Realtime_Server Consumer_Concurrency Config
begin

text \<open>
  The realtime gateway as a whole: the stream consumer with the server's \<open>HandleEvent\<close> as its
  handler (\<open>cmd/realtime/main.go\<close>), the routes of the server, and what a connected client
  ends up with.

  The consumer's world is the server together with the world outside. A broadcast that blocks
  does not return (\<open>Subscriber\<close>); its entry stays unacknowledged, as it does after an error,
  which is what \<open>gateway_handler\<close> returns for it. The properties show when this cannot
  happen.
\<close>

section \<open>Consumer and server\<close>

definition on_world :: "('w \<Rightarrow> 'a \<times> 'w) \<Rightarrow> 's \<times> 'w \<Rightarrow> 'a \<times> ('s \<times> 'w)" where
  "on_world f sw = (case f (snd sw) of (x, w1) \<Rightarrow> (x, (fst sw, w1)))"

definition gateway_runtime :: "'w runtime \<Rightarrow> ('s \<times> 'w) runtime" where
  "gateway_runtime rt =
     \<lparr>rt_Now = on_world (rt_Now rt), rt_CtxErr = (\<lambda>sw. rt_CtxErr rt (snd sw)),
      rt_Wait = (\<lambda>d. on_world (rt_Wait rt d)), rt_Float64 = on_world (rt_Float64 rt)\<rparr>"

definition gateway_handler ::
    "map_order \<Rightarrow> StreamMessage \<Rightarrow> Server \<times> 'w \<Rightarrow> go_error option \<times> (Server \<times> 'w)" where
  "gateway_handler order msg sw =
     (case HandleEvent order msg (fst sw) of
        None \<Rightarrow> (Some (ErrorString ''blocked''), sw)
      | Some (err, srv) \<Rightarrow> (err, (srv, snd sw)))"

text \<open>The consumer's environment: Redis, clock and codec of \<open>env\<close>, and the server's handler.\<close>

definition gateway_env :: "map_order \<Rightarrow> 'w stream_env \<Rightarrow> (Server \<times> 'w) stream_env" where
  "gateway_env order env =
     \<lparr>se_XGroupCreateMkStream = (\<lambda>k g s. on_world (se_XGroupCreateMkStream env k g s)),
      se_XReadGroup = (\<lambda>cfg. on_world (se_XReadGroup env cfg)),
      se_XAutoClaim = (\<lambda>cfg. on_world (se_XAutoClaim env cfg)),
      se_XAck = (\<lambda>k g i. on_world (se_XAck env k g i)),
      se_handler = gateway_handler order,
      se_runtime = gateway_runtime (se_runtime env), se_codec = se_codec env, se_quote = se_quote env\<rparr>"

section \<open>Start\<close>

text \<open>
  \<open>main\<close> up to the point where the goroutines start: the configuration, a ping of Redis, hub,
  server, consumer and the consumer group. The ping and the creation of the group have their
  own deadlines; \<open>Inl\<close> is the reason for exit code 1.
\<close>

datatype exit_reason = ConfigurationError config_error | RedisUnreachable go_error | NoConsumerGroup go_error

record realtime_gateway =
  rg_config :: Config
  rg_consumer :: Consumer
  rg_server :: Server

definition realtime_main ::
    "environment \<Rightarrow> (Config \<Rightarrow> 'w redis_client) \<Rightarrow> (Config \<Rightarrow> 'w stream_env) \<Rightarrow> map_order \<Rightarrow> 'w
       \<Rightarrow> (exit_reason + realtime_gateway) \<times> 'w" where
  "realtime_main osenv redisClient streams order w =
     (case Load osenv of
        Inl err \<Rightarrow> (Inl (ConfigurationError err), w)
      | Inr cfg \<Rightarrow>
          (case rc_Ping (redisClient cfg) w of
             (Some err, w1) \<Rightarrow> (Inl (RedisUnreachable err), w1)
           | (None, w1) \<Rightarrow>
               (let hub = NewHub DefaultHubConfig;
                    server = NewServer hub;
                    consumer = NewConsumer DefaultConsumerConfig
                in case EnsureGroup (gateway_env order (streams cfg)) consumer (server, w1) of
                     (Some err, sw) \<Rightarrow> (Inl (NoConsumerGroup err), snd sw)
                   | (None, sw) \<Rightarrow>
                       (Inr \<lparr>rg_config = cfg, rg_consumer = consumer, rg_server = server\<rparr>, snd sw))))"

section \<open>Routes\<close>

text \<open>
  The router of chi is a parameter: the index of the route a method and path match, its answer
  when there is none, and the handler of promhttp.
\<close>

datatype endpoint = EpHealth | EpReady | EpEventsMarkets | EpMetrics

definition realtime_routes :: "(string \<times> string \<times> endpoint) list" where
  "realtime_routes =
     [(''GET'', ''/health'', EpHealth), (''GET'', ''/ready'', EpReady),
      (''GET'', ''/events/markets'', EpEventsMarkets), (''GET'', ''/metrics'', EpMetrics)]"

record 'w route_env =
  re_Match :: "(string \<times> string) list \<Rightarrow> string \<Rightarrow> string \<Rightarrow> nat option"
  re_Unmatched :: http_reply
  re_Metrics :: "'w \<Rightarrow> http_reply \<times> 'w"
  re_Write :: "string \<Rightarrow> 'w \<Rightarrow> go_error option \<times> 'w"

definition Router ::
    "'w route_env \<Rightarrow> 'w redis_client \<Rightarrow> sse_case list \<Rightarrow> string \<Rightarrow> string \<Rightarrow> string \<Rightarrow> Server \<Rightarrow> 'w
       \<Rightarrow> (http_reply option \<times> Server \<times> 'w) option" where
  "Router re rc choices meth path lastEventID srv w =
     (case re_Match re (map (\<lambda>(m, p, e). (m, p)) realtime_routes) meth path of
        None \<Rightarrow> Some (Some (re_Unmatched re), srv, w)
      | Some i \<Rightarrow>
          if length realtime_routes \<le> i then Some (Some (re_Unmatched re), srv, w)
          else case snd (snd (realtime_routes ! i)) of
                 EpHealth \<Rightarrow> Some (Some Health, srv, w)
               | EpReady \<Rightarrow> (case Realtime_Server.Ready rc w of (reply, w1) \<Rightarrow> Some (Some reply, srv, w1))
               | EpEventsMarkets \<Rightarrow> EventsMarkets rc (re_Write re) choices lastEventID srv w
               | EpMetrics \<Rightarrow> (case re_Metrics re w of (reply, w1) \<Rightarrow> Some (Some reply, srv, w1)))"

section \<open>Specification\<close>

text \<open>Every event in a buffer of the hub has one of the given symbols.\<close>

definition hub_symbols :: "string set \<Rightarrow> Hub \<Rightarrow> bool" where
  "hub_symbols S h \<longleftrightarrow> (\<forall>x \<in> set (hub_clients h). \<forall>e \<in> set (cl_events (snd x)). ev_Symbol e \<in> S)"

text \<open>The symbols fit into a client's buffer.\<close>

definition roomy :: "string set \<Rightarrow> Hub \<Rightarrow> bool" where
  "roomy S h \<longleftrightarrow> finite S \<and> int (card S) \<le> hc_ClientBuffer (hub_cfg h)"

definition gateway_ok :: "string set \<Rightarrow> Hub \<Rightarrow> bool" where
  "gateway_ok S h \<longleftrightarrow> hub_inv h \<and> hub_symbols S h \<and> roomy S h"

fun op_symbols :: "string set \<Rightarrow> hub_op \<Rightarrow> bool" where
  "op_symbols S (BroadcastOp order e) = (ev_Symbol e \<in> S)"
| "op_symbols S (ReplayOp i e) = (ev_Symbol e \<in> S)"
| "op_symbols S _ = True"

text \<open>What the client \<open>i\<close> has taken out of its buffer, beside the hub.\<close>

definition buffered :: "string \<Rightarrow> Hub \<Rightarrow> PriceEvent list" where
  "buffered i h = (case gm_get (hub_clients h) i of None \<Rightarrow> [] | Some c \<Rightarrow> cl_events c)"

fun observe :: "string \<Rightarrow> hub_op \<Rightarrow> Hub \<times> PriceEvent list \<Rightarrow> Hub \<times> PriceEvent list" where
  "observe i (ReceiveOp j) (h, got) =
     (hub_step (ReceiveOp j) h, if j = i then got @ take 1 (buffered i h) else got)"
| "observe i x (h, got) = (hub_step x h, got)"

fun broadcast_event :: "hub_op \<Rightarrow> PriceEvent option" where
  "broadcast_event (BroadcastOp order e) = Some e"
| "broadcast_event _ = None"

definition broadcasts :: "hub_op list \<Rightarrow> PriceEvent list" where
  "broadcasts ops = List.map_filter broadcast_event ops"

fun replays_to :: "string \<Rightarrow> hub_op \<Rightarrow> bool" where
  "replays_to i (ReplayOp j e) = (j = i)"
| "replays_to i _ = False"

definition issued :: "string \<Rightarrow> Hub \<Rightarrow> bool" where
  "issued i h \<longleftrightarrow> (\<exists>k. 0 < k \<and> k \<le> hub_nextID h \<and> i = formatClientID k)"

definition up_to_date :: "string \<Rightarrow> Hub \<Rightarrow> PriceEvent list \<Rightarrow> PriceEvent list \<Rightarrow> bool" where
  "up_to_date i h got evs \<longleftrightarrow>
     (\<forall>c. gm_get (hub_clients h) i = Some c \<longrightarrow>
        (\<forall>s. latest_of (got @ cl_events c) s = latest_of evs s))"

text \<open>
  What is relied on: UUIDs are not empty and well-formed; and what makes the group usable: it was
  created, or it exists already.
\<close>

definition uuid_source :: "'w redis_client \<Rightarrow> bool" where
  "uuid_source rc \<longleftrightarrow> (\<forall>w. fst (rc_NewUUID rc w) \<noteq> '''' \<and> utf8_ValidString (fst (rc_NewUUID rc w)))"

definition group_ready :: "'w stream_env \<Rightarrow> 'w \<Rightarrow> bool" where
  "group_ready env w \<longleftrightarrow>
     (case fst (se_XGroupCreateMkStream env ''market:events'' ''realtime-gateway'' ''0'' w) of
        None \<Rightarrow> True
      | Some err \<Rightarrow> error_text (se_quote env) err = ''BUSYGROUP Consumer Group name already exists'')"

text \<open>For closed examples: a server with one client, a Redis without entries, and exact routes.\<close>

definition demo_server :: Server where
  "demo_server = NewServer (hub_step SubscribeOp (NewHub DefaultHubConfig))"

definition demo_redis :: "kv_world stream_env" where
  "demo_redis =
     \<lparr>se_XGroupCreateMkStream = (\<lambda>_ _ _ w. (None, w)),
      se_XReadGroup = (\<lambda>_ w. (Inr [], w)), se_XAutoClaim = (\<lambda>_ w. (Inr [], w)),
      se_XAck = (\<lambda>_ _ i w. (None, w)), se_handler = (\<lambda>m w. (None, w)),
      se_runtime =
        \<lparr>rt_Now = (\<lambda>w. (0, w)), rt_CtxErr = (\<lambda>_. None), rt_Wait = (\<lambda>_ w. (None, w)),
         rt_Float64 = (\<lambda>w. (Fin 0, w))\<rparr>,
      se_codec = plain_codec, se_quote = id\<rparr>"

definition demo_routes :: "'w route_env" where
  "demo_routes =
     \<lparr>re_Match = (\<lambda>rs meth path. List.find (\<lambda>i. rs ! i = (meth, path)) [0..<length rs]),
      re_Unmatched = http_Error ''404 page not found'' 404,
      re_Metrics = (\<lambda>w. (http_Error ''no metrics'' 500, w)), re_Write = (\<lambda>text w. (None, w))\<rparr>"

section \<open>Lemmas\<close>

lemma latest_of_append:
  "latest_of (xs @ ys) s = (case latest_of ys s of None \<Rightarrow> latest_of xs s | Some e \<Rightarrow> Some e)"
  by (induction ys rule: rev_induct) (simp_all add: latest_of_snoc append_assoc [symmetric] del: append_assoc,
      simp add: latest_of_def)

lemma Client_send_symbols:
  assumes "is_order order" and "Client_send order e c = Some (sent, c')"
  shows "ev_Symbol ` set (cl_events c') \<subseteq> insert (ev_Symbol e) (ev_Symbol ` set (cl_events c))"
proof -
  let ?new = "drain_latest (cl_events c @ [e])"
  have "set (order ?new) = set ?new" using assms(1) by (simp add: is_order_def)
  then have "ev_Symbol ` set (map snd (order ?new)) \<subseteq> fst ` set ?new"
    using drain_latest_symbol by force
  then have "ev_Symbol ` set (map snd (order ?new)) \<subseteq> insert (ev_Symbol e) (ev_Symbol ` set (cl_events c))"
    unfolding drain_latest_keys by simp
  moreover have "cl_events c' = cl_events c \<or> cl_events c' = cl_events c @ [e] \<or> cl_events c' = map snd (order ?new)"
    using assms(2) by (auto simp: Client_send_def Let_def drain_latest_snoc [symmetric] split: if_splits)
  ultimately show ?thesis by (elim disjE) auto
qed

lemma Client_send_completes:
  assumes "client_inv c" and "\<not> cl_closed c" and "finite S" and "int (card S) \<le> cl_bufferSize c"
    and "insert (ev_Symbol e) (ev_Symbol ` set (cl_events c)) \<subseteq> S"
  shows "Client_send order e c \<noteq> None"
  using Client_send_blocks [OF assms(1,2), of order e] card_mono [OF assms(3,5)] assms(4) by auto

lemma Broadcast_loop_total:
  "\<forall>x \<in> set cs. Client_send order e (snd x) \<noteq> None \<Longrightarrow> Broadcast_loop order e cs m \<noteq> None"
  by (induction order e cs m rule: Broadcast_loop.induct) (auto split: option.splits prod.splits)

lemma Broadcast_loop_sends:
  "Broadcast_loop order e cs m = Some (cs', m') \<Longrightarrow>
     cs' = map (\<lambda>(i, c). (i, snd (the (Client_send order e c)))) cs \<and>
     (\<forall>x \<in> set cs. Client_send order e (snd x) \<noteq> None)"
  by (induction order e cs m arbitrary: cs' rule: Broadcast_loop.induct)
    (auto split: option.splits prod.splits)

lemma gm_get_map_snd: "gm_get (map (\<lambda>(i, c). (i, f c)) m) k = map_option f (gm_get m k)"
  by (induction m) (auto simp: gm_get_def)

lemma Broadcast_get:
  assumes "Broadcast order e h = Some h'"
  shows "gm_get (hub_clients h') i = map_option (\<lambda>c. snd (the (Client_send order e c))) (gm_get (hub_clients h) i)"
    and "x \<in> set (hub_clients h) \<Longrightarrow> Client_send order e (snd x) \<noteq> None"
    and "hub_cfg h' = hub_cfg h"
    and "hub_clients h' = map (\<lambda>(i, c). (i, snd (the (Client_send order e c)))) (hub_clients h)"
  using assms
  by (auto simp: Broadcast_def gm_get_map_snd dest!: Broadcast_loop_sends split: option.splits prod.splits)

lemma member_symbols:
  assumes "gateway_ok S h" and "x \<in> set (hub_clients h)"
  shows "client_inv (snd x)" "\<not> cl_closed (snd x)" "cl_bufferSize (snd x) = hc_ClientBuffer (hub_cfg h)"
    "\<forall>e \<in> set (cl_events (snd x)). ev_Symbol e \<in> S"
  using assms by (auto simp: gateway_ok_def hub_inv_def member_ok_def hub_symbols_def)

text \<open>A broadcast of one of the symbols completes.\<close>

lemma Broadcast_completes:
  assumes "gateway_ok S h" and "ev_Symbol e \<in> S"
  shows "\<exists>h'. Broadcast order e h = Some h'"
proof -
  have "Client_send order e (snd x) \<noteq> None" if "x \<in> set (hub_clients h)" for x
    using member_symbols [OF assms(1) that] assms
    by (intro Client_send_completes [where S = S]) (auto simp: gateway_ok_def roomy_def)
  then have "Broadcast_loop order e (hub_clients h) (hub_metrics h) \<noteq> None" by (intro Broadcast_loop_total) blast
  then show ?thesis by (auto simp: Broadcast_def)
qed

lemma Broadcast_symbols:
  assumes "is_order order" and "hub_symbols S h" and "ev_Symbol e \<in> S" and "Broadcast order e h = Some h'"
  shows "hub_symbols S h'"
proof -
  have "ev_Symbol ev \<in> S" if x: "x \<in> set (hub_clients h)"
    and ev: "ev \<in> set (cl_events (snd (the (Client_send order e (snd x)))))" for x ev
  proof -
    obtain sent c' where send: "Client_send order e (snd x) = Some (sent, c')"
      using Broadcast_get(2) [OF assms(4) x] by auto
    have "ev_Symbol ev \<in> insert (ev_Symbol e) (ev_Symbol ` set (cl_events (snd x)))"
      using Client_send_symbols [OF assms(1) send] ev send by auto
    with x assms(2,3) show ?thesis by (auto simp: hub_symbols_def)
  qed
  then show ?thesis by (auto simp: hub_symbols_def Broadcast_get(4) [OF assms(4)])
qed

lemma set_tl_member: "x \<in> set (tl xs) \<Longrightarrow> x \<in> set xs"
  by (cases xs) simp_all

lemma on_client_symbols:
  assumes "hub_symbols S h" and "\<And>c e. e \<in> set (cl_events (f c)) \<Longrightarrow> e \<in> set (cl_events c) \<or> ev_Symbol e \<in> S"
  shows "hub_symbols S (on_client i f h)"
proof (cases "gm_get (hub_clients h) i")
  case (Some c)
  note mem = gm_get_in_set [OF Some]
  have "ev_Symbol e \<in> S" if "x \<in> set (gm_put i (f c) (hub_clients h))" "e \<in> set (cl_events (snd x))" for x e
  proof (cases "x = (i, f c)")
    case True
    with that(2) assms(2) [of e c] mem assms(1) show ?thesis by (auto simp: hub_symbols_def)
  next
    case False
    with that(1) gm_set_put_subset [of i "f c" "hub_clients h"] have "x \<in> set (hub_clients h)" by auto
    with that(2) assms(1) show ?thesis by (auto simp: hub_symbols_def)
  qed
  with Some show ?thesis by (simp add: on_client_def hub_symbols_def)
qed (simp add: on_client_def assms(1))

lemma on_client_get:
  "gm_get (hub_clients (on_client i f h)) j = (if j = i then map_option f (gm_get (hub_clients h) j) else gm_get (hub_clients h) j)"
  "hub_cfg (on_client i f h) = hub_cfg h" "hub_nextID (on_client i f h) = hub_nextID h"
  by (simp_all add: on_client_def gm_simps split: option.split)

lemma Subscribe_frame:
  assumes "Subscribe h = Some (c, h')"
  shows "hub_cfg h' = hub_cfg h \<and>
    (hub_clients h' = hub_clients h \<and> hub_nextID h' = hub_nextID h \<or>
     (\<exists>cl. cl_events cl = [] \<and> hub_nextID h' = wrap64 (hub_nextID h + 1) \<and>
        hub_clients h' = gm_put (formatClientID (wrap64 (hub_nextID h + 1))) cl (hub_clients h)))"
proof (cases "hc_MaxClients (hub_cfg h) \<le> int (length (hub_clients h))")
  case False
  with assms obtain cl where "newClient (formatClientID (wrap64 (hub_nextID h + 1))) (hc_ClientBuffer (hub_cfg h)) = Some cl"
    "h' = set_active (h\<lparr>hub_nextID := wrap64 (hub_nextID h + 1),
       hub_clients := gm_put (formatClientID (wrap64 (hub_nextID h + 1))) cl (hub_clients h),
       hub_metrics := m_inc ''realtime_connections_total'' [] (hub_metrics h)\<rparr>)"
    by (auto simp: Subscribe_def Let_def split: option.splits)
  then show ?thesis by (intro conjI disjI2 exI [of _ cl]) (auto simp: set_active_def newClient_def split: if_splits)
qed (use assms in \<open>simp add: Subscribe_def\<close>)


text \<open>Every operation of the hub keeps the gateway in order, and its broadcasts complete.\<close>

lemma hub_step_ok:
  assumes "gateway_ok S h" and "is_int64 (hub_nextID h + 1)" and "op_order_ok x" and "op_symbols S x"
  shows "gateway_ok S (hub_step x h) \<and> hub_nextID (hub_step x h) \<le> hub_nextID h + 1 \<and> hub_cfg (hub_step x h) = hub_cfg h"
proof -
  have inv: "hub_inv (hub_step x h)" "hub_nextID (hub_step x h) \<le> hub_nextID h + 1"
    using hub_step_inv [of h x] assms by (auto simp: gateway_ok_def)
  have sym: "hub_symbols S h" using assms(1) by (simp add: gateway_ok_def)
  have cfg: "hub_cfg (hub_step x h) = hub_cfg h"
    by (cases x) (auto simp: on_client_get Unsubscribe_def set_active_def CloseAll_def Broadcast_get(3)
        dest: Subscribe_frame split: option.split)
  have "hub_symbols S (hub_step x h)"
  proof (cases x)
    case SubscribeOp
    have "hub_symbols S h'" if "Subscribe h = Some (c, h')" for c h'
    proof -
      from Subscribe_frame [OF that] consider "hub_clients h' = hub_clients h"
        | cl where "cl_events cl = []" "hub_clients h' = gm_put (formatClientID (wrap64 (hub_nextID h + 1))) cl (hub_clients h)"
        by blast
      then show ?thesis
      proof cases
        case 2
        with gm_set_put_subset [of "formatClientID (wrap64 (hub_nextID h + 1))" cl "hub_clients h"] sym
        show ?thesis unfolding hub_symbols_def by (metis empty_iff insertE list.set(1) snd_conv subsetD)
      qed (use sym in \<open>simp add: hub_symbols_def\<close>)
    qed
    with sym SubscribeOp show ?thesis by (auto split: option.split)
  next
    case (UnsubscribeOp c)
    with sym gm_set_del_subset [of "Client_ID c" "hub_clients h"] show ?thesis
      by (auto simp: Unsubscribe_def set_active_def hub_symbols_def)
  next
    case (BroadcastOp order e)
    with sym Broadcast_symbols [of order S h e] assms(3,4) show ?thesis by (auto split: option.split)
  next
    case (ReplayOp i e)
    with sym assms(4) show ?thesis by (auto simp: SendReplay_def intro!: on_client_symbols split: if_splits)
  next
    case (ReceiveOp i)
    with sym show ?thesis by (auto intro!: on_client_symbols dest: set_tl_member)
  qed (simp add: CloseAll_def hub_symbols_def)
  with inv cfg assms(1) show ?thesis by (simp add: gateway_ok_def roomy_def)
qed

lemma hub_run_ok:
  assumes "gateway_ok S h" and "hub_nextID h + int (length ops) < 2 ^ 63"
    and "list_all op_order_ok ops" and "list_all (op_symbols S) ops"
  shows "gateway_ok S (fold hub_step ops h)"
  using assms
proof (induction ops arbitrary: h)
  case (Cons x ops)
  have "is_int64 (hub_nextID h + 1)"
    using Cons.prems by (simp add: gateway_ok_def hub_inv_def is_int64_def)
  with Cons hub_step_ok [of S h x] show ?case by auto
qed simp


lemma broadcasts_simps [simp]:
  "broadcasts [] = []" "broadcasts (x # xs) = (case broadcast_event x of None \<Rightarrow> [] | Some e \<Rightarrow> [e]) @ broadcasts xs"
  by (simp_all add: broadcasts_def List.map_filter_simps split: option.split)

lemma issued_mono: "issued i h \<Longrightarrow> hub_nextID h \<le> hub_nextID h' \<Longrightarrow> issued i h'"
  by (force simp: issued_def)

lemma issued_not_fresh:
  assumes "issued i h" and "is_int64 (hub_nextID h + 1)" and "0 \<le> hub_nextID h"
  shows "i \<noteq> formatClientID (wrap64 (hub_nextID h + 1))"
proof
  assume eq: "i = formatClientID (wrap64 (hub_nextID h + 1))"
  from assms(1) obtain k where k: "0 < k" "k \<le> hub_nextID h" "i = formatClientID k" by (auto simp: issued_def)
  with eq assms(2,3) formatClientID_inj [of k "hub_nextID h + 1"] show False by simp
qed

lemma up_to_date_same:
  "up_to_date i h got evs \<Longrightarrow> (\<And>c. gm_get (hub_clients h') i = Some c \<Longrightarrow> gm_get (hub_clients h) i = Some c)
     \<Longrightarrow> up_to_date i h' got evs"
  by (simp add: up_to_date_def)

lemma up_to_date_broadcast:
  assumes "gateway_ok S h" and "is_order order" and "ev_Symbol e \<in> S" and "up_to_date i h got evs"
    and "Broadcast order e h = Some h'"
  shows "up_to_date i h' got (evs @ [e])"
  unfolding up_to_date_def
proof (intro allI impI)
  fix c' s assume "gm_get (hub_clients h') i = Some c'"
  then obtain c where c: "gm_get (hub_clients h) i = Some c" "c' = snd (the (Client_send order e c))"
    using Broadcast_get(1) [OF assms(5)] by auto
  note mem = gm_get_in_set [OF c(1)]
  obtain sent where send: "Client_send order e c = Some (sent, c')"
    using Broadcast_get(2) [OF assms(5) mem] c(2) by auto
  have c_ok: "client_inv c" "\<not> cl_closed c" using member_symbols [OF assms(1) mem] by simp_all
  from Client_send_spec [OF assms(2) c_ok(1) send] c_ok(2)
  have "latest_of (cl_events c') s = (if s = ev_Symbol e then Some e else latest_of (cl_events c) s)" by simp
  moreover have "latest_of (got @ cl_events c) s = latest_of evs s" using assms(4) c(1) by (simp add: up_to_date_def)
  ultimately show "latest_of (got @ cl_events c') s = latest_of (evs @ [e]) s"
    unfolding latest_of_snoc by (auto simp: latest_of_append)
qed

lemma observe_up_to_date:
  assumes "gateway_ok S h" and "is_int64 (hub_nextID h + 1)" and "op_order_ok x" and "op_symbols S x"
    and "\<not> replays_to i x" and "issued i h" and "up_to_date i h got evs"
    and "observe i x (h, got) = (h', got')"
  shows "h' = hub_step x h \<and> issued i h' \<and> up_to_date i h' got' (evs @ broadcasts [x])"
proof (cases x)
  case SubscribeOp
  have "0 \<le> hub_nextID h" using assms(1) by (simp add: gateway_ok_def hub_inv_def)
  from issued_not_fresh [OF assms(6,2) this]
  have "issued i h1 \<and> up_to_date i h1 got evs" if "Subscribe h = Some (c, h1)" for c h1
    using Subscribe_frame [OF that] assms(2,6,7) by (auto simp: gm_simps intro: issued_mono [OF assms(6)] up_to_date_same [OF assms(7)])
  with SubscribeOp assms(6-8) show ?thesis by (auto split: option.splits)
next
  case (UnsubscribeOp c)
  have "up_to_date i (hub_step x h) got evs"
    by (rule up_to_date_same [OF assms(7)])
      (auto simp: UnsubscribeOp Unsubscribe_def set_active_def gm_simps split: if_splits)
  moreover have "hub_nextID (hub_step x h) = hub_nextID h"
    by (simp add: UnsubscribeOp Unsubscribe_def set_active_def)
  ultimately show ?thesis using UnsubscribeOp assms(8) issued_mono [OF assms(6)] by auto
next
  case (BroadcastOp order e)
  then obtain h1 where "Broadcast order e h = Some h1" using Broadcast_completes [OF assms(1), of e order] assms(4) by auto
  moreover from this have "hub_nextID h1 = hub_nextID h"
    by (auto simp: Broadcast_def split: option.splits prod.splits)
  ultimately show ?thesis
    using BroadcastOp up_to_date_broadcast [OF assms(1) _ _ assms(7)] assms(3,4,6,8) by (auto intro: issued_mono)
next
  case (ReplayOp j e)
  then have "j \<noteq> i" using assms(5) by auto
  then have "up_to_date i (hub_step x h) got evs"
    by (intro up_to_date_same [OF assms(7)]) (simp add: ReplayOp on_client_get)
  then show ?thesis using ReplayOp assms(8) by (auto simp: on_client_get intro: issued_mono [OF assms(6)])
next
  case (ReceiveOp j)
  have "got' = (if j = i then got @ take 1 (buffered i h) else got)" "h' = hub_step x h"
    using assms(8) ReceiveOp by auto
  moreover have "take 1 evs @ tl evs = evs" for evs :: "PriceEvent list" by (cases evs) simp_all
  ultimately show ?thesis
    using ReceiveOp assms(6,7)
    by (auto simp: up_to_date_def on_client_get buffered_def issued_def split: if_splits)
next
  case CloseAllOp
  with assms(6-8) show ?thesis by (auto simp: CloseAll_def issued_def up_to_date_def)
qed

lemma observe_run:
  assumes "gateway_ok S h" and "hub_nextID h + int (length ops) < 2 ^ 63"
    and "list_all op_order_ok ops" and "list_all (op_symbols S) ops" and "list_all (\<lambda>x. \<not> replays_to i x) ops"
    and "issued i h" and "up_to_date i h got evs" and "fold (observe i) ops (h, got) = (h', got')"
  shows "up_to_date i h' got' (evs @ broadcasts ops)"
  using assms
proof (induction ops arbitrary: h got evs)
  case (Cons x ops)
  have i64: "is_int64 (hub_nextID h + 1)"
    using Cons.prems(1,2) by (simp add: gateway_ok_def hub_inv_def is_int64_def)
  obtain h1 got1 where one: "observe i x (h, got) = (h1, got1)" by (metis surj_pair)
  have ok: "gateway_ok S h1" "hub_nextID h1 \<le> hub_nextID h + 1"
    using hub_step_ok [OF Cons.prems(1) i64] observe_up_to_date [OF Cons.prems(1) i64 _ _ _ Cons.prems(6,7) one] Cons.prems
    by auto
  have next_ok: "issued i h1" "up_to_date i h1 got1 (evs @ broadcasts [x])"
    using observe_up_to_date [OF Cons.prems(1) i64 _ _ _ Cons.prems(6,7) one] Cons.prems by auto
  have "up_to_date i h' got' ((evs @ broadcasts [x]) @ broadcasts ops)"
    by (rule Cons.IH [OF ok(1) _ _ _ _ next_ok]) (use Cons.prems one ok(2) in auto)
  then show ?case by simp
qed simp


text \<open>An event of one of the symbols that is not a duplicate is handled and acknowledged.\<close>

lemma gateway_handles:
  assumes "gateway_ok S (srv_hub srv)" and "is_order order"
    and "parseEntry (se_codec env) now entry = Inr ev" and "ev_Symbol ev \<in> S" and "\<not> isDuplicate (ev_EventID ev) c"
  shows "\<exists>srv' c'. processEntry (gateway_env order env) now entry c (srv, v) = (Handled (ev_EventID ev), c',
      (srv', snd (se_XAck env (cc_StreamKey (co_cfg c)) (cc_ConsumerGroup (co_cfg c)) (xm_ID entry) v))) \<and>
    gateway_ok S (srv_hub srv') \<and> map fst (hub_clients (srv_hub srv')) = map fst (hub_clients (srv_hub srv)) \<and>
    (\<forall>x \<in> set (hub_clients (srv_hub srv')). latest_of (cl_events (snd x)) (ev_Symbol ev) = Some ev)"
proof -
  obtain h where h: "Broadcast order ev (srv_hub srv) = Some h" using Broadcast_completes [OF assms(1,4)] by blast
  let ?srv = "srv\<lparr>srv_hub := h, srv_metrics := m_inc ''realtime_events_broadcast_total'' [] (srv_metrics srv)\<rparr>"
  have "gateway_handler order \<lparr>sm_StreamID = xm_ID entry, sm_Event = ev\<rparr> (srv, v) = (None, (?srv, v))"
    by (simp add: gateway_handler_def HandleEvent_def h)
  then have run: "processEntry (gateway_env order env) now entry c (srv, v) = (Handled (ev_EventID ev),
      consumer_inc ''realtime_events_consumed_total'' (markSeen (ev_EventID ev) c),
      (?srv, snd (se_XAck env (cc_StreamKey (co_cfg c)) (cc_ConsumerGroup (co_cfg c)) (xm_ID entry) v)))"
    using assms(3,5) by (simp add: processEntry_def gateway_env_def ack_def on_world_def Let_def split: prod.split)
  have ok: "gateway_ok S h"
    using assms(1,2,4) h Broadcast_inv [of "srv_hub srv" order ev h] Broadcast_symbols [of order S "srv_hub srv" ev h]
    by (simp add: gateway_ok_def roomy_def Broadcast_get(3) [OF h])
  have latest: "latest_of (cl_events (snd (the (Client_send order ev (snd x))))) (ev_Symbol ev) = Some ev"
    if "x \<in> set (hub_clients (srv_hub srv))" for x
  proof -
    obtain sent c' where send: "Client_send order ev (snd x) = Some (sent, c')"
      using Broadcast_get(2) [OF h \<open>x \<in> set (hub_clients (srv_hub srv))\<close>] by auto
    from Client_send_spec [OF assms(2) _ send] member_symbols [OF assms(1) that] send show ?thesis by simp
  qed
  have "map fst (hub_clients h) = map fst (hub_clients (srv_hub srv))"
    by (simp add: Broadcast_get(4) [OF h] split_beta comp_def)
  moreover have "\<forall>x \<in> set (hub_clients h). latest_of (cl_events (snd x)) (ev_Symbol ev) = Some ev"
    using latest by (auto simp: Broadcast_get(4) [OF h])
  ultimately show ?thesis using run ok by (intro exI [of _ ?srv] exI conjI) (assumption | simp)+
qed

lemma PublishEvent_adds:
  assumes "PublishEvent rc data w = (None, w')"
  shows "\<exists>w0 w1 payload. jc_MarshalEvent (rc_codec rc)
      (published_event (rc_codec rc) (fst (rc_NewUUID rc w1)) (fst (rc_Now rc w0)) data) = Inr payload \<and>
    rc_XAdd rc streamKey streamMaxLen True (stream_values (lmd_Symbol data) payload) (snd (rc_NewUUID rc w1)) = (None, w')"
  using assms
  by (auto simp: PublishEvent_def split: prod.splits sum.splits option.splits)
    (metis fst_conv snd_conv)

lemma new_gateway_ok:
  "finite S \<Longrightarrow> int (card S) \<le> hc_ClientBuffer cfg \<Longrightarrow> gateway_ok S (NewHub cfg)"
  by (simp add: gateway_ok_def NewHub_def hub_inv_def m_empty_def hub_symbols_def roomy_def)

lemma ServeSSE_id: "cl_id (fst (snd (ServeSSE cd write choices c w))) = cl_id c"
proof (induction choices arbitrary: c w)
  case (Cons x xs)
  have "cl_id (fst (snd (ServeSSE_round cd write x c w))) = cl_id c"
    by (cases x) (auto split: prod.split list.split)
  with Cons.IH show ?case by (auto split: prod.splits bool.splits)
qed simp

lemma replay_id: "cl_id (fst (replayEvents rc c i w)) = cl_id c"
proof -
  have "cl_id (replay_loop cd i entries c) = cl_id c" for cd entries
    by (induction entries arbitrary: c) (auto simp: SendReplay_def split: option.split)
  then show ?thesis by (auto simp: replayEvents_def Let_def split: prod.split sum.split)
qed

lemma gm_del_put: "gm_get m k = None \<Longrightarrow> gm_del k (gm_put k v m) = m"
  by (induction m) (auto simp: gm_get_def gm_del_def gm_put_def split: if_splits)


lemma EventsMarkets_keeps:
  assumes "hub_inv (srv_hub srv)" and "is_int64 (hub_nextID (srv_hub srv) + 1)"
    and "EventsMarkets rc write choices i srv w = Some (reply, srv', w')"
  shows "hub_inv (srv_hub srv') \<and> hub_clients (srv_hub srv') = hub_clients (srv_hub srv)"
proof -
  obtain co h where sub: "Subscribe (srv_hub srv) = Some (co, h)"
    using assms(3) by (auto simp: EventsMarkets_def split: option.splits prod.splits)
  have inv: "hub_inv h" using Subscribe_inv [OF assms(1,2) sub] by simp
  show ?thesis
  proof (cases co)
    case None
    with sub have "h = srv_hub srv" by (auto simp: Subscribe_def Let_def split: if_splits option.splits)
    with None sub assms(1,3) show ?thesis by (auto simp: EventsMarkets_def)
  next
    case (Some client)
    let ?id = "formatClientID (wrap64 (hub_nextID (srv_hub srv) + 1))"
    have client: "cl_id client = ?id" "hub_clients h = gm_put ?id client (hub_clients (srv_hub srv))"
      using sub Some by (auto simp: Subscribe_def newClient_def set_active_def Let_def split: if_splits)
    have fresh: "gm_get (hub_clients (srv_hub srv)) ?id = None" by (rule fresh_client_id [OF assms(1,2)])
    define c1 where "c1 = (if i \<noteq> '''' then replayEvents rc client i w else (client, w))"
    define c2 where "c2 = fst (snd (ServeSSE (rc_codec rc) write choices (fst c1) (snd c1)))"
    have "cl_id c2 = ?id" using client(1) by (simp add: c2_def c1_def ServeSSE_id replay_id)
    moreover have "srv_hub srv' = snd (Unsubscribe c2 h)"
      using assms(3) sub Some by (auto simp: EventsMarkets_def c1_def c2_def split: prod.splits if_splits)
    ultimately show ?thesis
      using Unsubscribe_inv [OF inv, of c2] client(2) gm_del_put [OF fresh]
      by (simp add: Unsubscribe_def Client_ID_def set_active_def gm_simps)
  qed
qed

lemma demo_server_hub:
  "srv_hub demo_server = \<lparr>hub_cfg = DefaultHubConfig,
     hub_clients = [(''client-1'', \<lparr>cl_id = ''client-1'', cl_events = [], cl_closed = False, cl_latestPerSymbol = [],
       cl_bufferSize = 64\<rparr>)],
     hub_nextID = 1, hub_metrics = hub_metrics (srv_hub demo_server)\<rparr>"
proof -
  have "formatClientID 1 = ''client-1''" "wrap64 1 = 1" by code_simp+
  then show ?thesis
    by (simp add: demo_server_def NewServer_def NewHub_def Subscribe_def DefaultHubConfig_def newClient_def
        set_active_def gm_put_def Let_def)
qed

lemma demo_server_ok: "gateway_ok {''BTC''} (srv_hub demo_server)"
  using hub_run_ok [OF new_gateway_ok, of "{''BTC''}" DefaultHubConfig "[SubscribeOp]"]
  by (simp add: demo_server_def NewServer_def NewHub_def DefaultHubConfig_def)

lemma demo_server_client:
  "\<exists>c. gm_get (hub_clients (srv_hub demo_server)) ''client-1'' = Some c \<and> cl_events c = [] \<and>
     hub_nextID (srv_hub demo_server) = 1"
  by (subst demo_server_hub, subst (2) demo_server_hub) (simp add: gm_get_def)

lemma demo_server_run:
  "\<exists>h' got c'. fold (observe ''client-1'') [BroadcastOp id (demo_event ''1''), ReceiveOp ''client-1'', SubscribeOp,
        BroadcastOp id (demo_event ''2'')] (srv_hub demo_server, []) = (h', got) \<and>
     gm_get (hub_clients h') ''client-1'' = Some c' \<and> got = [demo_event ''1'']"
proof -
  have "formatClientID 2 = ''client-2''" "wrap64 2 = 2" by code_simp+
  then show ?thesis
    by (subst demo_server_hub)
      (simp add: Broadcast_def Client_send_def on_client_def Subscribe_def newClient_def set_active_def gm_put_def
        gm_get_def buffered_def Let_def DefaultHubConfig_def)
qed

lemma demo_realtime_starts:
  "\<exists>g w1. realtime_main only_dsn (\<lambda>cfg. kv_client plain_codec) (\<lambda>cfg. demo_redis) id ([], []) = (Inr g, w1)"
  by (simp add: realtime_main_def only_dsn_loads kv_client_def EnsureGroup_def gateway_env_def on_world_def demo_redis_def Let_def)

lemma demo_connection:
  "\<exists>reply srv' w'. Router demo_routes (kv_client plain_codec) [CaseHeartbeat, CaseCtxDone] ''GET'' ''/events/markets'' ''''
     demo_server ([], []) = Some (reply, srv', w')"
proof -
  have "Subscribe (srv_hub demo_server) \<noteq> None"
    by (subst demo_server_hub) (simp add: Subscribe_def newClient_def DefaultHubConfig_def Let_def)
  then show ?thesis
    by (auto simp: Router_def demo_routes_def realtime_routes_def EventsMarkets_def upt_rec split: option.split prod.split)
qed

section \<open>Properties\<close>

text \<open>
  C3: From the ingestor to every client: when \<open>PublishEvent\<close> returns without an error, it has added
  an entry to the stream the gateway reads, and the gateway, when it processes that entry under
  whatever stream identifier, hands it to every client and acknowledges it, and the event is the
  latest of its symbol in every client's buffer, with the published price. It needs a UUID
  source, a clock before the year 10000, well-formed UTF-8, and no more symbols than a client's
  buffer has room for.
\<close>

theorem published_value_delivered:
  assumes "PublishEvent rc ld w = (None, w1)" and "rc_codec rc = go_codec je mv" and "uuid_source rc"
    and "\<forall>w. rfc3339_time (fst (rc_Now rc w))" and "rfc3339_time (lmd_CapturedAt ld)"
    and "list_all utf8_ValidString (latest_strings ld)"
    and "lmd_Symbol ld \<noteq> ''''" and "lmd_PriceUSD ld \<noteq> ''''" and "lmd_Provider ld \<noteq> ''''"
    and "se_codec env = go_codec je mv" and "is_order order"
    and "gateway_ok S (srv_hub srv)" and "lmd_Symbol ld \<in> S"
  shows "\<exists>uuid vals w0. rc_XAdd rc (cc_StreamKey DefaultConsumerConfig) streamMaxLen True vals w0 = (None, w1) \<and>
    (\<forall>i now c v. \<not> isDuplicate uuid c \<longrightarrow>
       (\<exists>srv' c'. processEntry (gateway_env order env) now \<lparr>xm_ID = i, xm_Values = vals\<rparr> c (srv, v) =
            (Handled uuid, c',
             (srv', snd (se_XAck env (cc_StreamKey (co_cfg c)) (cc_ConsumerGroup (co_cfg c)) i v))) \<and>
          gateway_ok S (srv_hub srv') \<and> map fst (hub_clients (srv_hub srv')) = map fst (hub_clients (srv_hub srv)) \<and>
          (\<forall>x \<in> set (hub_clients (srv_hub srv')). \<exists>e.
             latest_of (cl_events (snd x)) (lmd_Symbol ld) = Some e \<and> ev_EventID e = uuid \<and>
             ev_PriceUSD e = lmd_PriceUSD ld)))"
proof -
  obtain w2 w3 payload where
    payload: "jc_MarshalEvent (rc_codec rc) (published_event (rc_codec rc) (fst (rc_NewUUID rc w3)) (fst (rc_Now rc w2)) ld)
        = Inr payload"
    and add: "rc_XAdd rc streamKey streamMaxLen True (stream_values (lmd_Symbol ld) payload) (snd (rc_NewUUID rc w3)) = (None, w1)"
    using PublishEvent_adds [OF assms(1)] by blast
  let ?uuid = "fst (rc_NewUUID rc w3)"
  let ?ev = "published_event (go_codec je mv) ?uuid (fst (rc_Now rc w2)) ld"
  have uuid: "?uuid \<noteq> ''''" "utf8_ValidString ?uuid" using assms(3) by (simp_all add: uuid_source_def)
  have parse: "parseEntry (se_codec env) t \<lparr>xm_ID = i, xm_Values = stream_values (lmd_Symbol ld) payload\<rparr> = Inr ?ev" for t i
    unfolding assms(10)
    by (rule gc.parse_published) (use assms uuid payload in auto)
  have ev: "ev_Symbol ?ev = lmd_Symbol ld" "ev_EventID ?ev = ?uuid" "ev_PriceUSD ?ev = lmd_PriceUSD ld"
    by (simp_all add: published_event_def)
  have key: "cc_StreamKey DefaultConsumerConfig = streamKey" by (simp add: DefaultConsumerConfig_def streamKey_def)
  have "\<exists>srv' c'. processEntry (gateway_env order env) now
        \<lparr>xm_ID = i, xm_Values = stream_values (lmd_Symbol ld) payload\<rparr> c (srv, v) =
          (Handled ?uuid, c', (srv', snd (se_XAck env (cc_StreamKey (co_cfg c)) (cc_ConsumerGroup (co_cfg c)) i v))) \<and>
      gateway_ok S (srv_hub srv') \<and> map fst (hub_clients (srv_hub srv')) = map fst (hub_clients (srv_hub srv)) \<and>
      (\<forall>x \<in> set (hub_clients (srv_hub srv')). \<exists>e.
         latest_of (cl_events (snd x)) (lmd_Symbol ld) = Some e \<and> ev_EventID e = ?uuid \<and> ev_PriceUSD e = lmd_PriceUSD ld)"
    if new: "\<not> isDuplicate ?uuid c" for i now c v
  proof -
    obtain srv' c' where "processEntry (gateway_env order env) now
        \<lparr>xm_ID = i, xm_Values = stream_values (lmd_Symbol ld) payload\<rparr> c (srv, v) =
          (Handled ?uuid, c', (srv', snd (se_XAck env (cc_StreamKey (co_cfg c)) (cc_ConsumerGroup (co_cfg c)) i v)))"
      "gateway_ok S (srv_hub srv')" "map fst (hub_clients (srv_hub srv')) = map fst (hub_clients (srv_hub srv))"
      "\<forall>x \<in> set (hub_clients (srv_hub srv')). latest_of (cl_events (snd x)) (lmd_Symbol ld) = Some ?ev"
      using gateway_handles [OF assms(12,11) parse [of now i], of c v] assms(13) new by (auto simp: ev)
    then show ?thesis using ev by (intro exI [of _ srv'] exI [of _ c']) auto
  qed
  then show ?thesis using add unfolding key by blast
qed

theorem published_value_delivered_witness:
  "\<exists>uuid vals. \<exists>srv' c'. processEntry (gateway_env id (demo_stream_env\<lparr>se_codec := plain_codec\<rparr>)) 0
      \<lparr>xm_ID = ''1-0'', xm_Values = vals\<rparr> (NewConsumer DefaultConsumerConfig) (demo_server, ([], [])) =
        (Handled uuid, c', (srv', ([''1-0''], []))) \<and>
     (\<forall>x \<in> set (hub_clients (srv_hub srv')). \<exists>e.
        latest_of (cl_events (snd x)) ''BTC'' = Some e \<and> ev_PriceUSD e = ''42'')"
proof -
  let ?rc = "kv_client plain_codec" and ?env = "demo_stream_env\<lparr>se_codec := plain_codec\<rparr>"
  have rc: "PublishEvent ?rc demo_latest ([], []) = (None, snd (PublishEvent ?rc demo_latest ([], [])))"
    by (simp add: PublishEvent_def kv_client_def plain_codec_event)
  have codec: "rc_codec ?rc = go_codec (\<lambda>_. ErrorString ''invalid'') (\<lambda>_. Inl (ErrorString ''unsupported''))"
    "se_codec ?env = go_codec (\<lambda>_. ErrorString ''invalid'') (\<lambda>_. Inl (ErrorString ''unsupported''))"
    by (simp_all add: kv_client_def plain_codec_def)
  have uuid: "uuid_source ?rc" using demo_latest_strings by (simp add: uuid_source_def kv_client_def)
  have time: "\<forall>w. rfc3339_time (fst (rc_Now ?rc w))" "rfc3339_time (lmd_CapturedAt demo_latest)"
    by (simp_all add: kv_client_def demo_latest_def rfc3339_time_early)
  have data: "list_all utf8_ValidString (latest_strings demo_latest)" "lmd_Symbol demo_latest = ''BTC''"
    "lmd_PriceUSD demo_latest = ''42''" "lmd_Provider demo_latest = ''coincap''"
    using demo_latest_strings by (simp_all add: demo_latest_def)
  have fresh: "\<not> isDuplicate uuid (NewConsumer DefaultConsumerConfig)" for uuid
    by (simp add: NewConsumer_def isDuplicate_def gm_get_def)
  have ack: "snd (se_XAck ?env k g i ([], [])) = ([i], [])" for k g i by (simp add: demo_stream_env_def)
  have "is_order id" by (simp add: is_order_def)
  from published_value_delivered [OF rc codec(1) uuid time data(1) _ _ _ codec(2) this demo_server_ok]
  obtain uuid vals where "\<forall>i now c v. \<not> isDuplicate uuid c \<longrightarrow>
      (\<exists>srv' c'. processEntry (gateway_env id ?env) now \<lparr>xm_ID = i, xm_Values = vals\<rparr> c (demo_server, v) =
         (Handled uuid, c', (srv', snd (se_XAck ?env (cc_StreamKey (co_cfg c)) (cc_ConsumerGroup (co_cfg c)) i v))) \<and>
       (\<forall>x \<in> set (hub_clients (srv_hub srv')). \<exists>e. latest_of (cl_events (snd x)) ''BTC'' = Some e \<and> ev_PriceUSD e = ''42''))"
    by (simp add: data) meson
  from this [rule_format, OF fresh, of 0 "''1-0''" "([], [])"] show ?thesis unfolding ack by blast
qed



text \<open>
  A gateway starts exactly when the environment is a usable configuration, Redis answers and the
  consumer group is there, be it new or from an earlier run.
\<close>

theorem realtime_main_decides:
  "(\<exists>g. fst (realtime_main osenv redisClient streams order w) = Inr g) \<longleftrightarrow>
     (\<exists>cfg. Load osenv = Inr cfg \<and> fst (rc_Ping (redisClient cfg) w) = None \<and>
        group_ready (streams cfg) (snd (rc_Ping (redisClient cfg) w)))"
  by (auto simp: realtime_main_def EnsureGroup_def gateway_env_def on_world_def group_ready_def NewConsumer_def
      DefaultConsumerConfig_def Let_def split: sum.splits prod.splits option.splits)

text \<open>
  C20: A started gateway never blocks in a broadcast as long as there are at most 64 symbols: after
  any fewer than \<open>2^63\<close> operations of the hub, every event of one of the symbols is handed to
  all clients.
\<close>

theorem started_gateway_never_blocks:
  assumes "realtime_main osenv redisClient streams order w = (Inr g, w1)"
    and "finite S" and "card S \<le> 64" and "length ops < 2 ^ 63"
    and "list_all op_order_ok ops" and "list_all (op_symbols S) ops" and "ev_Symbol e \<in> S"
  shows "Broadcast order' e (fold hub_step ops (srv_hub (rg_server g))) \<noteq> None"
proof -
  have g: "srv_hub (rg_server g) = NewHub DefaultHubConfig"
    using assms(1) by (auto simp: realtime_main_def NewServer_def Let_def split: sum.splits prod.splits option.splits)
  have "gateway_ok S (NewHub DefaultHubConfig)"
    using assms(2,3) by (intro new_gateway_ok) (simp_all add: DefaultHubConfig_def)
  then have "gateway_ok S (fold hub_step ops (NewHub DefaultHubConfig))"
    using assms(4-6) by (intro hub_run_ok) (simp_all add: NewHub_def)
  with Broadcast_completes [OF _ assms(7)] show ?thesis unfolding g by auto
qed

theorem started_gateway_never_blocks_witness:
  "\<exists>g. fst (realtime_main only_dsn (\<lambda>cfg. kv_client plain_codec) (\<lambda>cfg. demo_redis) id ([], [])) = Inr g \<and>
     Broadcast id (demo_event ''1'') (fold hub_step [SubscribeOp, SubscribeOp] (srv_hub (rg_server g))) \<noteq> None"
proof -
  let ?main = "realtime_main only_dsn (\<lambda>cfg. kv_client plain_codec) (\<lambda>cfg. demo_redis) id ([], [])"
  obtain g w1 where main: "?main = (Inr g, w1)" using demo_realtime_starts by blast
  have "Broadcast id (demo_event ''1'') (fold hub_step [SubscribeOp, SubscribeOp] (srv_hub (rg_server g))) \<noteq> None"
    by (rule started_gateway_never_blocks [OF main, where S = "{''BTC''}"]) (simp_all add: demo_event_def)
  with main show ?thesis by simp
qed

text \<open>
  Serving any request from start to end leaves the clients of the hub as they were and its books
  right: a connection that ends takes its client with it.
\<close>

theorem requests_leave_hub:
  assumes "hub_inv (srv_hub srv)" and "is_int64 (hub_nextID (srv_hub srv) + 1)"
    and "Router re rc choices meth path lastEventID srv w = Some (reply, srv', w')"
  shows "hub_inv (srv_hub srv') \<and> hub_clients (srv_hub srv') = hub_clients (srv_hub srv)"
  using assms EventsMarkets_keeps [OF assms(1,2), of rc "re_Write re" choices lastEventID w reply srv' w']
  by (auto simp: Router_def split: option.splits if_splits endpoint.splits prod.splits)

theorem requests_leave_hub_witness:
  "\<exists>reply srv' w'. Router demo_routes (kv_client plain_codec) [CaseHeartbeat, CaseCtxDone] ''GET'' ''/events/markets'' ''''
        demo_server ([], []) = Some (reply, srv', w') \<and>
     hub_clients (srv_hub srv') = hub_clients (srv_hub demo_server)"
proof -
  obtain reply srv' w' where run: "Router demo_routes (kv_client plain_codec) [CaseHeartbeat, CaseCtxDone] ''GET''
      ''/events/markets'' '''' demo_server ([], []) = Some (reply, srv', w')"
    using demo_connection by blast
  have "hub_inv (srv_hub demo_server)" "is_int64 (hub_nextID (srv_hub demo_server) + 1)"
    using demo_server_ok demo_server_client by (auto simp: gateway_ok_def is_int64_def)
  from requests_leave_hub [OF this run] run show ?thesis by auto
qed


end
