(* ===== verification/Services.thy ===== *)
theory Services
  imports Commands Gateway
begin

text \<open>
  The \<open>main\<close> functions of \<open>cmd/ingestor\<close> and \<open>cmd/api\<close> from the start to the point where
  the service runs, and an ingestion cycle of the service that was started: the cycle of
  \<open>Ingestor\<close> over the PostgreSQL repositories of \<open>Repository\<close> and the cache of
  \<open>Market_Cache\<close>. (\<open>cmd/realtime\<close> is in \<open>Gateway\<close>.)

  The platform is a parameter: the environment variables, \<open>sql.Open\<close>, which does not connect,
  the Redis client for a configuration, the HTTP client and the clock. Connection pool sizes,
  listening and signals are not part of the model.
\<close>

section \<open>Platform\<close>

record 'w platform =
  pf_Getenv :: environment
  pf_sqlOpen :: "string \<Rightarrow> go_error + 'w sql_db"
  pf_redis :: "Config \<Rightarrow> 'w redis_client"
  pf_adapters :: "'w adapter_env"
  pf_runtime :: "'w runtime"
  pf_parse_err :: "string \<Rightarrow> string"
  pf_show_time :: "time \<Rightarrow> string"
  pf_quote :: "string \<Rightarrow> string"

datatype start_failure =
    BadConfiguration config_error
  | DatabaseNotOpened go_error
  | DatabaseDown go_error
  | NoProviders

text \<open>The common beginning: the configuration, the database handle and a ping of the database.\<close>

definition connect :: "'w platform \<Rightarrow> 'w \<Rightarrow> (start_failure + Config \<times> 'w sql_db) \<times> 'w" where
  "connect pf w =
     (case Load (pf_Getenv pf) of
        Inl err \<Rightarrow> (Inl (BadConfiguration err), w)
      | Inr cfg \<Rightarrow>
          (case pf_sqlOpen pf (cfg_PostgresDSN cfg) of
             Inl err \<Rightarrow> (Inl (DatabaseNotOpened err), w)
           | Inr db \<Rightarrow>
               (case db_Ping db w of
                  (Some err, w1) \<Rightarrow> (Inl (DatabaseDown err), w1)
                | (None, w1) \<Rightarrow> (Inr (cfg, db), w1))))"

section \<open>Ingestor\<close>

record 'w ingestor_service =
  isv_config :: Config
  isv_env :: "'w ingest_env"
  isv_ingestor :: "'w Ingestor"
  isv_metricsAddr :: string

definition ingestor_env :: "'w platform \<Rightarrow> Config \<Rightarrow> 'w sql_db \<Rightarrow> 'w ingest_env" where
  "ingestor_env pf cfg db =
     \<lparr>ie_GetActiveCoins = GetActiveCoins db, ie_InsertBatch = InsertBatch db,
      ie_InsertSyncLog = SyncLog_Insert db, ie_redis = pf_redis pf cfg, ie_runtime = pf_runtime pf,
      ie_parse_err = pf_parse_err pf, ie_show_time = pf_show_time pf, ie_quote = pf_quote pf\<rparr>"

definition metrics_addr :: "environment \<Rightarrow> string" where
  "metrics_addr osenv =
     (let metricsPort = osenv ''METRICS_PORT''
      in '':'' @ (if metricsPort = '''' then ''8082'' else metricsPort))"

definition ingestor_main :: "'w platform \<Rightarrow> 'w \<Rightarrow> (start_failure + 'w ingestor_service) \<times> 'w" where
  "ingestor_main pf w =
     (case connect pf w of
        (Inl failure, w1) \<Rightarrow> (Inl failure, w1)
      | (Inr (cfg, db), w1) \<Rightarrow>
          (case ingestor_orchestrator (pf_adapters pf) cfg of
             None \<Rightarrow> (Inl NoProviders, w1)
           | Some orchestrator \<Rightarrow>
               (Inr \<lparr>isv_config = cfg, isv_env = ingestor_env pf cfg db,
                     isv_ingestor = NewIngestorWithFallback orchestrator,
                     isv_metricsAddr = metrics_addr (pf_Getenv pf)\<rparr>, w1)))"

section \<open>API\<close>

text \<open>The process exits with a code, or serves a handler at an address.\<close>

datatype 'h process = Exits int | Serves string 'h

definition api_main ::
    "'w platform \<Rightarrow> 'w file_system \<Rightarrow> 'w api_app api_env \<Rightarrow> (string \<Rightarrow> string) \<Rightarrow> 'w api_app chi_router \<Rightarrow> string list \<Rightarrow> 'w
       \<Rightarrow> 'w api_app handler process \<times> 'w" where
  "api_main pf fs aenv unicode chi args w =
     (case args of
        cmd # _ \<Rightarrow>
          (case handleSubcommand (pf_Getenv pf) (pf_sqlOpen pf) fs cmd w of (code, w1) \<Rightarrow> (Exits code, w1))
      | [] \<Rightarrow>
          (case connect pf w of
             (Inl failure, w1) \<Rightarrow> (Exits 1, w1)
           | (Inr (cfg, db), w1) \<Rightarrow>
               (Serves ('':'' @ strconv_Itoa (cfg_HTTPPort cfg))
                  (api_handler aenv db (pf_redis pf cfg) unicode chi cfg), w1)))"

section \<open>Specification\<close>

text \<open>
  What is relied on of the world: the HTTP client, the clock, Redis, queries and the insertion of
  a log entry leave the table of snapshots alone.
\<close>

definition keeps_snapshots :: "('w \<Rightarrow> sql_row list) \<Rightarrow> 'w platform \<Rightarrow> Config \<Rightarrow> 'w sql_db \<Rightarrow> bool" where
  "keeps_snapshots committed pf cfg db \<longleftrightarrow>
     (\<forall>d url w. committed (snd (hc_Do (ae_http (pf_adapters pf)) d url w)) = committed w) \<and>
     (\<forall>w. committed (snd (rt_Now (ae_runtime (pf_adapters pf)) w)) = committed w) \<and>
     (\<forall>w. committed (snd (rt_Now (pf_runtime pf) w)) = committed w) \<and>
     (\<forall>d w. committed (snd (rt_Wait (pf_runtime pf) d w)) = committed w) \<and>
     (\<forall>w. committed (snd (rt_Float64 (pf_runtime pf) w)) = committed w) \<and>
     redis_keeps committed (pf_redis pf cfg) \<and>
     (\<forall>q args w. committed (snd (db_Query db q args w)) = committed w) \<and>
     (\<forall>args w. committed (snd (db_Exec db insert_log_sql args w)) = committed w)"

definition snapshot_table :: "'w sql_db \<Rightarrow> ('w \<Rightarrow> sql_row list) \<Rightarrow> ('w \<Rightarrow> sql_row list) \<Rightarrow> bool" where
  "snapshot_table db committed pending \<longleftrightarrow>
     tx_begin db committed pending \<and> tx_end db committed pending \<and> inserts_snapshots db committed pending"

text \<open>Each snapshot comes from a validated record and an active coin.\<close>

definition sound_snapshots :: "PriceSnapshot list \<Rightarrow> bool" where
  "sound_snapshots snaps \<longleftrightarrow> (\<exists>coins now mds latest. list_all2 (comes_from coins now mds) snaps latest)"

text \<open>The function the scheduler calls, on the ingestor and the world.\<close>

definition service_cycle :: "'w ingest_env \<Rightarrow> 'w Ingestor \<times> 'w \<Rightarrow> go_error option \<times> 'w Ingestor \<times> 'w" where
  "service_cycle env iw = RunCycle env (fst iw) (snd iw)"

text \<open>For closed examples: the database with one table, and a provider that does not answer.\<close>

definition demo_platform :: "mem_world platform" where
  "demo_platform =
     \<lparr>pf_Getenv = only_dsn, pf_sqlOpen = (\<lambda>dsn. Inr mem_db),
      pf_redis = (\<lambda>cfg. \<lparr>rc_Set = (\<lambda>_ _ _ w. (None, w)), rc_Pipeline = (\<lambda>_ w. (None, w)),
         rc_Get = (\<lambda>_ w. (Inl RedisNil, w)), rc_MGet = (\<lambda>_ w. (Inr [], w)),
         rc_XAdd = (\<lambda>_ _ _ _ w. (None, w)), rc_XRange = (\<lambda>_ _ _ w. (Inr [], w)),
         rc_Ping = (\<lambda>w. (None, w)), rc_NewUUID = (\<lambda>w. (''uuid'', w)), rc_codec = demo_codec,
         rc_Now = (\<lambda>w. (0, w))\<rparr>),
      pf_adapters =
        \<lparr>ae_http = \<lparr>hc_NewRequest = (\<lambda>_. None), hc_Do = (\<lambda>_ _ w. (Inl Canceled, w))\<rparr>,
         ae_runtime =
           \<lparr>rt_Now = (\<lambda>w. (0, w)), rt_CtxErr = (\<lambda>_. None), rt_Wait = (\<lambda>_ w. (None, w)),
            rt_Float64 = (\<lambda>w. (Fin 0, w))\<rparr>,
         ae_unicode = id, ae_decodeErr = (\<lambda>_. ErrorString ''eof'')\<rparr>,
      pf_runtime =
        \<lparr>rt_Now = (\<lambda>w. (0, w)), rt_CtxErr = (\<lambda>_. None), rt_Wait = (\<lambda>_ w. (None, w)),
         rt_Float64 = (\<lambda>w. (Fin 0, w))\<rparr>,
      pf_parse_err = id, pf_show_time = (\<lambda>_. ''''), pf_quote = id\<rparr>"

section \<open>Lemmas\<close>

lemma adapters_keep:
  assumes "\<And>d url w. obs (snd (hc_Do (ae_http env) d url w)) = obs w"
    and "\<And>w. obs (snd (rt_Now (ae_runtime env) w)) = obs w"
  shows "obs (snd (coingecko_FetchMarketData env p syms w)) = obs w"
    and "obs (snd (coincap_FetchMarketData env q syms w)) = obs w"
proof -
  have do: "obs w1 = obs w" if "hc_Do (ae_http env) d url w = (r, w1)" for d url w r w1
    using assms(1) [of d url w] that by simp
  have now: "obs w1 = obs w" if "rt_Now (ae_runtime env) w = (t, w1)" for w t w1
    using assms(2) [of w] that by simp
  show "obs (snd (coingecko_FetchMarketData env p syms w)) = obs w"
    by (auto simp: coingecko_FetchMarketData_def Let_def dest!: do now split: option.split prod.split sum.split)
  show "obs (snd (coincap_FetchMarketData env q syms w)) = obs w"
    by (auto simp: coincap_FetchMarketData_def Let_def dest!: do now split: option.split prod.split sum.split)
qed

lemma create_providers_adapters:
  "prov \<in> set (create_providers (ingestor_registry env cfg) cfg names) \<Longrightarrow>
     (\<exists>p. prov = coingecko_Provider env p) \<or> (\<exists>q. prov = coincap_Provider env q)"
  by (induction names)
    (auto simp: Registry_Create_def ingestor_registry_def SetBaseURL_def default_registry_def NewRegistry_def
      Register_def gm_simps Let_def split: if_splits option.splits)

lemma Fetch_loop_selector:
  "Fetch_loop rt syms eligible i provs lastErr fo w = (out, fo', w') \<Longrightarrow> fo_selector fo' = fo_selector fo"
proof (induction provs arbitrary: i lastErr fo w)
  case (Cons q provs)
  obtain v fo1 w1 where body: "try_provider rt syms eligible i q fo w = (v, fo1, w1)" by (metis surj_pair)
  from try_provider_frame [OF body] Cons show ?case by (cases v) (auto simp: body)
qed (auto split: option.splits)

lemma fetch_from_source:
  assumes "fetch_from env syms ing w = (r, used, ing', w')" and "source_keeps obs (ing_source ing)"
  shows "source_keeps obs (ing_source ing')"
proof (cases "ing_source ing")
  case (Orchestrated fo)
  obtain r1 fo1 w1 where f: "orchestrator_FetchMarketData (ie_runtime env) syms fo w = (r1, fo1, w1)" by (metis surj_pair)
  then have "fo_selector fo1 = fo_selector fo"
    by (auto simp: orchestrator_FetchMarketData_def Let_def split: if_splits dest: Fetch_loop_selector)
  with assms Orchestrated f show ?thesis by (auto simp: fetch_from_def source_keeps_def)
qed (use assms in \<open>auto simp: fetch_from_def split: prod.splits\<close>)

lemma record_source [simp]:
  "ing_source (fst (recordFailure env start p cause ing w)) = ing_source ing"
  "ing_source (fst (recordSuccess env start p ing w)) = ing_source ing"
  "ing_source (ing_count n ls ing) = ing_source ing"
  by (simp_all add: recordFailure_def recordSuccess_def ing_count_def Let_def split_beta)

lemma store_source:
  "ing_source (fst (snd (store_and_publish env start coins used mds ing w))) = ing_source ing"
proof -
  have "ing_source ing1 = ing_source ing0" if "recordFailure env start p cause ing0 w = (ing1, w1)" for p cause ing0 w ing1 w1
    using record_source(1) [of env start p cause ing0 w] that by simp
  moreover have "ing_source ing1 = ing_source ing0" if "recordSuccess env start p ing0 w = (ing1, w1)" for p ing0 w ing1 w1
    using record_source(2) [of env start p ing0 w] that by simp
  ultimately show ?thesis
    by (auto simp: store_and_publish_def Let_def split: prod.split option.split)
qed

lemma RunCycle_source:
  assumes "RunCycle env ing w = (err, ing', w')" and "source_keeps obs (ing_source ing)"
  shows "source_keeps obs (ing_source ing')"
proof -
  have fail: "ing_source ing1 = ing_source ing0" if "recordFailure env start p cause ing0 w = (ing1, w1)"
    for start p cause ing0 w ing1 w1
    using record_source(1) [of env start p cause ing0 w] that by simp
  have store: "ing_source ing1 = ing_source ing0" if "store_and_publish env start coins used mds ing0 w = (e, ing1, w1)"
    for start coins used mds ing0 w e ing1 w1
    using store_source [of env start coins used mds ing0 w] that by simp
  show ?thesis
    using assms
    by (auto simp: RunCycle_def Let_def dest!: fail store fetch_from_source [OF _ assms(2)]
        split: prod.splits sum.splits option.splits if_splits)
qed

lemma log_insert_keeps:
  "(\<And>args w. obs (snd (db_Exec db insert_log_sql args w)) = obs w) \<Longrightarrow> obs (snd (SyncLog_Insert db l w)) = obs w"
  by (auto simp: SyncLog_Insert_def split: prod.split option.split) (metis snd_conv)+

lemma coins_keep:
  "(\<And>q args w. obs (snd (db_Query db q args w)) = obs w) \<Longrightarrow> obs (snd (GetActiveCoins db w)) = obs w"
  by (auto simp: GetActiveCoins_def query_list_def split: prod.split sum.split option.split) (metis snd_conv)+

lemma service_reads_keep:
  assumes "keeps_snapshots committed pf cfg db"
  shows "reads_keep committed (ingestor_env pf cfg db)" "redis_keeps committed (ie_redis (ingestor_env pf cfg db))"
    "committed (snd (ie_InsertSyncLog (ingestor_env pf cfg db) l w)) = committed w"
  using assms coins_keep [of committed db] log_insert_keeps [of committed db]
  by (auto simp: keeps_snapshots_def reads_keep_def ingestor_env_def)

lemma service_source_keeps:
  assumes "keeps_snapshots committed pf cfg db" and "ingestor_orchestrator (pf_adapters pf) cfg = Some fo"
  shows "source_keeps committed (ing_source (NewIngestorWithFallback fo))"
proof -
  have "prov \<in> set (create_providers (ingestor_registry (pf_adapters pf) cfg) cfg
      (cfg_ProviderPrimary cfg # cfg_ProviderFallback cfg))" if "prov \<in> set (Eligible (fo_selector fo))" for prov
    using that assms(2)
    by (auto simp: ingestor_orchestrator_def orchestrator_selector sel.eligible_filter Selector_All_def NewSelector_def
        Let_def split: if_splits)
  from create_providers_adapters [OF this]
  have "\<forall>syms w. committed (snd (pv_Fetch prov syms w)) = committed w" if "prov \<in> set (Eligible (fo_selector fo))" for prov
    using adapters_keep [of committed "pf_adapters pf"] assms(1) that
    by (fastforce simp: keeps_snapshots_def coingecko_Provider_def coincap_Provider_def)
  then show ?thesis by (simp add: source_keeps_def NewIngestorWithFallback_def)
qed

text \<open>One cycle on the table of snapshots.\<close>

lemma cycle_rows:
  assumes "snapshot_table db committed pending" and "keeps_snapshots committed pf cfg db"
    and "source_keeps committed (ing_source ing)"
    and "RunCycle (ingestor_env pf cfg db) ing w = (err, ing', w')"
  shows "\<exists>snaps. sound_snapshots snaps \<and> committed w' = committed w @ map snapshot_args snaps \<and>
    (err \<noteq> None \<longrightarrow> snaps = [])"
proof -
  let ?env = "ingestor_env pf cfg db"
  note keep = service_reads_keep [OF assms(2)]
  have none: "sound_snapshots []" by (auto simp: sound_snapshots_def)
  from keep(1) assms(3,4) show ?thesis
  proof (cases rule: RunCycle_exits)
    case idle
    with none show ?thesis by (intro exI [of _ "[]"]) simp
  next
    case (failed start p cause ing1 w1 e)
    then show ?thesis using recordFailure_keeps [OF keep(1,3)] none by (intro exI [of _ "[]"]) simp
  next
    case (fetched start coins used mds ing1 w1)
    from fetched(2) show ?thesis
    proof (rule store_and_publish_exits)
      fix now w2 snaps latest m w3 ing2
      assume now: "rt_Now (ie_runtime ?env) w1 = (now, w2)"
        and build: "build_snapshots ?env coins now mds (ing_metrics ing1) w2 = ((snaps, latest), m, w3)"
        and exit: "store_exit ?env start used ing2 snaps latest w3 err w'"
      have w3: "committed w3 = committed w"
        using now_keeps [OF keep(1), of w1] build_snapshots_keeps [OF keep(1), of coins now mds "ing_metrics ing1" w2]
          now build fetched(1) by simp
      have sound: "sound_snapshots snaps" using build_snapshots_sound [OF build] by (auto simp: sound_snapshots_def)
      have insert: "committed w4 = (if r = None then committed w @ map snapshot_args snaps else committed w)"
        if "ie_InsertBatch ?env snaps w3 = (r, w4)" for r w4
        using InsertBatch_rows [of db committed pending snaps w3 r w4] assms(1) that w3
        by (simp add: snapshot_table_def ingestor_env_def)
      have log: "committed (snd (recordSuccess ?env start used ing2 w4)) = committed w4" for w4
        using keep(3) now_keeps [OF keep(1)] by (simp add: recordSuccess_def Let_def split_beta)
      from exit show ?thesis
        unfolding store_exit_def
        using sound none w3 insert recordFailure_keeps [OF keep(1,3)]
        by (elim disjE exE conjE) (fastforce simp: publish_all_keeps [OF keep(2)] now_keeps [OF keep(1)] log)+
    qed
  qed
qed

lemma schedule_rows:
  assumes "snapshot_table db committed pending" and "keeps_snapshots committed pf cfg db"
    and "source_keeps committed (ing_source ing)"
    and "scheduler_loop (service_cycle (ingestor_env pf cfg db)) xs s (ing, w) = (fin, s', (ing', w'))"
  shows "\<exists>batches. list_all sound_snapshots batches \<and> length batches \<le> length xs \<and>
    committed w' = committed w @ map snapshot_args (concat batches)"
  using assms(3,4)
proof (induction xs arbitrary: s ing w)
  case Nil
  then show ?case by (intro exI [of _ "[]"]) simp
next
  case (Cons x xs)
  obtain ok s1 where b: "execute_begin s = (ok, s1)" by (metis surj_pair)
  obtain err ing1 w1 where c: "RunCycle (ingestor_env pf cfg db) ing w = (err, ing1, w1)" by (metis surj_pair)
  consider "x = SchedDone" | "x = SchedTick" "\<not> ok" | "x = SchedTick" ok by (cases x) auto
  then show ?case
  proof cases
    case 1
    with Cons.prems show ?thesis by (intro exI [of _ "[]"]) simp
  next
    case 2
    with Cons.prems b have "scheduler_loop (service_cycle (ingestor_env pf cfg db)) xs s1 (ing, w) = (fin, s', (ing', w'))" by simp
    from Cons.IH [OF Cons.prems(1) this] obtain batches where "list_all sound_snapshots batches"
        "length batches \<le> length xs" "committed w' = committed w @ map snapshot_args (concat batches)" by blast
    then show ?thesis by (intro exI [of _ batches]) simp
  next
    case 3
    have "service_cycle (ingestor_env pf cfg db) (ing, w) = (err, ing1, w1)" by (simp add: service_cycle_def c)
    with 3 Cons.prems b
    have "scheduler_loop (service_cycle (ingestor_env pf cfg db)) xs (execute_end s1) (ing1, w1) = (fin, s', (ing', w'))" by simp
    from Cons.IH [OF RunCycle_source [OF c Cons.prems(1)] this] obtain batches where
      rest: "list_all sound_snapshots batches" "length batches \<le> length xs"
        "committed w' = committed w1 @ map snapshot_args (concat batches)" by blast
    obtain snaps where "sound_snapshots snaps" "committed w1 = committed w @ map snapshot_args snaps"
      using cycle_rows [OF assms(1,2) Cons.prems(1) c] by blast
    with rest show ?thesis by (intro exI [of _ "snaps # batches"]) simp
  qed
qed

lemma ingestor_main_Inr:
  assumes "ingestor_main pf w0 = (Inr svc, w)"
  shows "\<exists>db fo. pf_sqlOpen pf (cfg_PostgresDSN (isv_config svc)) = Inr db \<and>
    isv_env svc = ingestor_env pf (isv_config svc) db \<and> isv_ingestor svc = NewIngestorWithFallback fo \<and>
    ingestor_orchestrator (pf_adapters pf) (isv_config svc) = Some fo"
  using assms by (auto simp: ingestor_main_def connect_def split: sum.splits prod.splits option.splits)

lemma orchestrator_created:
  "ingestor_orchestrator env cfg \<noteq> None \<longleftrightarrow>
     (\<exists>n. n \<in> set (cfg_ProviderPrimary cfg # cfg_ProviderFallback cfg) \<and> (n = ''coingecko'' \<or> n = ''coincap''))"
proof -
  define names where "names = cfg_ProviderPrimary cfg # cfg_ProviderFallback cfg"
  define known where "known n \<longleftrightarrow> n = ''coingecko'' \<or> n = ''coincap''" for n
  have "ingestor_orchestrator env cfg = None \<longleftrightarrow> create_providers (ingestor_registry env cfg) cfg names = []"
    unfolding ingestor_orchestrator_def names_def [symmetric] by (simp add: Let_def)
  also have "\<dots> \<longleftrightarrow> map pv_Name (create_providers (ingestor_registry env cfg) cfg names) = []" by simp
  also have "\<dots> \<longleftrightarrow> (\<forall>n \<in> set names. \<not> known n)"
    by (simp only: create_providers_names filter_empty_conv known_def)
  finally show ?thesis unfolding names_def [symmetric] known_def [symmetric] by auto
qed

lemma demo_platform_laws:
  "snapshot_table mem_db fst snd" "keeps_snapshots fst demo_platform cfg mem_db"
  using mem_db_laws
  by (auto simp: snapshot_table_def keeps_snapshots_def redis_keeps_def demo_platform_def mem_db_def)

section \<open>Properties\<close>



text \<open>
  The services start exactly when they can: the configuration is usable, the database can be
  opened and answers, and, for the ingestor, one of the configured providers is known.
\<close>

theorem ingestor_starts_iff:
  "(\<exists>svc. fst (ingestor_main pf w) = Inr svc) \<longleftrightarrow>
     (\<exists>cfg db. Load (pf_Getenv pf) = Inr cfg \<and> pf_sqlOpen pf (cfg_PostgresDSN cfg) = Inr db \<and>
        fst (db_Ping db w) = None \<and>
        (\<exists>n. n \<in> set (cfg_ProviderPrimary cfg # cfg_ProviderFallback cfg) \<and> (n = ''coingecko'' \<or> n = ''coincap'')))"
proof -
  have "(\<exists>n. n \<in> set (cfg_ProviderPrimary cfg # cfg_ProviderFallback cfg) \<and> (n = ''coingecko'' \<or> n = ''coincap''))
      \<longleftrightarrow> ingestor_orchestrator (pf_adapters pf) cfg \<noteq> None" for cfg
    by (simp only: orchestrator_created)
  then show ?thesis
    by (auto simp: ingestor_main_def connect_def simp del: list.set split: sum.splits prod.splits option.splits)
qed

text \<open>The API serves exactly when it is given no subcommand and can connect; otherwise it exits.\<close>

theorem api_serves_iff:
  "(\<exists>addr h. fst (api_main pf fs aenv unicode chi args w) = Serves addr h) \<longleftrightarrow>
     args = [] \<and> (\<exists>cfg db. Load (pf_Getenv pf) = Inr cfg \<and> pf_sqlOpen pf (cfg_PostgresDSN cfg) = Inr db \<and>
        fst (db_Ping db w) = None)"
  by (auto simp: api_main_def connect_def split: list.splits sum.splits prod.splits option.splits)

end
