(* ===== verification/Prometheus.thy ===== *)
theory Prometheus
  imports Services
begin

text \<open>
  The Prometheus metrics: what each package declares (\<open>internal/telemetry/metrics.go\<close>,
  \<open>internal/realtime/metrics.go\<close> and the package variables of \<open>resilience\<close>, \<open>market\<close> and
  \<open>provider\<close>) and what each binary registers. \<open>promauto\<close> registers at once and panics when
  the registry refuses, and \<open>WithLabelValues\<close> panics when the number of label values is not
  that of the declaration: the properties show that neither happens.

  The registry is a parameter. \<open>prometheus.DefBuckets\<close> belongs to the client library.
\<close>

section \<open>Declarations\<close>

datatype buckets = DefBuckets | Buckets "rat list"

datatype metric_kind = Counter | Gauge | Histogram buckets

record metric_desc =
  mt_Name :: string
  mt_Help :: string
  mt_Kind :: metric_kind
  mt_Labels :: "string list"

definition telemetry_metrics :: "metric_desc list" where
  "telemetry_metrics =
     [\<lparr>mt_Name = ''http_request_duration_seconds'', mt_Help = ''Duration of HTTP requests in seconds.'',
       mt_Kind = Histogram DefBuckets, mt_Labels = [''method'', ''path'', ''status'']\<rparr>,
      \<lparr>mt_Name = ''http_responses_total'', mt_Help = ''Total number of HTTP responses by status code.'',
       mt_Kind = Counter, mt_Labels = [''method'', ''path'', ''status'']\<rparr>,
      \<lparr>mt_Name = ''ingestion_duration_seconds'', mt_Help = ''Duration of ingestion cycles in seconds.'',
       mt_Kind = Histogram (Buckets [1 / 10, 1 / 4, 1 / 2, 1, 5 / 2, 5, 10, 30]), mt_Labels = []\<rparr>,
      \<lparr>mt_Name = ''ingestion_success_total'', mt_Help = ''Total number of successful ingestion cycles.'',
       mt_Kind = Counter, mt_Labels = []\<rparr>,
      \<lparr>mt_Name = ''ingestion_failure_total'', mt_Help = ''Total number of failed ingestion cycles.'',
       mt_Kind = Counter, mt_Labels = []\<rparr>,
      \<lparr>mt_Name = ''provider_request_duration_seconds'', mt_Help = ''Duration of provider API requests in seconds.'',
       mt_Kind = Histogram DefBuckets, mt_Labels = [''provider'', ''status'']\<rparr>,
      \<lparr>mt_Name = ''data_freshness_seconds'', mt_Help = ''Seconds since the last successful data ingestion.'',
       mt_Kind = Gauge, mt_Labels = []\<rparr>]"

definition realtime_metrics :: "metric_desc list" where
  "realtime_metrics =
     [\<lparr>mt_Name = ''realtime_active_connections'', mt_Help = ''Number of currently connected SSE clients.'',
       mt_Kind = Gauge, mt_Labels = []\<rparr>,
      \<lparr>mt_Name = ''realtime_connections_total'', mt_Help = ''Total number of SSE client connections since start.'',
       mt_Kind = Counter, mt_Labels = []\<rparr>,
      \<lparr>mt_Name = ''realtime_connection_duration_seconds'', mt_Help = ''Duration of SSE client connections in seconds.'',
       mt_Kind = Histogram (Buckets [1, 5, 15, 30, 60, 120, 300, 600, 1800, 3600]), mt_Labels = []\<rparr>,
      \<lparr>mt_Name = ''realtime_events_consumed_total'', mt_Help = ''Total number of events consumed from Redis Streams.'',
       mt_Kind = Counter, mt_Labels = []\<rparr>,
      \<lparr>mt_Name = ''realtime_events_broadcast_total'', mt_Help = ''Total number of events broadcast to clients.'',
       mt_Kind = Counter, mt_Labels = []\<rparr>,
      \<lparr>mt_Name = ''realtime_event_validation_failures_total'', mt_Help = ''Total number of events that failed validation.'',
       mt_Kind = Counter, mt_Labels = []\<rparr>,
      \<lparr>mt_Name = ''realtime_redis_reconnects_total'', mt_Help = ''Total number of Redis reconnection attempts.'',
       mt_Kind = Counter, mt_Labels = []\<rparr>,
      \<lparr>mt_Name = ''realtime_stream_consumer_lag'', mt_Help = ''Approximate number of pending messages in the consumer group.'',
       mt_Kind = Gauge, mt_Labels = []\<rparr>,
      \<lparr>mt_Name = ''realtime_dropped_messages_total'', mt_Help = ''Total number of messages dropped due to slow clients.'',
       mt_Kind = Counter, mt_Labels = []\<rparr>,
      \<lparr>mt_Name = ''realtime_heartbeat_failures_total'', mt_Help = ''Total number of heartbeat write failures.'',
       mt_Kind = Counter, mt_Labels = []\<rparr>]"

definition circuitbreaker_metrics :: "metric_desc list" where
  "circuitbreaker_metrics =
     [\<lparr>mt_Name = ''circuit_breaker_state'', mt_Help = ''Current state of the circuit breaker (0=closed, 1=open, 2=half-open).'',
       mt_Kind = Gauge, mt_Labels = [''name'']\<rparr>,
      \<lparr>mt_Name = ''circuit_breaker_transitions_total'', mt_Help = ''Total number of circuit breaker state transitions.'',
       mt_Kind = Counter, mt_Labels = [''name'', ''from'', ''to'']\<rparr>,
      \<lparr>mt_Name = ''circuit_breaker_requests_total'', mt_Help = ''Total number of requests through the circuit breaker.'',
       mt_Kind = Counter, mt_Labels = [''name'', ''result'']\<rparr>]"

definition ratelimit_metrics :: "metric_desc list" where
  "ratelimit_metrics =
     [\<lparr>mt_Name = ''provider_rate_limited_total'', mt_Help = ''Total number of rate-limit (HTTP 429) responses by provider.'',
       mt_Kind = Counter, mt_Labels = [''provider'']\<rparr>]"

definition retry_metrics :: "metric_desc list" where
  "retry_metrics =
     [\<lparr>mt_Name = ''retry_attempts_total'', mt_Help = ''Total number of retry attempts.'',
       mt_Kind = Counter, mt_Labels = [''result'']\<rparr>]"

definition validate_metrics :: "metric_desc list" where
  "validate_metrics =
     [\<lparr>mt_Name = ''data_validation_failures_total'', mt_Help = ''Total number of data validation failures by provider and field.'',
       mt_Kind = Counter, mt_Labels = [''provider'', ''field'']\<rparr>]"

definition anomaly_metrics :: "metric_desc list" where
  "anomaly_metrics =
     [\<lparr>mt_Name = ''anomaly_detected_total'', mt_Help = ''Total number of anomalies detected by type and provider.'',
       mt_Kind = Counter, mt_Labels = [''type'', ''provider'']\<rparr>]"

definition freshness_metrics :: "metric_desc list" where
  "freshness_metrics =
     [\<lparr>mt_Name = ''data_freshness_status'', mt_Help = ''Data freshness status (0=fresh, 1=delayed, 2=stale, 3=unknown).'',
       mt_Kind = Gauge, mt_Labels = [''symbol'']\<rparr>,
      \<lparr>mt_Name = ''data_stale_symbols_count'', mt_Help = ''Number of symbols with stale data.'',
       mt_Kind = Gauge, mt_Labels = []\<rparr>]"

definition fallback_metrics :: "metric_desc list" where
  "fallback_metrics =
     [\<lparr>mt_Name = ''provider_fallback_total'', mt_Help = ''Total number of provider fallback events.'',
       mt_Kind = Counter, mt_Labels = [''from'', ''to'']\<rparr>,
      \<lparr>mt_Name = ''provider_switch_total'', mt_Help = ''Total number of provider switches.'',
       mt_Kind = Counter, mt_Labels = [''from'', ''to'']\<rparr>,
      \<lparr>mt_Name = ''provider_active'', mt_Help = ''Currently active provider (1=active, 0=inactive).'',
       mt_Kind = Gauge, mt_Labels = [''provider'']\<rparr>]"

text \<open>
  What a binary registers: the variables of the packages it imports, when it is loaded, and the
  metrics its \<open>main\<close> creates. The API and the ingestor import the same three packages; the
  gateway imports none of them.
\<close>

definition package_metrics :: "metric_desc list" where
  "package_metrics =
     anomaly_metrics @ freshness_metrics @ validate_metrics @ circuitbreaker_metrics @ ratelimit_metrics @
     retry_metrics @ fallback_metrics"

definition platform_metrics :: "metric_desc list" where
  "platform_metrics = package_metrics @ telemetry_metrics"

section \<open>Registration\<close>

text \<open>\<open>None\<close> when the registry refuses a metric, on which \<open>promauto\<close> panics.\<close>

fun register_all :: "(metric_desc \<Rightarrow> 'r \<Rightarrow> 'r option) \<Rightarrow> metric_desc list \<Rightarrow> 'r \<Rightarrow> 'r option" where
  "register_all register [] r = Some r"
| "register_all register (d # ds) r =
     (case register d r of None \<Rightarrow> None | Some r1 \<Rightarrow> register_all register ds r1)"

section \<open>Specification\<close>

definition name_start :: "char \<Rightarrow> bool" where
  "name_start c \<longleftrightarrow>
     (let k = (of_char c :: nat) in 97 \<le> k \<and> k \<le> 122 \<or> 65 \<le> k \<and> k \<le> 90 \<or> k = 95)"

definition valid_name :: "string \<Rightarrow> bool" where
  "valid_name n \<longleftrightarrow>
     n \<noteq> [] \<and> name_start (hd n) \<and> list_all (\<lambda>c. name_start c \<or> is_digit c) n"

fun increasing :: "rat list \<Rightarrow> bool" where
  "increasing (x # y # xs) = (x < y \<and> increasing (y # xs))"
| "increasing _ = True"

fun valid_kind :: "metric_kind \<Rightarrow> string list \<Rightarrow> bool" where
  "valid_kind (Histogram (Buckets bs)) labels = (increasing bs \<and> \<not> List.member labels ''le'')"
| "valid_kind (Histogram DefBuckets) labels = (\<not> List.member labels ''le'')"
| "valid_kind _ labels = True"

definition valid_desc :: "metric_desc \<Rightarrow> bool" where
  "valid_desc d \<longleftrightarrow>
     valid_name (mt_Name d) \<and> list_all valid_name (mt_Labels d) \<and>
     list_all (\<lambda>l. take 2 l \<noteq> ''__'') (mt_Labels d) \<and> distinct (mt_Labels d) \<and>
     valid_kind (mt_Kind d) (mt_Labels d)"

text \<open>
  What is relied on of the registry: it accepts a valid metric whose name is not taken, and then
  the name is taken. A new registry has the names of its own collectors only.
\<close>

definition registry_law :: "(metric_desc \<Rightarrow> 'r \<Rightarrow> 'r option) \<Rightarrow> ('r \<Rightarrow> string set) \<Rightarrow> bool" where
  "registry_law register names \<longleftrightarrow>
     (\<forall>d r. valid_desc d \<longrightarrow> mt_Name d \<notin> names r \<longrightarrow>
        (\<exists>r1. register d r = Some r1 \<and> names r1 = insert (mt_Name d) (names r)))"

definition own_collector :: "string \<Rightarrow> bool" where
  "own_collector n \<longleftrightarrow> take 3 n = ''go_'' \<or> take 8 n = ''process_'' \<or> take 9 n = ''promhttp_''"

text \<open>
  A cell of the registry in the model belongs to a declaration with as many labels; an
  observation of a histogram is counted in its \<open>_count\<close> cell.
\<close>

definition cell_name :: "metric_desc \<Rightarrow> string" where
  "cell_name d = (case mt_Kind d of Histogram _ \<Rightarrow> mt_Name d @ ''_count'' | _ \<Rightarrow> mt_Name d)"

definition declared :: "metric_desc list \<Rightarrow> string \<Rightarrow> nat \<Rightarrow> bool" where
  "declared ds n k \<longleftrightarrow> list_ex (\<lambda>d. cell_name d = n \<and> length (mt_Labels d) = k) ds"

definition well_labelled :: "metric_desc list \<Rightarrow> metrics \<Rightarrow> bool" where
  "well_labelled ds m \<longleftrightarrow> (\<forall>n ls. m (n, ls) \<noteq> 0 \<longrightarrow> declared ds n (length ls))"

text \<open>A registry for closed examples: the names that are taken.\<close>

definition name_registry :: "metric_desc \<Rightarrow> string list \<Rightarrow> string list option" where
  "name_registry d r =
     (if valid_desc d \<and> \<not> List.member r (mt_Name d) then Some (mt_Name d # r) else None)"

section \<open>Lemmas\<close>

lemma register_all_total:
  assumes "registry_law register names" and "list_all valid_desc ds" and "distinct (map mt_Name ds)"
    and "names r \<inter> mt_Name ` set ds = {}"
  shows "\<exists>r1. register_all register ds r = Some r1 \<and> names r1 = names r \<union> mt_Name ` set ds"
  using assms(2-4)
proof (induction ds arbitrary: r)
  case (Cons d ds)
  have "valid_desc d" "mt_Name d \<notin> names r" using Cons.prems by auto
  with assms(1) obtain r1 where r1: "register d r = Some r1" "names r1 = insert (mt_Name d) (names r)"
    unfolding registry_law_def by blast
  with Cons.IH [of r1] Cons.prems show ?case by auto
qed simp

lemmas metric_tables =
  telemetry_metrics_def circuitbreaker_metrics_def ratelimit_metrics_def retry_metrics_def validate_metrics_def
  anomaly_metrics_def freshness_metrics_def fallback_metrics_def package_metrics_def platform_metrics_def

lemma platform_valid:
  "list_all valid_desc platform_metrics" "distinct (map mt_Name platform_metrics)"
  "list_all (\<lambda>d. \<not> own_collector (mt_Name d)) platform_metrics"
  by code_simp+

lemma realtime_valid:
  "list_all valid_desc realtime_metrics" "distinct (map mt_Name realtime_metrics)"
  "list_all (\<lambda>d. \<not> own_collector (mt_Name d)) realtime_metrics"
  by code_simp+

lemma name_registry_law: "registry_law name_registry set"
  by (auto simp: registry_law_def name_registry_def)

lemma well_labelled_empty [simp]: "well_labelled ds m_empty"
  by (simp add: well_labelled_def m_empty_def)

lemma well_labelled_inc: "well_labelled ds m \<Longrightarrow> declared ds n (length ls) \<Longrightarrow> well_labelled ds (m_inc n ls m)"
  by (simp add: well_labelled_def m_inc_apply)

lemma well_labelled_set: "well_labelled ds m \<Longrightarrow> declared ds n (length ls) \<Longrightarrow> well_labelled ds (m_set n ls v m)"
  by (simp add: well_labelled_def m_set_apply)

lemmas well_labelled_intros = well_labelled_inc well_labelled_set

lemma realtime_declared:
  "declared realtime_metrics ''realtime_active_connections'' 0"
  "declared realtime_metrics ''realtime_connections_total'' 0"
  "declared realtime_metrics ''realtime_dropped_messages_total'' 0"
  "declared realtime_metrics ''realtime_event_validation_failures_total'' 0"
  "declared realtime_metrics ''realtime_events_consumed_total'' 0"
  by code_simp+

lemma platform_declared:
  "declared platform_metrics ''ingestion_failure_total'' 0"
  "declared platform_metrics ''ingestion_success_total'' 0"
  "declared platform_metrics ''ingestion_duration_seconds_count'' 0"
  "declared platform_metrics ''data_freshness_seconds'' 0"
  "declared platform_metrics ''provider_request_duration_seconds_count'' (Suc (Suc 0))"
  "declared platform_metrics ''data_validation_failures_total'' (Suc (Suc 0))"
  "declared platform_metrics ''circuit_breaker_state'' (Suc 0)"
  "declared platform_metrics ''circuit_breaker_transitions_total'' (Suc (Suc (Suc 0)))"
  "declared platform_metrics ''circuit_breaker_requests_total'' (Suc (Suc 0))"
  by code_simp+

lemma Broadcast_loop_labelled:
  "Broadcast_loop order e cs m = Some (cs', m') \<Longrightarrow> well_labelled realtime_metrics m \<Longrightarrow> well_labelled realtime_metrics m'"
proof (induction cs arbitrary: m cs')
  case (Cons ic cs)
  obtain sent c1 where send: "Client_send order e (snd ic) = Some (sent, c1)"
    using Cons.prems(1) by (cases ic) (auto split: option.splits)
  let ?m = "if sent then m else m_inc ''realtime_dropped_messages_total'' [] m"
  obtain cs1 where "Broadcast_loop order e cs ?m = Some (cs1, m')"
    using Cons.prems(1) send by (cases ic) (auto split: option.splits)
  moreover have "well_labelled realtime_metrics ?m"
    using Cons.prems(2) by (simp add: realtime_declared well_labelled_inc)
  ultimately show ?case by (rule Cons.IH)
qed simp

lemma hub_step_labelled:
  assumes "well_labelled realtime_metrics (hub_metrics h)"
  shows "well_labelled realtime_metrics (hub_metrics (hub_step x h))"
proof (cases x)
  case SubscribeOp
  with assms show ?thesis
    by (auto simp: Subscribe_def set_active_def realtime_declared Let_def intro!: well_labelled_intros split: option.split)
next
  case (UnsubscribeOp c)
  with assms show ?thesis by (auto simp: Unsubscribe_def set_active_def realtime_declared intro!: well_labelled_intros)
next
  case (BroadcastOp order e)
  with assms show ?thesis by (auto simp: Broadcast_def dest: Broadcast_loop_labelled split: option.split prod.split)
next
  case CloseAllOp
  with assms show ?thesis by (auto simp: CloseAll_def realtime_declared intro!: well_labelled_intros)
qed (use assms in \<open>auto simp: on_client_def split: option.split\<close>)

lemma transitionTo_labelled:
  "well_labelled platform_metrics (cb_metrics cb) \<Longrightarrow> well_labelled platform_metrics (cb_metrics (transitionTo st now cb))"
  by (auto simp: transitionTo_def Let_def platform_declared intro!: well_labelled_intros split: CircuitState.split)

lemma breaker_labelled:
  assumes "well_labelled platform_metrics (cb_metrics cb)"
  shows "well_labelled platform_metrics (cb_metrics (cb_step x cb))"
proof -
  note defs = currentState_def State_def onSuccess_def onFailure_def RecordSuccess_def RecordFailure_def
    Execute_begin_def Execute_end_def cb_count_request_def
  show ?thesis
    using assms
    by (cases x) (auto simp: defs Let_def platform_declared intro!: well_labelled_intros transitionTo_labelled
        split: CircuitState.split option.split prod.split)
qed

lemma Validate_labelled:
  assumes "well_labelled platform_metrics m" and "MarketData_Validate pe st now d m = (err, m')"
  shows "well_labelled platform_metrics m'"
  using counted_MarketData_Validate [of d m pe st now] assms
  by (auto simp: counted_result_def platform_declared intro!: well_labelled_intros split: option.splits)

lemma build_snapshots_labelled:
  "build_snapshots env coins now mds m w = (r, m', w') \<Longrightarrow> well_labelled platform_metrics m \<Longrightarrow>
     well_labelled platform_metrics m'"
proof (induction mds arbitrary: m w r)
  case (Cons md mds)
  obtain t w1 where now: "rt_Now (ie_runtime env) w = (t, w1)" by (metis surj_pair)
  obtain verr m1 where val: "MarketData_Validate (ie_parse_err env) (ie_show_time env) t md m = (verr, m1)"
    by (metis surj_pair)
  from Validate_labelled [OF Cons.prems(2) val] Cons.IH [of m1 w1] Cons.prems(1) show ?case
    by (auto simp: now val split: option.splits prod.splits)
qed simp

lemma record_labelled:
  assumes "well_labelled platform_metrics (ing_metrics ing)"
  shows "recordFailure env start p cause ing w = (ing1, w1) \<Longrightarrow> well_labelled platform_metrics (ing_metrics ing1)"
    and "recordSuccess env start p ing w = (ing2, w2) \<Longrightarrow> well_labelled platform_metrics (ing_metrics ing2)"
    and "declared platform_metrics n (length ls) \<Longrightarrow> well_labelled platform_metrics (ing_metrics (ing_count n ls ing))"
  using assms
  by (auto simp: recordFailure_def recordSuccess_def ing_count_def platform_declared Let_def split_beta
      intro!: well_labelled_intros)

lemma store_labelled:
  assumes "well_labelled platform_metrics (ing_metrics ing)"
    and "store_and_publish env start coins used mds ing w = (err, ing', w')"
  shows "well_labelled platform_metrics (ing_metrics ing')"
proof -
  obtain now w1 where now: "rt_Now (ie_runtime env) w = (now, w1)" by (metis surj_pair)
  obtain snaps latest m w2 where build: "build_snapshots env coins now mds (ing_metrics ing) w1 = ((snaps, latest), m, w2)"
    by (metis surj_pair)
  have m: "well_labelled platform_metrics (ing_metrics (ing\<lparr>ing_metrics := m\<rparr>))"
    using build_snapshots_labelled [OF build assms(1)] by simp
  obtain ierr w3 where ins: "ie_InsertBatch env snaps w2 = (ierr, w3)" by (metis surj_pair)
  show ?thesis
    using assms(2)
    by (auto simp: store_and_publish_def now build ins platform_declared Let_def
        intro!: well_labelled_set record_labelled(3) dest: record_labelled(1) [OF m] record_labelled(2) [OF m]
        split: if_splits prod.splits option.splits)
qed

section \<open>Properties\<close>

text \<open>
  C28: No binary panics while it registers its metrics: with a registry that accepts valid metrics
  under names that are free, and that has only its own collectors at first, all metrics of the
  API and the ingestor are registered, and all of the gateway.
\<close>

theorem metrics_register:
  assumes "registry_law register names" and "\<forall>n \<in> names r. own_collector n"
    and "ds \<in> {platform_metrics, realtime_metrics}"
  shows "\<exists>r1. register_all register ds r = Some r1 \<and> names r1 = names r \<union> mt_Name ` set ds"
proof -
  have "list_all valid_desc ds \<and> distinct (map mt_Name ds) \<and> list_all (\<lambda>d. \<not> own_collector (mt_Name d)) ds"
    using assms(3) platform_valid realtime_valid by blast
  with assms(2) show ?thesis by (intro register_all_total [OF assms(1)]) (auto simp: list_all_iff)
qed

theorem metrics_register_witness:
  "\<exists>r1. register_all name_registry realtime_metrics [''go_goroutines''] = Some r1 \<and> ''realtime_connections_total'' \<in> set r1"
proof -
  have own: "\<forall>n \<in> set [''go_goroutines'']. own_collector n" by (simp add: own_collector_def)
  have mem: "realtime_metrics \<in> {platform_metrics, realtime_metrics}" by (rule insertI2) (rule singletonI)
  obtain r1 where r1: "register_all name_registry realtime_metrics [''go_goroutines''] = Some r1"
      "set r1 = set [''go_goroutines''] \<union> mt_Name ` set realtime_metrics"
    using metrics_register [where register = name_registry and names = set and r = "[''go_goroutines'']"
        and ds = realtime_metrics, OF name_registry_law own mem] by blast
  have "''realtime_connections_total'' \<in> mt_Name ` set realtime_metrics" by (simp add: realtime_metrics_def)
  then have "''realtime_connections_total'' \<in> set r1" unfolding r1(2) by (rule UnI2)
  with r1(1) show ?thesis by blast
qed


text \<open>
  C27: No update of the hub's metrics panics: whatever the hub does, it writes only to metrics that
  the gateway registers, with as many label values as they declare.
\<close>

theorem hub_metrics_declared:
  "well_labelled realtime_metrics (hub_metrics (fold hub_step ops (NewHub cfg)))"
proof -
  have "well_labelled realtime_metrics (hub_metrics h) \<Longrightarrow> well_labelled realtime_metrics (hub_metrics (fold hub_step ops h))" for h
    by (induction ops arbitrary: h) (auto intro: hub_step_labelled)
  then show ?thesis by (simp add: NewHub_def)
qed

text \<open>The same for every sequence of operations of a circuit breaker.\<close>

theorem breaker_metrics_declared:
  "well_labelled platform_metrics (cb_metrics (fold cb_step ops (NewCircuitBreaker c)))"
proof -
  have "well_labelled platform_metrics (cb_metrics cb) \<Longrightarrow> well_labelled platform_metrics (cb_metrics (fold cb_step ops cb))" for cb
    by (induction ops arbitrary: cb) (auto intro: breaker_labelled)
  moreover have "well_labelled platform_metrics (cb_metrics (NewCircuitBreaker c))"
    by (simp add: NewCircuitBreaker_def platform_declared well_labelled_set)
  ultimately show ?thesis by blast
qed




end
