(* ===== verification/Data_Path.thy ===== *)
theory Data_Path
  imports Services
begin

text \<open>
  The path of a price through the platform: the cycle of the ingestor (\<open>Ingestor\<close>) fetches,
  validates and stores it and writes it to Redis (\<open>Market_Cache\<close>), and the API
  (\<open>API_Handlers\<close>) reads it there. What the API answers after a cycle is what the cycle stored.
\<close>

section \<open>Specification\<close>

text \<open>
  What is relied on of Redis while it is up: a table of keys that \<open>SET\<close> changes in one place and
  \<open>GET\<close> reads; appending to a stream, the clock and the UUID generator leave it alone. No key
  expires between the cycle and the request.
\<close>

definition redis_table :: "'w redis_client \<Rightarrow> ('w \<Rightarrow> string \<Rightarrow> string option) \<Rightarrow> bool" where
  "redis_table rc kv \<longleftrightarrow>
     (\<forall>k v d w. fst (rc_Set rc k v d w) = None \<and> kv (snd (rc_Set rc k v d w)) = (kv w)(k \<mapsto> v)) \<and>
     (\<forall>k w. rc_Get rc k w = (case kv w k of None \<Rightarrow> Inl RedisNil | Some v \<Rightarrow> Inr v, w)) \<and>
     (\<forall>k n a vs w. kv (snd (rc_XAdd rc k n a vs w)) = kv w) \<and>
     (\<forall>w. kv (snd (rc_NewUUID rc w)) = kv w) \<and> (\<forall>w. kv (snd (rc_Now rc w)) = kv w)"

text \<open>The last value of a symbol in a batch.\<close>

definition last_value :: "string \<Rightarrow> LatestMarketData list \<Rightarrow> LatestMarketData option" where
  "last_value s lds = find (\<lambda>ld. lmd_Symbol ld = s) (rev lds)"

text \<open>For closed examples: one active coin, and a provider that knows its price.\<close>

definition kv_ingest :: "kv_world ingest_env" where
  "kv_ingest =
     \<lparr>ie_GetActiveCoins = (\<lambda>w. (Inr [demo_coin], w)), ie_InsertBatch = (\<lambda>_ w. (None, w)),
      ie_InsertSyncLog = (\<lambda>_ w. (None, w)), ie_redis = kv_client plain_codec,
      ie_runtime =
        \<lparr>rt_Now = (\<lambda>w. (0, w)), rt_CtxErr = (\<lambda>_. None), rt_Wait = (\<lambda>_ w. (None, w)),
         rt_Float64 = (\<lambda>w. (Fin 0, w))\<rparr>,
      ie_parse_err = (\<lambda>_. ''''), ie_show_time = (\<lambda>_. ''''), ie_quote = id\<rparr>"

definition btc_provider :: "'w Provider" where
  "btc_provider = \<lparr>pv_Name = ''coincap'', pv_Fetch = (\<lambda>_ w. (([btc_data ''42''], None), w))\<rparr>"

definition kv_handler :: "kv_world SnapshotRepository \<Rightarrow> kv_world Handler" where
  "kv_handler snapshotRepo =
     NewHandler None
       \<lparr>cr_GetActiveCoins = (\<lambda>w. (Inr [demo_coin], w)), cr_GetBySymbol = (\<lambda>s w. (Inr (Some demo_coin), w))\<rparr>
       snapshotRepo None (Some (kv_client plain_codec)) id"

section \<open>Lemmas\<close>

lemma last_value_Cons:
  "last_value s (ld # lds) =
     (case last_value s lds of
        Some l \<Rightarrow> Some l
      | None \<Rightarrow> if lmd_Symbol ld = s then Some ld else None)"
proof -
  have "find P (xs @ ys) = (case find P xs of Some x \<Rightarrow> Some x | None \<Rightarrow> find P ys)" for P and xs ys :: "LatestMarketData list"
    by (induction xs) auto
  then show ?thesis by (simp add: last_value_def split: option.split)
qed

lemma last_value_in: "last_value s lds = Some ld \<Longrightarrow> ld \<in> set lds \<and> lmd_Symbol ld = s"
  unfolding last_value_def find_Some_iff by (metis length_rev nth_mem set_rev)

lemma PublishEvent_table:
  "redis_table rc kv \<Longrightarrow> kv (snd (PublishEvent rc ld w)) = kv w"
  by (auto simp: PublishEvent_def redis_table_def split: prod.splits sum.splits option.splits) (metis snd_conv)+

lemma SetLatest_table:
  assumes "redis_table rc kv" and "jc_MarshalLatest (rc_codec rc) ld = Inr s"
  shows "kv (snd (SetLatest rc ld w)) = (kv w)(latestKeyPrefix @ lmd_Symbol ld \<mapsto> s)"
proof -
  obtain e w1 where "rc_Set rc (latestKeyPrefix @ lmd_Symbol ld) s (5 * minute) w = (e, w1)" by (metis surj_pair)
  moreover from this have "kv w1 = (kv w)(latestKeyPrefix @ lmd_Symbol ld \<mapsto> s)"
    using assms(1) unfolding redis_table_def by (metis snd_conv)
  ultimately show ?thesis using assms(2) by (auto simp: SetLatest_def Let_def split: option.splits)
qed

text \<open>After the publication the table holds the last value of every symbol of the batch.\<close>

lemma publish_all_table:
  assumes "redis_table (ie_redis env) kv"
    and "\<And>ld. ld \<in> set lds \<Longrightarrow> jc_MarshalLatest (rc_codec (ie_redis env)) ld = Inr (text ld)"
  shows "kv (publish_all env lds w) (latestKeyPrefix @ s) =
    (case last_value s lds of None \<Rightarrow> kv w (latestKeyPrefix @ s) | Some ld \<Rightarrow> Some (text ld))"
  using assms(2)
proof (induction lds arbitrary: w)
  case (Cons ld lds)
  let ?w = "snd (PublishEvent (ie_redis env) ld (snd (SetLatest (ie_redis env) ld w)))"
  have "kv ?w = (kv w)(latestKeyPrefix @ lmd_Symbol ld \<mapsto> text ld)"
    using Cons.prems by (simp add: PublishEvent_table [OF assms(1)] SetLatest_table [OF assms(1)])
  with Cons show ?case by (auto simp: last_value_Cons split: option.splits)
qed (simp add: last_value_def)

text \<open>A cycle with coins that returns no error has fetched data and gone on to store it.\<close>

lemma RunCycle_success:
  assumes "RunCycle env ing w = (None, ing', w')"
    and "fst (ie_GetActiveCoins env (snd (rt_Now (ie_runtime env) w))) = Inr coins" and "coins \<noteq> []"
  obtains start used mds ing1 ing2 w1 w2 w3 where
    "fetch_from env (map coin_ProviderSymbol coins) ing w1 = ((mds, None), used, ing1, w2)"
    "store_and_publish env start coins used mds ing2 w3 = (None, ing', w')"
proof -
  obtain start w1 where 1: "rt_Now (ie_runtime env) w = (start, w1)" by (metis surj_pair)
  obtain w2 where 2: "ie_GetActiveCoins env w1 = (Inr coins, w2)" using assms(2) 1 by (metis prod.collapse snd_conv)
  obtain t1 w3 where 3: "rt_Now (ie_runtime env) w2 = (t1, w3)" by (metis surj_pair)
  obtain mds ferr used ing1 w4
    where 4: "fetch_from env (map coin_ProviderSymbol coins) ing w3 = ((mds, ferr), used, ing1, w4)"
    by (metis surj_pair)
  obtain t2 w5 where 5: "rt_Now (ie_runtime env) w4 = (t2, w5)" by (metis surj_pair)
  have "ferr = None" using assms(1,3) by (cases ferr) (auto simp: RunCycle_def 1 2 3 4 5 Let_def split_beta)
  with assms(1,3) 4 show ?thesis by (intro that [OF 4 [unfolded \<open>ferr = None\<close>]]) (auto simp: RunCycle_def 1 2 3 4 5 Let_def)
qed

text \<open>The last step of a successful cycle, and what it leaves in the table.\<close>

lemma store_success:
  assumes "store_and_publish env start coins used mds ing w = (None, ing', w')"
  obtains now snaps latest w2 w3 w4 where
    "now = fst (rt_Now (ie_runtime env) w)" "list_all2 (comes_from coins now mds) snaps latest"
    "ie_InsertBatch env snaps w2 = (None, w3)" "snaps \<noteq> []" "w' = snd (rt_Now (ie_runtime env) (publish_all env latest w4))"
proof -
  obtain now w1 where 1: "rt_Now (ie_runtime env) w = (now, w1)" by (metis surj_pair)
  obtain snaps latest m w2
    where 2: "build_snapshots env coins now mds (ing_metrics ing) w1 = ((snaps, latest), m, w2)" by (metis surj_pair)
  note sound = build_snapshots_sound [OF 2]
  obtain ierr w3 where 3: "ie_InsertBatch env snaps w2 = (ierr, w3)" by (metis surj_pair)
  have "snaps \<noteq> [] \<and> ierr = None \<and> (\<exists>w4. w' = snd (rt_Now (ie_runtime env) (publish_all env latest w4)))"
    using assms by (cases ierr) (auto simp: store_and_publish_def 1 2 3 Let_def split: if_splits prod.splits, metis snd_conv)
  then obtain w4 where "w' = snd (rt_Now (ie_runtime env) (publish_all env latest w4))" "snaps \<noteq> []" "ierr = None" by blast
  with 1 3 sound show ?thesis by (intro that [of now snaps latest w2 w3 w4]) auto
qed

lemma comes_from_publishable:
  assumes "list_all2 (comes_from coins now mds) snaps latest" and "ld \<in> set latest"
  shows "lmd_Symbol ld \<noteq> '''' \<and> lmd_PriceUSD ld \<noteq> '''' \<and> lmd_Provider ld \<noteq> '''' \<and>
    lmd_CapturedAt ld = now"
proof -
  obtain s where "comes_from coins now mds s ld"
    using assms by (auto simp: list_all2_conv_all_nth in_set_conv_nth)
  then show ?thesis by (auto simp: comes_from_def make_latest_def dest: valid_market_data_fields)
qed

lemma go_codec_latest:
  assumes "rfc3339_time (lmd_CapturedAt ld)"
  shows "jc_MarshalLatest (go_codec je mv) ld = Inr (the (marshal_latest ld))"
  using assms unmarshal_marshal_time [of "lmd_CapturedAt ld"]
  by (auto simp: go_codec_def marshal_latest_def rfc3339_time_def split: option.splits)

lemma kv_table: "redis_table (kv_client cd) (\<lambda>w. gm_get (fst w))"
  by (auto simp: redis_table_def kv_client_def gm_simps fun_eq_iff split: option.splits)

lemma single_value:
  assumes "list_all2 (comes_from [c] now [md]) snaps latest" and "snaps \<noteq> []"
  shows "last_value (coin_Symbol c) latest = Some (make_latest c now md)"
proof -
  have "\<forall>ld \<in> set latest. ld = make_latest c now md"
    using assms(1) by (induction rule: list_all2_induct) (auto simp: comes_from_def)
  moreover have "latest \<noteq> []" using assms by auto
  moreover have "lmd_Symbol (make_latest c now md) = coin_Symbol c" by (simp add: make_latest_def)
  ultimately show ?thesis by (cases latest rule: rev_cases) (auto simp: last_value_def)
qed

lemma btc_data_validates: "fst (MarketData_Validate (\<lambda>_. '''') (\<lambda>_. '''') 0 (btc_data ''42'') m) = None"
proof -
  have num: "strconv_ParseFloat ''42'' = Some (Fin 42)" by code_simp
  have "valid_market_data 0 (btc_data ''42'')"
    by (simp add: valid_market_data_def btc_data_def num optional_number_def f_le_def)
  then show ?thesis by (simp add: MarketData_Validate_None)
qed

lemma kv_cycle_runs: "\<exists>ing' w'. RunCycle kv_ingest (NewIngestor btc_provider) ([], []) = (None, ing', w')"
proof -
  have coin: "findCoin [demo_coin] (md_Symbol (btc_data ''42'')) = Some demo_coin"
    by (simp add: demo_coin_def btc_data_def)
  show ?thesis
    by (simp add: RunCycle_def kv_ingest_def fetch_from_def NewIngestor_def btc_provider_def store_and_publish_def
        recordSuccess_def Let_def split_beta btc_data_validates coin del: findCoin.simps)
qed

section \<open>Property\<close>

text \<open>
  C2: What the API serves is what the ingestor stored: after a successful cycle over the active
  coins, the batch of snapshots that was stored comes, pair by pair, from validated records of
  the data fetched, and a request for a coin is answered with the last value of its symbol in that
  batch, read from Redis. The time of the cycle is before the year 10000, and the strings are well-formed
  UTF-8.
\<close>

theorem cycle_values_served:
  assumes "RunCycle env ing w = (None, ing', w')"
    and "fst (ie_GetActiveCoins env (snd (rt_Now (ie_runtime env) w))) = Inr coins" and "coins \<noteq> []"
    and "redis_table (ie_redis env) kv" and "rc_codec (ie_redis env) = go_codec je mv"
    and "\<forall>w. kv (snd (rt_Now (ie_runtime env) w)) = kv w" and "\<forall>w. rfc3339_time (fst (rt_Now (ie_runtime env) w))"
  shows "\<exists>mds used ing1 w1 w2 now snaps latest w3 w4.
    fetch_from env (map coin_ProviderSymbol coins) ing w1 = ((mds, None), used, ing1, w2) \<and>
    list_all2 (comes_from coins now mds) snaps latest \<and> snaps \<noteq> [] \<and> ie_InsertBatch env snaps w3 = (None, w4) \<and>
    (\<forall>h r wr st s coin ld.
       h_cache h = Some (ie_redis env) \<and> app_world (as_app st) = w' \<and>
       strings_ToUpper (h_unicode h) (URLParam ''symbol'' r) = s \<and>
       app_call (cr_GetBySymbol (h_coinRepo h) s) st = (Inr (Some coin), st) \<and>
       last_value s latest = Some ld \<and> list_all utf8_ValidString (latest_strings ld) \<longrightarrow>
       handler_CoinBySymbol h r wr st = (None, writeJSON 200 (LatestBody ld) wr, st))"
proof -
  let ?rc = "ie_redis env"
  obtain start used mds ing1 ing2 w1 w2 w5 where
    fetch: "fetch_from env (map coin_ProviderSymbol coins) ing w1 = ((mds, None), used, ing1, w2)"
    and store: "store_and_publish env start coins used mds ing2 w5 = (None, ing', w')"
    using RunCycle_success [OF assms(1-3)] by metis
  obtain now snaps latest w3 w4 w6 where now: "now = fst (rt_Now (ie_runtime env) w5)"
    and pairs: "list_all2 (comes_from coins now mds) snaps latest"
    and batch: "ie_InsertBatch env snaps w3 = (None, w4)" "snaps \<noteq> []"
    and w': "w' = snd (rt_Now (ie_runtime env) (publish_all env latest w6))"
    using store_success [OF store] by metis
  have time: "rfc3339_time (lmd_CapturedAt ld)" if "ld \<in> set latest" for ld
    using comes_from_publishable [OF pairs that] assms(7) now by simp
  have table: "kv w' (latestKeyPrefix @ s) =
      (case last_value s latest of None \<Rightarrow> kv w6 (latestKeyPrefix @ s) | Some ld \<Rightarrow> Some (the (marshal_latest ld)))" for s
    using publish_all_table [OF assms(4), of latest "\<lambda>ld. the (marshal_latest ld)"] time assms(5,6) w'
    by (auto simp: go_codec_latest)
  have read: "GetLatest ?rc s w' = (Inr (Some ld), w')"
    if ld: "last_value s latest = Some ld" "list_all utf8_ValidString (latest_strings ld)" for s ld
  proof -
    obtain t where "jc_MarshalLatest (rc_codec ?rc) ld = Inr t" "jc_UnmarshalLatest (rc_codec ?rc) t = Inr ld"
      using gc.latest_read [OF ld(2) time] last_value_in [OF ld(1)] assms(5) by metis
    moreover from this have "the (marshal_latest ld) = t"
      using assms(5) by (auto simp: go_codec_def split: option.splits)
    ultimately show ?thesis using table [of s] ld(1) assms(4) by (simp add: GetLatest_def redis_table_def)
  qed
  have "handler_CoinBySymbol h r wr st = (None, writeJSON 200 (LatestBody ld) wr, st)"
    if "h_cache h = Some ?rc" "app_world (as_app st) = w'" "strings_ToUpper (h_unicode h) (URLParam ''symbol'' r) = s"
      "app_call (cr_GetBySymbol (h_coinRepo h) s) st = (Inr (Some coin), st)"
      "last_value s latest = Some ld" "list_all utf8_ValidString (latest_strings ld)" for h r wr st s coin ld
  proof -
    have "s \<noteq> ''''" using comes_from_publishable [OF pairs] last_value_in [OF that(5)] by blast
    moreover have "app_call (GetLatest ?rc s) st = (Inr (Some ld), st)"
      using read [OF that(5,6)] that(2) by (simp add: app_call_same)
    ultimately show ?thesis using that by (simp add: handler_CoinBySymbol_def with_coin_def Let_def)
  qed
  with fetch pairs batch show ?thesis by blast
qed

theorem cycle_values_served_witness:
  "\<forall>repo wr rep. \<exists>ld w'.
     w' = snd (snd (RunCycle kv_ingest (NewIngestor btc_provider) ([], []))) \<and> lmd_PriceUSD ld = ''42'' \<and>
     (let st = demo_api_state \<lparr>app_world = w', app_reporter = rep\<rparr>
      in handler_CoinBySymbol (kv_handler repo) demo_history_request wr st = (None, writeJSON 200 (LatestBody ld) wr, st))"
proof (intro allI)
  fix repo wr and rep :: "kv_world StatusReporter option"
  obtain ing' w' where run: "RunCycle kv_ingest (NewIngestor btc_provider) ([], []) = (None, ing', w')"
    using kv_cycle_runs by blast
  let ?st = "demo_api_state \<lparr>app_world = w', app_reporter = rep\<rparr>"
  have laws: "fst (ie_GetActiveCoins kv_ingest (snd (rt_Now (ie_runtime kv_ingest) ([], [])))) = Inr [demo_coin]"
    "[demo_coin] \<noteq> []" "redis_table (ie_redis kv_ingest) (\<lambda>w. gm_get (fst w))"
    "rc_codec (ie_redis kv_ingest) = go_codec (\<lambda>_. ErrorString ''invalid'') (\<lambda>_. Inl (ErrorString ''unsupported''))"
    "\<forall>w. gm_get (fst (snd (rt_Now (ie_runtime kv_ingest) w))) = gm_get (fst w)"
    "\<forall>w. rfc3339_time (fst (rt_Now (ie_runtime kv_ingest) w))"
    by (simp_all add: kv_ingest_def kv_table rfc3339_time_early) (simp add: kv_client_def plain_codec_def)
  obtain mds used ing1 w1 w2 now snaps latest where
    fetch: "fetch_from kv_ingest (map coin_ProviderSymbol [demo_coin]) (NewIngestor btc_provider) w1 = ((mds, None), used, ing1, w2)"
    and pairs: "list_all2 (comes_from [demo_coin] now mds) snaps latest" "snaps \<noteq> []"
    and served: "\<forall>h r wr st s coin ld.
       h_cache h = Some (ie_redis kv_ingest) \<and> app_world (as_app st) = w' \<and>
       strings_ToUpper (h_unicode h) (URLParam ''symbol'' r) = s \<and>
       app_call (cr_GetBySymbol (h_coinRepo h) s) st = (Inr (Some coin), st) \<and>
       last_value s latest = Some ld \<and> list_all utf8_ValidString (latest_strings ld) \<longrightarrow>
       handler_CoinBySymbol h r wr st = (None, writeJSON 200 (LatestBody ld) wr, st)"
    using cycle_values_served [OF run laws] by blast
  have "mds = [btc_data ''42'']" using fetch by (simp add: fetch_from_def NewIngestor_def btc_provider_def)
  then have ld: "last_value ''BTC'' latest = Some (make_latest demo_coin now (btc_data ''42''))"
    using single_value [of demo_coin now "btc_data ''42''" snaps latest] pairs by (simp add: demo_coin_def)
  have "list_all utf8_ValidString (latest_strings (make_latest demo_coin now (btc_data ''42'')))"
    by (auto simp: make_latest_def demo_coin_def btc_data_def latest_strings_def is_ascii_def intro!: utf8_ValidString_ascii)
  moreover have "strings_ToUpper (h_unicode (kv_handler repo)) (URLParam ''symbol'' demo_history_request) = ''BTC''"
    by (simp add: kv_handler_def NewHandler_def demo_history_request_def URLParam_def gm_get_def get_request_def) code_simp
  ultimately have "handler_CoinBySymbol (kv_handler repo) demo_history_request wr ?st
      = (None, writeJSON 200 (LatestBody (make_latest demo_coin now (btc_data ''42''))) wr, ?st)"
    using ld by (intro served [rule_format]) (auto simp: kv_handler_def NewHandler_def kv_ingest_def demo_api_state_def app_call_def)
  then show "\<exists>ld w'. w' = snd (snd (RunCycle kv_ingest (NewIngestor btc_provider) ([], []))) \<and> lmd_PriceUSD ld = ''42'' \<and>
      (let st = demo_api_state \<lparr>app_world = w', app_reporter = rep\<rparr>
       in handler_CoinBySymbol (kv_handler repo) demo_history_request wr st = (None, writeJSON 200 (LatestBody ld) wr, st))"
    by (intro exI [of _ "make_latest demo_coin now (btc_data ''42'')"] exI [of _ w'])
      (simp add: run make_latest_def btc_data_def)
qed

end
