(* ===== verification/Mock_Provider.thy ===== *)
theory Mock_Provider
  imports Commands
begin

text \<open>
  \<open>cmd/mockprovider/main.go\<close>: the server that stands in for the providers in tests, with its
  failure modes, and the CoinCap adapter talking to it.

  The environment variables, the random source, the clock, sleeping and the case mapping of
  letters outside ASCII are parameters. A handler returns the response it has written; the
  counter of requests is part of the state. A value that JSON cannot express makes \<open>Encode\<close>
  fail before it writes; the error is dropped and the body stays empty.
\<close>

record 'w mock_env =
  me_Getenv :: environment
  me_Intn :: "int \<Rightarrow> 'w \<Rightarrow> int \<times> 'w"
  me_Float64 :: "'w \<Rightarrow> float64 \<times> 'w"
  me_Now :: "'w \<Rightarrow> time \<times> 'w"
  me_Sleep :: "duration \<Rightarrow> 'w \<Rightarrow> 'w"
  me_lower :: "string \<Rightarrow> string"
  me_upper :: "string \<Rightarrow> string"

record mock_reply =
  mr_status :: int
  mr_headers :: "(string, string) gomap"
  mr_body :: string

section \<open>Formatting\<close>

text \<open>A number in JSON: the shortest decimal, with an exponent for very small and very large ones.\<close>

definition exponent_text :: "rat \<Rightarrow> string" where
  "exponent_text a =
     (case shortest_decimal a (start_exponent a) of
        (d, k) \<Rightarrow>
          let ds = dec_digits (nat d); e = k + int (length ds) - 1
          in take 1 ds @ (if length ds = 1 then '''' else ''.'' @ drop 1 ds) @ ''e'' @
             (if e < 0 then ''-'' else ''+'') @ dec_digits (nat \<bar>e\<bar>))"

fun json_float :: "float64 \<Rightarrow> string option" where
  "json_float (Fin x) =
     (if x \<noteq> 0 \<and> (f_less (Fin \<bar>x\<bar>) (fl (1 / 10 ^ 6)) \<or> f_le (fl (10 ^ 21)) (Fin \<bar>x\<bar>))
      then Some ((if x < 0 then ''-'' else '''') @ exponent_text \<bar>x\<bar>)
      else Some (strconv_FormatFloat (x < 0, Fin x)))"
| "json_float _ = None"

text \<open>\<^verbatim>\<open>%.2f\<close>: the nearest multiple of a hundredth, ties to even.\<close>

fun sprintf_2f :: "float64 \<Rightarrow> string" where
  "sprintf_2f (Fin x) =
     (let n = nat (round_even (\<bar>x\<bar> * 100))
      in (if x < 0 then ''-'' else '''') @ dec_digits (n div 100) @ ''.'' @
         [digit_char (n mod 100 div 10), digit_char (n mod 10)])"
| "sprintf_2f NaN = ''NaN''"
| "sprintf_2f PosInf = ''+Inf''"
| "sprintf_2f NegInf = ''-Inf''"

text \<open>An object of members that are encoded already; the keys of a Go map are sorted.\<close>

definition json_map :: "(string, string) gomap \<Rightarrow> string" where
  "json_map m =
     ''{'' @ strings_Join (map (\<lambda>(k, v). json_quote k @ '':'' @ v) (sort_keys m)) '','' @ ''}''"

definition line :: "string \<Rightarrow> string" where
  "line s = s @ [char_of (10 :: nat)]"

definition json_reply_of :: "int \<Rightarrow> (string, string) gomap \<Rightarrow> string \<Rightarrow> mock_reply" where
  "json_reply_of status headers body =
     \<lparr>mr_status = status, mr_headers = headers @ [(''Content-Type'', ''application/json'')], mr_body = body\<rparr>"

section \<open>Modes and prices\<close>

definition basePrices :: "(string, float64) gomap" where
  "basePrices =
     [(''bitcoin'', Fin 67500), (''ethereum'', Fin 3450), (''solana'', Fin 172),
      (''cardano'', fl (62 / 100)), (''ripple'', fl (58 / 100))]"

definition mock_getEnv :: "environment \<Rightarrow> string \<Rightarrow> string \<Rightarrow> string" where
  "mock_getEnv osenv key fallback = (let v = osenv key in if v \<noteq> '''' then v else fallback)"

definition getMode :: "string \<Rightarrow> string \<Rightarrow> string" where
  "getMode rawQuery defaultMode =
     (let m = Values_Get (url_Query rawQuery) ''mode'' in if m \<noteq> '''' then m else defaultMode)"

definition getPrice :: "'w mock_env \<Rightarrow> string \<Rightarrow> 'w \<Rightarrow> float64 \<times> 'w" where
  "getPrice me symbol w =
     (let base = (case gm_get basePrices symbol of Some p \<Rightarrow> p | None \<Rightarrow> Fin 100)
      in case me_Float64 me w of
           (x, w1) \<Rightarrow>
             if me_Getenv me ''MOCK_MODE'' = ''inconsistent''
             then (f_mul base (f_add (fl (1 / 2)) x), w1)
             else (f_mul base (f_add (Fin 1) (f_mul (f_sub x (fl (1 / 2))) (fl (4 / 100)))), w1))"

text \<open>The response of a failure mode, or none when the handler goes on.\<close>

definition applyMode :: "'w mock_env \<Rightarrow> string \<Rightarrow> 'w \<Rightarrow> mock_reply option \<times> 'w" where
  "applyMode me mode w =
     (if mode = ''rate_limit'' then
        (case me_Intn me 30 w of
           (n, w1) \<Rightarrow>
             (Some (json_reply_of 429 [(''Retry-After'', strconv_Itoa (30 + n))]
                (line (json_map [(''error'', json_quote ''rate limit exceeded'')]))), w1))
      else if mode = ''error'' then
        (Some (json_reply_of 500 [] (line (json_map [(''error'', json_quote ''internal server error'')]))), w)
      else if mode = ''malformed'' then
        (Some (json_reply_of 200 []
           (''{'' @ json_quote ''invalid'' @ '': json, '' @ json_quote ''broken'' @ '': [}'')), w)
      else if mode = ''delayed'' then
        (let delay = mock_getEnv (me_Getenv me) ''MOCK_DELAY'' ''3s'';
             d = (case ParseDuration delay of Some d \<Rightarrow> d | None \<Rightarrow> 3 * second)
         in (None, me_Sleep me d w))
      else (None, w))"

section \<open>Handlers\<close>

definition clean_symbol :: "'w mock_env \<Rightarrow> string \<Rightarrow> string" where
  "clean_symbol me s = strings_TrimSpace (strings_ToLower (me_lower me) s)"

definition coingecko_price :: "float64 \<Rightarrow> float64 \<Rightarrow> time \<Rightarrow> string option" where
  "coingecko_price price x now =
     do {
       usd \<leftarrow> json_float price;
       cap \<leftarrow> json_float (f_mul price (Fin 19000000));
       vol \<leftarrow> json_float (f_mul price (Fin 500000));
       chg \<leftarrow> json_float (f_mul (f_sub x (fl (1 / 2))) (Fin 10));
       Some (json_map [(''usd'', usd), (''usd_market_cap'', cap), (''usd_24h_vol'', vol), (''usd_24h_change'', chg),
         (''last_updated_at'', strconv_Itoa (now div second))])
     }"

fun coingecko_result ::
    "'w mock_env \<Rightarrow> string list \<Rightarrow> (string, string option) gomap \<Rightarrow> 'w \<Rightarrow> (string, string option) gomap \<times> 'w" where
  "coingecko_result me [] result w = (result, w)"
| "coingecko_result me (s # ss) result w =
     (let symbol = clean_symbol me s
      in case getPrice me symbol w of
           (price, w1) \<Rightarrow>
             (case me_Float64 me w1 of
                (x, w2) \<Rightarrow>
                  (case me_Now me w2 of
                     (now, w3) \<Rightarrow>
                       coingecko_result me ss (gm_put symbol (coingecko_price price x now) result) w3)))"

definition handleCoinGecko :: "'w mock_env \<Rightarrow> string \<Rightarrow> string \<Rightarrow> int \<times> 'w \<Rightarrow> mock_reply \<times> int \<times> 'w" where
  "handleCoinGecko me rawQuery defaultMode st =
     (case st of
        (requestCount, w) \<Rightarrow>
          (let count = wrap64 (requestCount + 1); mode = getMode rawQuery defaultMode
           in case applyMode me mode w of
                (Some reply, w1) \<Rightarrow> (reply, count, w1)
              | (None, w1) \<Rightarrow>
                  (let symbols = strings_Split CHR '','' (Values_Get (url_Query rawQuery) ''ids'')
                   in case coingecko_result me symbols [] w1 of
                        (r, w2) \<Rightarrow>
                          (json_reply_of 200 []
                             (if list_ex (\<lambda>kv. snd kv = None) r then ''''
                              else line (json_map (map (\<lambda>(k, v). (k, the v)) r))), count, w2))))"

text \<open>One asset as the handler writes it.\<close>

definition asset_text :: "'w mock_env \<Rightarrow> string \<Rightarrow> float64 \<Rightarrow> float64 \<Rightarrow> string" where
  "asset_text me symbol price x =
     json_map
       (map (\<lambda>(k, v). (k, json_quote v))
         [(''id'', symbol), (''rank'', ''1''), (''symbol'', strings_ToUpper (me_upper me) (take 3 symbol)), (''name'', symbol),
          (''supply'', ''19000000''), (''maxSupply'', ''21000000''),
          (''marketCapUsd'', sprintf_2f (f_mul price (Fin 19000000))),
          (''volumeUsd24Hr'', sprintf_2f (f_mul price (Fin 500000))), (''priceUsd'', sprintf_2f price),
          (''changePercent24Hr'', sprintf_2f (f_mul (f_sub x (fl (1 / 2))) (Fin 10))),
          (''vwap24Hr'', sprintf_2f (f_mul price (fl (99 / 100))))])"

fun coincap_data :: "'w mock_env \<Rightarrow> string list \<Rightarrow> 'w \<Rightarrow> string list \<times> 'w" where
  "coincap_data me [] w = ([], w)"
| "coincap_data me (s # ss) w =
     (let symbol = clean_symbol me s
      in case getPrice me symbol w of
           (price, w1) \<Rightarrow>
             (case me_Float64 me w1 of
                (x, w2) \<Rightarrow>
                  (case coincap_data me ss w2 of (rest, w3) \<Rightarrow> (asset_text me symbol price x # rest, w3))))"

definition handleCoinCap :: "'w mock_env \<Rightarrow> string \<Rightarrow> string \<Rightarrow> int \<times> 'w \<Rightarrow> mock_reply \<times> int \<times> 'w" where
  "handleCoinCap me rawQuery defaultMode st =
     (case st of
        (requestCount, w) \<Rightarrow>
          (let count = wrap64 (requestCount + 1); mode = getMode rawQuery defaultMode
           in case applyMode me mode w of
                (Some reply, w1) \<Rightarrow> (reply, count, w1)
              | (None, w1) \<Rightarrow>
                  (let symbols = strings_Split CHR '','' (Values_Get (url_Query rawQuery) ''ids'')
                   in case coincap_data me symbols w1 of
                        (data, w2) \<Rightarrow>
                          (case me_Now me w2 of
                             (now, w3) \<Rightarrow>
                               (json_reply_of 200 []
                                  (line (json_map [(''data'', ''['' @ strings_Join data '','' @ '']''),
                                     (''timestamp'', strconv_Itoa (now div 1000000))])), count, w3)))))"

text \<open>
  The server of \<open>main\<close>: its patterns have no trailing slash, so a request is dispatched by its
  exact path, and any other path is not found.
\<close>

definition mock_serve :: "'w mock_env \<Rightarrow> string \<Rightarrow> string \<Rightarrow> int \<times> 'w \<Rightarrow> mock_reply \<times> int \<times> 'w" where
  "mock_serve me path rawQuery st =
     (let defaultMode = mock_getEnv (me_Getenv me) ''MOCK_MODE'' ''success''
      in if path = ''/api/v3/simple/price'' then handleCoinGecko me rawQuery defaultMode st
         else if path = ''/v2/assets'' then handleCoinCap me rawQuery defaultMode st
         else if path = ''/health'' then
           (json_reply_of 200 []
              (line (json_map [(''status'', json_quote ''ok''), (''mode'', json_quote defaultMode)])), st)
         else if path = ''/mode'' then
           (json_reply_of 200 []
              (line (json_map [(''default_mode'', json_quote defaultMode),
                 (''requests'', json_quote (strconv_Itoa (fst st)))])), st)
         else
           (\<lparr>mr_status = 404,
             mr_headers = [(''Content-Type'', ''text/plain; charset=utf-8''), (''X-Content-Type-Options'', ''nosniff'')],
             mr_body = line ''404 page not found''\<rparr>, st))"

definition mock_addr :: "environment \<Rightarrow> string" where
  "mock_addr osenv = '':'' @ mock_getEnv osenv ''MOCK_PORT'' ''8082''"

section \<open>The adapters and the mock\<close>

text \<open>An HTTP client whose requests reach the server at \<open>base\<close>; others fail.\<close>

definition mock_http :: "string \<Rightarrow> 'w mock_env \<Rightarrow> (int \<times> 'w) http_client" where
  "mock_http base me =
     \<lparr>hc_NewRequest = (\<lambda>_. None),
      hc_Do = (\<lambda>timeout url st.
        if take (length base) url \<noteq> base then (Inl (ErrorString ''no such host''), st)
        else
          case strings_Cut CHR ''?'' (drop (length base) url) of
            (path, rawQuery) \<Rightarrow>
              (case mock_serve me path rawQuery st of
                 (reply, st1) \<Rightarrow>
                   (Inr \<lparr>rs_StatusCode = mr_status reply, rs_Body = mr_body reply, rs_BodyErr = None\<rparr>, st1)))\<rparr>"

text \<open>What a mode is to look like to the adapters.\<close>

definition mode_exchange :: "string \<Rightarrow> exchange option" where
  "mode_exchange mode =
     (if mode = ''rate_limit'' then Some (BadStatus 429)
      else if mode = ''error'' then Some (BadStatus 500)
      else if mode = ''malformed'' then Some BadBody
      else None)"

text \<open>For closed examples: a random source that always answers one half.\<close>

definition demo_mock :: "string \<Rightarrow> unit mock_env" where
  "demo_mock mode =
     \<lparr>me_Getenv = (\<lambda>_. '''')(''MOCK_MODE'' := mode), me_Intn = (\<lambda>n w. (0, w)),
      me_Float64 = (\<lambda>w. (Fin (1 / 2), w)), me_Now = (\<lambda>w. (0, w)), me_Sleep = (\<lambda>d w. w), me_lower = id, me_upper = id\<rparr>"

definition demo_mock_adapters :: "string \<Rightarrow> (int \<times> unit) adapter_env" where
  "demo_mock_adapters mode =
     \<lparr>ae_http = mock_http ''http://mock'' (demo_mock mode),
      ae_runtime =
        \<lparr>rt_Now = (\<lambda>w. (0, w)), rt_CtxErr = (\<lambda>_. None), rt_Wait = (\<lambda>_ w. (None, w)),
         rt_Float64 = (\<lambda>w. (Fin 0, w))\<rparr>,
      ae_unicode = id, ae_decodeErr = (\<lambda>_. ErrorString ''invalid character'')\<rparr>"

text \<open>How \<open>url.QueryEscape\<close> writes one byte.\<close>

definition escape_char :: "char \<Rightarrow> string" where
  "escape_char c =
     (if query_unreserved c then [c]
      else if c = CHR '' '' then ''+''
      else [CHR ''%'', hex_digit (of_char c div 16), hex_digit (of_char c mod 16)])"

section \<open>Lemmas\<close>

lemma unreserved_special:
  "query_unreserved c \<Longrightarrow> c \<notin> {CHR ''%'', CHR ''+'', CHR ''&'', CHR ''='', CHR '';'', CHR ''?''}"
  by (auto simp: query_unreserved_def is_digit_def)

lemma hex_digit_facts:
  assumes "d < 16"
  shows "hex_value (hex_digit d) = Some d"
    and "hex_digit d \<notin> {CHR ''%'', CHR ''+'', CHR ''&'', CHR ''='', CHR '';'', CHR ''?''}"
proof -
  show "hex_value (hex_digit d) = Some d"
    using assms by (auto simp: hex_value_def byte_in_def hex_digit_def digit_char_def)
  have "query_unreserved (hex_digit d)"
    using assms by (auto simp: query_unreserved_def is_digit_def hex_digit_def digit_char_def)
  then show "hex_digit d \<notin> {CHR ''%'', CHR ''+'', CHR ''&'', CHR ''='', CHR '';'', CHR ''?''}" by (rule unreserved_special)
qed

lemma QueryEscape_Cons: "QueryEscape (c # s) = escape_char c @ QueryEscape s" "QueryEscape [] = []"
  by (simp_all add: QueryEscape_def escape_char_def)

lemma byte_hex: "(of_char c :: nat) div 16 < 16" "(of_char c :: nat) mod 16 < 16"
proof -
  show "(of_char c :: nat) div 16 < 16"
    using nat_of_char_less_256 [of c] by (intro less_mult_imp_div_less) simp
qed simp

lemma QueryUnescape_char: "QueryUnescape (escape_char c @ t) = map_option (Cons c) (QueryUnescape t)"
  using unreserved_special [of c] hex_digit_facts [OF byte_hex(1) [of c]] hex_digit_facts [OF byte_hex(2) [of c]]
  by (simp add: escape_char_def map_option_case split: option.split)

lemma QueryUnescape_Escape: "QueryUnescape (QueryEscape s) = Some s"
  by (induction s) (simp_all add: QueryEscape_Cons QueryUnescape_char)

lemma QueryEscape_special: "c \<in> {CHR ''&'', CHR ''='', CHR '';'', CHR ''?''} \<Longrightarrow> c \<notin> set (QueryEscape s)"
proof (induction s)
  case (Cons x s)
  have "c \<notin> set (escape_char x)"
    using Cons.prems unreserved_special [of x] hex_digit_facts(2) [OF byte_hex(1) [of x]] hex_digit_facts(2) [OF byte_hex(2) [of x]]
    by (auto simp: escape_char_def)
  with Cons show ?case by (simp add: QueryEscape_Cons)
qed (simp add: QueryEscape_Cons)

text \<open>What the adapter sends and what the server reads of it.\<close>

lemma coincap_request:
  "coincap_url p syms = ccp_baseURL p @ ''/v2/assets?ids='' @ QueryEscape (strings_Join syms '','')"
proof -
  have "QueryEscape ''ids'' = ''ids''"
    by (rule QueryEscape_unreserved) (simp add: query_unreserved_def)
  then show ?thesis by (simp add: coincap_url_def url_Encode_def sort_keys_def gm_put_def)
qed

lemma query_ids: "url_Query (''ids='' @ QueryEscape t) = [(''ids'', t)]"
proof -
  have "CHR ''&'' \<notin> set (''ids='' @ QueryEscape t)" "CHR '';'' \<notin> set (''ids='' @ QueryEscape t)"
    using QueryEscape_special [of _ t] by auto
  then show ?thesis
    by (simp add: url_Query_def strings_Split_no_char query_pair_def strings_Cut_def QueryUnescape_Escape
        List.map_filter_simps)
qed

lemma default_mode: "getMode (''ids='' @ QueryEscape t) mode = mode"
  unfolding getMode_def query_ids by (simp add: Values_Get_def)

lemma mock_answers:
  "hc_Do (mock_http base me) d (base @ ''/v2/assets?ids='' @ QueryEscape t) st =
     (case handleCoinCap me (''ids='' @ QueryEscape t) (mock_getEnv (me_Getenv me) ''MOCK_MODE'' ''success'') st of
        (reply, st1) \<Rightarrow>
          (Inr \<lparr>rs_StatusCode = mr_status reply, rs_Body = mr_body reply, rs_BodyErr = None\<rparr>, st1))"
  by (simp add: mock_http_def strings_Cut_def mock_serve_def Let_def)

lemma malformed_body:
  "Decoder_value (''{'' @ json_quote ''invalid'' @ '': json, '' @ json_quote ''broken'' @ '': [}'') = None"
  by code_simp

lemma mock_exchange:
  assumes "mode_exchange (mock_getEnv (me_Getenv me) ''MOCK_MODE'' ''success'') = Some x"
  shows "exchange_of (mock_http base me) (decodeCoinCap env) d (base @ ''/v2/assets?ids='' @ QueryEscape t) st = x"
proof -
  define mode where "mode = mock_getEnv (me_Getenv me) ''MOCK_MODE'' ''success''"
  obtain count w where st: "st = (count, w)" by (cases st)
  obtain n w1 where n: "me_Intn me 30 w = (n, w1)" by (metis surj_pair)
  have mode: "mode \<in> {''rate_limit'', ''error'', ''malformed''}"
    using assms by (auto simp: mode_exchange_def mode_def [symmetric] split: if_splits)
  have new: "hc_NewRequest (mock_http base me) url = None" for url by (simp add: mock_http_def)
  from mode consider "mode = ''rate_limit''" | "mode = ''error''" | "mode = ''malformed''" by blast
  then show ?thesis
  proof cases
    case 1
    then have "x = BadStatus 429" using assms by (simp add: mode_exchange_def mode_def [symmetric])
    with 1 n show ?thesis
      unfolding exchange_of_def mock_answers mode_def [symmetric] handleCoinCap_def default_mode st
      by (simp add: new applyMode_def json_reply_of_def Let_def)
  next
    case 2
    then have "x = BadStatus 500" using assms by (simp add: mode_exchange_def mode_def [symmetric])
    with 2 show ?thesis
      unfolding exchange_of_def mock_answers mode_def [symmetric] handleCoinCap_def default_mode st
      by (simp add: new applyMode_def json_reply_of_def Let_def)
  next
    case 3
    then have "x = BadBody" using assms by (simp add: mode_exchange_def mode_def [symmetric])
    with 3 malformed_body show ?thesis
      unfolding exchange_of_def mock_answers mode_def [symmetric] handleCoinCap_def default_mode st
      by (simp add: new applyMode_def json_reply_of_def decodeCoinCap_def decoded_def Let_def)
  qed
qed

section \<open>Properties\<close>

text \<open>
  The failure modes simulate what they say: with \<open>MOCK_MODE\<close> set to \<open>rate_limit\<close>, \<open>error\<close> or
  \<open>malformed\<close>, the CoinCap adapter talking to the mock gets, for whatever symbols, the error of
  that class: rate limited, transient or permanent.
\<close>

theorem mock_modes_reach_adapter:
  assumes "ae_http env = mock_http (ccp_baseURL p) me"
    and "mode_exchange (mock_getEnv (me_Getenv me) ''MOCK_MODE'' ''success'') = Some x"
  shows "adapter_policy x (snd (fst (coincap_FetchMarketData env p (s # ss) st)))"
  using coincap_policy [of env p s ss st] unfolding coincap_request assms(1) mock_exchange [OF assms(2)] .

theorem mock_modes_reach_adapter_witness:
  "adapter_policy (BadStatus 429)
     (snd (fst (coincap_FetchMarketData (demo_mock_adapters ''rate_limit'') (NewCoinCapProvider ''http://mock/'' 5)
        [''bitcoin''] (0, ()))))"
  by (rule mock_modes_reach_adapter [where me = "demo_mock ''rate_limit''"])
    (simp_all add: demo_mock_adapters_def NewCoinCapProvider_def strings_TrimRight_def mode_exchange_def
      mock_getEnv_def demo_mock_def)

text \<open>
  The CoinGecko adapter gets nothing from the mock: whatever the path its base URL adds, the mock
  has no such route, and the adapter reports a permanent error.
\<close>

theorem mock_lacks_coingecko:
  assumes "ae_http env = mock_http host me" and "cgp_baseURL p = host @ prefix" and "CHR ''?'' \<notin> set prefix"
  shows "adapter_policy (BadStatus 404) (snd (fst (coingecko_FetchMarketData env p (s # ss) st)))"
proof -
  define path where "path = prefix @ ''/coins/markets''"
  obtain q where url: "coingecko_url p (s # ss) = host @ path @ CHR ''?'' # q"
    by (simp add: coingecko_url_def assms(2) path_def Let_def)
  have "CHR ''?'' \<notin> set path" using assms(3) by (simp add: path_def)
  then have cut: "strings_Cut CHR ''?'' (path @ CHR ''?'' # q) = (path, q)"
    by (auto simp: strings_Cut_def takeWhile_append dropWhile_append)
  have "path \<notin> {''/api/v3/simple/price'', ''/v2/assets'', ''/health'', ''/mode''}"
    unfolding path_def by (auto dest: arg_cong [where f = "\<lambda>x. take 8 (rev x)"])
  then have "\<exists>reply. mock_serve me path q st = (reply, st) \<and> mr_status reply = 404"
    by (simp add: mock_serve_def Let_def)
  then have "exchange_of (mock_http host me) (decodeCoinGecko env) (cgp_timeout p) (coingecko_url p (s # ss)) st = BadStatus 404"
    unfolding exchange_of_def url by (auto simp: mock_http_def cut)
  then show ?thesis using coingecko_policy [of env p s ss st] unfolding assms(1) by simp
qed

theorem mock_lacks_coingecko_witness:
  "adapter_policy (BadStatus 404)
     (snd (fst (coingecko_FetchMarketData (demo_mock_adapters '''') (NewCoinGeckoProvider ''http://mock/api/v3/'' 5)
        [''bitcoin''] (0, ()))))"
  by (rule mock_lacks_coingecko [where host = "''http://mock''" and me = "demo_mock ''''" and prefix = "''/api/v3''"])
    (simp_all add: demo_mock_adapters_def NewCoinGeckoProvider_def strings_TrimRight_def)

end
