(* ===== verification/Mock_Answers.thy ===== *)
theory Mock_Answers
  imports Mock_Provider
begin

text \<open>
  The mock provider in its successful modes and the CoinCap adapter: the JSON document that
  \<open>handleCoinCap\<close> writes is one the adapter decodes, and every requested coin comes back with a
  price, but under a symbol the mock has made up from the coin's identifier.
\<close>

section \<open>Specification\<close>

text \<open>Identifiers as the providers use them: lower-case letters, digits and hyphens.\<close>

definition id_char :: "char \<Rightarrow> bool" where
  "id_char c \<longleftrightarrow>
     (let k = (of_char c :: nat) in 97 \<le> k \<and> k \<le> 122 \<or> 48 \<le> k \<and> k \<le> 57 \<or> k = 45)"

definition plain_id :: "string \<Rightarrow> bool" where
  "plain_id s \<longleftrightarrow> s \<noteq> [] \<and> list_all id_char s"

text \<open>What is relied on of \<open>math/rand\<close>: numbers from 0 up to 1.\<close>

definition unit_random :: "'w mock_env \<Rightarrow> bool" where
  "unit_random me \<longleftrightarrow> (\<forall>w. \<exists>x. fst (me_Float64 me w) = Fin x \<and> 0 \<le> x \<and> x < 1)"

text \<open>The members of an asset in the order in which they are written.\<close>

definition asset_fields :: "'w mock_env \<Rightarrow> string \<Rightarrow> float64 \<Rightarrow> float64 \<Rightarrow> (string \<times> string) list" where
  "asset_fields me symbol price x =
     [(''changePercent24Hr'', sprintf_2f (f_mul (f_sub x (fl (1 / 2))) (Fin 10))), (''id'', symbol),
      (''marketCapUsd'', sprintf_2f (f_mul price (Fin 19000000))), (''maxSupply'', ''21000000''), (''name'', symbol),
      (''priceUsd'', sprintf_2f price), (''rank'', ''1''), (''supply'', ''19000000''),
      (''symbol'', strings_ToUpper (me_upper me) (take 3 symbol)),
      (''volumeUsd24Hr'', sprintf_2f (f_mul price (Fin 500000))),
      (''vwap24Hr'', sprintf_2f (f_mul price (fl (99 / 100))))]"

text \<open>One asset for each identifier, with a price that is a number.\<close>

definition priced_asset :: "'w mock_env \<Rightarrow> string \<Rightarrow> (string \<times> string) list \<Rightarrow> bool" where
  "priced_asset me s fs \<longleftrightarrow> (\<exists>v x. \<bar>v\<bar> \<le> 300000 \<and> fs = asset_fields me s (Fin v) x)"

text \<open>The assets decode to records with a numeric price and the mock's symbol.\<close>

definition mock_item :: "string \<Rightarrow> coincapAssetResponse \<Rightarrow> bool" where
  "mock_item s a \<longleftrightarrow> cc_ID a = s \<and> cc_Symbol a = map char_upper (take 3 s) \<and> coincap_numeric a"

text \<open>An object of strings as a JSON value.\<close>

definition object_of :: "(string \<times> string) list \<Rightarrow> json" where
  "object_of fs = JObject (map (\<lambda>(k, v). (k, JString v)) fs)"

section \<open>Reading the answer\<close>

lemma json_value_object:
  assumes "fs \<noteq> []" and "length fs \<le> n" and "d < maxNestingDepth"
    and "list_all (\<lambda>(k, v). utf8_ValidString k \<and> utf8_ValidString v) fs"
  shows "json_value (Suc (Suc n)) d (json_object fs @ r) = Some (JObject (map (\<lambda>(k, v). (k, JString v)) fs), r)"
proof -
  let ?body = "strings_Join (map (\<lambda>(k, v). json_quote k @ '':'' @ json_quote v) fs) '','' @ ''}'' @ r"
  have obj: "json_object fs @ r = CHR ''{'' # ?body" by (simp add: json_object_def)
  have "\<exists>q. ?body = dquote # q"
    using assms(1) by (cases fs rule: remdups_adj.cases) (auto simp: json_quote_def)
  then have "take 1 (skip_space ?body) \<noteq> ''}''" by (auto simp: char_byte_eq simp del: of_char_eq_iff)
  then have "json_value (Suc (Suc n)) d (json_object fs @ r)
      = map_option (\<lambda>(ms, r'). (JObject ms, r')) (json_members (Suc n) (Suc d) ?body)"
    unfolding obj using assms(3) by (subst json_value.simps) (simp del: json_members.simps)
  also have "\<dots> = Some (JObject (map (\<lambda>(k, v). (k, JString v)) fs), r)"
    using json_members_fields [OF assms(1,2,4), of "Suc d" r] by simp
  finally show ?thesis .
qed

lemma bracket_no_space [simp]: "\<not> json_space CHR ''[''" "\<not> json_space CHR '']''"
  by (simp_all add: json_space_def)

lemma json_elements_objects:
  assumes "objs \<noteq> []" and "d < maxNestingDepth"
    and "list_all (\<lambda>fs. fs \<noteq> [] \<and> length fs \<le> k \<and> list_all (\<lambda>(k, v). utf8_ValidString k \<and> utf8_ValidString v) fs) objs"
  shows "length objs + k + 2 \<le> n \<Longrightarrow> json_elements n d (strings_Join (map json_object objs) '','' @ '']'' @ r) =
    Some (map (\<lambda>fs. JObject (map (\<lambda>(k, v). (k, JString v)) fs)) objs, r)"
  using assms(1,3)
proof (induction objs arbitrary: n)
  case (Cons fs objs)
  obtain n1 where n: "n = Suc (Suc (Suc n1))" "k \<le> n1" "length objs + k \<le> n1"
    using Cons.prems(1) by (cases n; cases "n - 1"; cases "n - 2") auto
  have head: "json_value (Suc (Suc n1)) d (json_object fs @ t) = Some (JObject (map (\<lambda>(k, v). (k, JString v)) fs), t)" for t
    using Cons.prems(3) n(2) by (intro json_value_object assms(2)) auto
  show ?case
  proof (cases objs)
    case Nil
    then show ?thesis using head [of "'']'' @ r"] by (simp add: n(1) del: json_value.simps)
  next
    case more: (Cons g gs)
    have "json_elements (Suc (Suc n1)) d (strings_Join (map json_object objs) '','' @ '']'' @ r) =
        Some (map (\<lambda>fs. JObject (map (\<lambda>(k, v). (k, JString v)) fs)) objs, r)"
      using Cons.IH [of "Suc (Suc n1)"] Cons.prems n(3) more by simp
    then show ?thesis
      using head [of "'','' @ strings_Join (map json_object objs) '','' @ '']'' @ r"]
      unfolding n(1) by (subst json_elements.simps) (simp add: more del: json_value.simps json_elements.simps)
  qed
qed simp

lemma dec_digits_hd: "0 < n \<Longrightarrow> hd (dec_digits n) \<noteq> CHR ''0''"
proof (induction n rule: dec_digits.induct)
  case (1 n)
  show ?case
  proof (cases "n < 10")
    case True
    with 1(2) show ?thesis
      by (auto simp: dec_digits.simps [of n] digit_char_def dest!: arg_cong [where f = "of_char :: char \<Rightarrow> nat"])
  next
    case False
    with 1 show ?thesis by (simp add: dec_digits.simps [of n] dec_digits_not_Nil)
  qed
qed

lemma json_number_digits:
  assumes "r = [] \<or> \<not> is_digit (hd r) \<and> hd r \<notin> {CHR ''.'', CHR ''e'', CHR ''E''}"
  shows "json_number (dec_digits n @ r) = Some (dec_digits n, r)"
proof -
  let ?ds = "dec_digits n"
  obtain x xs where ds: "?ds = x # xs" using dec_digits_not_Nil [of n] by (cases ?ds) auto
  have digits: "list_all is_digit ?ds" by (rule dec_digits_are_digits)
  have "takeWhile is_digit (?ds @ r) = ?ds" "dropWhile is_digit (?ds @ r) = r"
    using digits assms by (auto simp: list_all_iff takeWhile_append dropWhile_append) (cases r; simp)+
  moreover have "x = CHR ''0'' \<Longrightarrow> xs = []"
    using dec_digits_hd [of n] ds by (cases "n = 0") (auto simp: dec_digits.simps [of 0])
  ultimately have "json_int (?ds @ r) = Some (?ds, r)"
    using ds by (auto simp: json_int_def json_digits_def)
  moreover have "x \<noteq> CHR ''-''" using digits ds is_digit_not_sign [of x] by auto
  moreover have "json_frac r = Some ([], r)" "json_exp r = Some ([], r)"
    using assms by (cases r; auto simp: json_frac_def json_exp_def)+
  ultimately show ?thesis using ds by (simp add: json_number_def Let_def)
qed

lemma json_members_step:
  assumes "utf8_ValidString k" and "json_value n d t = Some (v, r1)"
  shows "json_members (Suc n) d (json_quote k @ '':'' @ t) =
    (case skip_space r1 of
       [] \<Rightarrow> None
     | c # r2 \<Rightarrow>
         if c = CHR ''}'' then Some ([(k, v)], r2)
         else if c = CHR '','' then map_option (\<lambda>(ms, r3). ((k, v) # ms, r3)) (json_members n d r2)
         else None)"
proof -
  show ?thesis
    using json_chars_quote [OF assms(1), of "'':'' @ t"] assms(2)
    by (subst json_members.simps) (simp del: json_value.simps json_members.simps)
qed

lemma json_value_number:
  assumes "r = [] \<or> \<not> is_digit (hd r) \<and> hd r \<notin> {CHR ''.'', CHR ''e'', CHR ''E''}"
  shows "json_value (Suc n) d (dec_digits i @ r) = Some (JNumber (dec_digits i), r)"
proof -
  obtain x xs where ds: "dec_digits i = x # xs" using dec_digits_not_Nil [of i] by (cases "dec_digits i") auto
  have x: "is_digit x" using dec_digits_are_digits [of i] ds by simp
  then have "x \<notin> {CHR ''{'', CHR ''['', dquote, CHR ''n'', CHR ''t'', CHR ''f''}" "\<not> json_space x"
    by (auto simp: is_digit_def json_space_def dquote_def)
  then show ?thesis using json_number_digits [OF assms, of i] ds by simp
qed

lemma mock_body_decodes:
  assumes "objs \<noteq> []" and "0 \<le> t"
    and "list_all (\<lambda>fs. fs \<noteq> [] \<and> length fs \<le> k \<and> list_all (\<lambda>(k, v). utf8_ValidString k \<and> utf8_ValidString v) fs) objs"
  shows "Decoder_value (line (json_map [(''data'', ''['' @ strings_Join (map json_object objs) '','' @ '']''),
      (''timestamp'', strconv_Itoa t)])) =
    Some (JObject [(''data'', JArray (map object_of objs)), (''timestamp'', JNumber (strconv_Itoa t))])"
proof -
  define nl where "nl = [char_of (10 :: nat)]"
  define A where "A = strings_Join (map json_object objs) '',''"
  define ds where "ds = strconv_Itoa t"
  define inner where "inner = json_quote ''data'' @ '':'' @ ''['' @ A @ '']'' @ '','' @ json_quote ''timestamp'' @ '':'' @ ds @ ''}'' @ nl"
  define N where "N = length objs + k + 10 + 2 * (length inner + 1)"
  let ?body = "line (json_map [(''data'', ''['' @ A @ '']''), (''timestamp'', ds)])"
  have body: "?body = CHR ''{'' # inner"
    by (simp add: line_def json_map_def sort_keys_def inner_def nl_def)
  have ds: "ds = dec_digits (nat t)" using assms(2) by (simp add: ds_def strconv_Itoa_def)
  have utf: "utf8_ValidString ''data''" "utf8_ValidString ''timestamp''"
    by (auto simp: is_ascii_def intro!: utf8_ValidString_ascii)
  have depth: "Suc (Suc 0) < maxNestingDepth" by (simp add: maxNestingDepth_def)
  have num: "json_value (Suc (Suc m)) (Suc 0) (ds @ ''}'' @ nl) = Some (JNumber ds, ''}'' @ nl)" for m
    unfolding ds by (rule json_value_number) (simp add: is_digit_def)
  have ts: "json_members (Suc (Suc (Suc m))) (Suc 0) (json_quote ''timestamp'' @ '':'' @ ds @ ''}'' @ nl) = Some ([(''timestamp'', JNumber ds)], nl)" for m
    unfolding json_members_step [OF utf(2) num] by simp
  have first: "\<exists>q. A = CHR ''{'' # q"
    using assms(1) unfolding A_def by (cases objs rule: remdups_adj.cases) (auto simp: json_object_def)
  have arr: "json_value (Suc m) (Suc 0) (''['' @ A @ '']'' @ r) = Some (JArray (map object_of objs), r)"
    if "length objs + k + 2 \<le> m" for m r
  proof -
    have "json_elements m (Suc (Suc 0)) (A @ '']'' @ r) = Some (map object_of objs, r)"
      using json_elements_objects [OF assms(1) _ assms(3) that, of 2 r] depth
      by (simp add: A_def object_of_def numeral_2_eq_2)
    then show ?thesis using first depth by (auto simp del: json_elements.simps)
  qed
  obtain m where N: "N = Suc (Suc (Suc (Suc (Suc m))))" "length objs + k + 2 \<le> Suc (Suc m)"
    by (rule that [of "N - 5"]) (simp_all add: N_def)
  have quote: "\<exists>q. inner = dquote # q" by (simp add: inner_def json_quote_def)
  have "json_members (Suc (Suc (Suc (Suc m)))) (Suc 0) inner =
      Some ([(''data'', JArray (map object_of objs)), (''timestamp'', JNumber ds)], nl)"
    unfolding inner_def json_members_step [OF utf(1) arr [OF N(2)]] using ts by (simp del: json_members.simps)
  then have "json_value N 0 (CHR ''{'' # inner) =
      Some (JObject [(''data'', JArray (map object_of objs)), (''timestamp'', JNumber ds)], nl)"
    using quote depth unfolding N(1) by (subst json_value.simps) (auto simp: char_byte_eq simp del: json_members.simps of_char_eq_iff)
  moreover have "json_value N 0 (CHR ''{'' # inner) = json_value (2 * length (CHR ''{'' # inner) + 2) 0 (CHR ''{'' # inner)"
    by (rule json_fuel(1)) (simp_all add: N_def)
  ultimately show ?thesis unfolding A_def [symmetric] ds_def [symmetric] body Decoder_value_def by simp
qed



section \<open>Prices\<close>

lemma fl_abs_le:
  assumes "\<bar>x\<bar> \<le> z" and "is_double z" and "z < pow2 1024"
  shows "\<exists>v. fl x = Fin v \<and> \<bar>v\<bar> \<le> z"
proof -
  have "round_mag \<bar>x\<bar> \<le> z" using round_mag_mono [OF assms(1)] round_mag_double [OF assms(2)] by simp
  then show ?thesis using assms(3) by (auto simp: fl_def Let_def)
qed

lemma fl_abs_le_int: "\<bar>x\<bar> \<le> of_int n \<Longrightarrow> 0 \<le> n \<Longrightarrow> n \<le> 2 ^ 53 \<Longrightarrow> \<exists>v. fl x = Fin v \<and> \<bar>v\<bar> \<le> of_int n"
  by (rule fl_abs_le) (simp_all add: is_double_of_int int_below_pow2_1024)

lemma basePrice_bounded: "\<exists>b. (case gm_get basePrices s of Some p \<Rightarrow> p | None \<Rightarrow> Fin 100) = Fin b \<and> \<bar>b\<bar> \<le> 100000"
proof -
  obtain c where c: "fl (62 / 100) = Fin c" "\<bar>c\<bar> \<le> 1" using fl_abs_le_int [of "62 / 100" 1] by auto
  obtain r where r: "fl (58 / 100) = Fin r" "\<bar>r\<bar> \<le> 1" using fl_abs_le_int [of "58 / 100" 1] by auto
  show ?thesis using c r by (auto simp: basePrices_def gm_get_def)
qed

lemma getPrice_bounded:
  assumes "unit_random me"
  shows "\<exists>v. fst (getPrice me s w) = Fin v \<and> \<bar>v\<bar> \<le> 300000"
proof -
  obtain b where b: "(case gm_get basePrices s of Some p \<Rightarrow> p | None \<Rightarrow> Fin 100) = Fin b" "\<bar>b\<bar> \<le> 100000"
    using basePrice_bounded by blast
  obtain x w1 where x: "me_Float64 me w = (Fin x, w1)" "0 \<le> x" "x < 1"
    using assms unfolding unit_random_def by (metis prod.collapse)
  obtain h where h: "fl (1 / 2) = Fin h" "\<bar>h\<bar> \<le> 1" using fl_abs_le_int [of "1 / 2" 1] by auto
  obtain q where q: "fl (1 / 25) = Fin q" "\<bar>q\<bar> \<le> 1" using fl_abs_le_int [of "1 / 25" 1] by auto
  obtain d where d: "fl (x - h) = Fin d" "\<bar>d\<bar> \<le> 2" using fl_abs_le_int [of "x - h" 2] x h(2) by (auto simp: abs_le_iff)
  have "\<bar>d * q\<bar> \<le> 2 * 1" unfolding abs_mult using d(2) q(2) by (intro mult_mono) auto
  then obtain y where y: "fl (d * q) = Fin y" "\<bar>y\<bar> \<le> 2" using fl_abs_le_int [of "d * q" 2] by auto
  obtain v1 where v1: "fl (1 + y) = Fin v1" "\<bar>v1\<bar> \<le> 3" using fl_abs_le_int [of "1 + y" 3] y(2) by (auto simp: abs_le_iff)
  obtain v2 where v2: "fl (h + x) = Fin v2" "\<bar>v2\<bar> \<le> 3" using fl_abs_le_int [of "h + x" 3] x h(2) by (auto simp: abs_le_iff)
  have big: "\<exists>r. fl (b * v) = Fin r \<and> \<bar>r\<bar> \<le> 300000" if "\<bar>v\<bar> \<le> 3" for v
  proof -
    have "\<bar>b * v\<bar> \<le> 100000 * 3" unfolding abs_mult using b(2) that by (intro mult_mono) auto
    then show ?thesis using fl_abs_le_int [of "b * v" 300000] by simp
  qed
  show ?thesis
    using big [OF v1(2)] big [OF v2(2)]
    by (auto simp: getPrice_def b(1) x(1) h(1) q(1) d(1) y(1) v1(1) v2(1) f_sub_def Let_def)
qed

text \<open>A price that is written with two decimals is read as a number.\<close>

lemma two_digits: "n < 100 \<Longrightarrow> digits_value m [digit_char (n div 10), digit_char (n mod 10)] = Some (m * 100 + int n)"
  by (simp add: digit_val_digit_char is_digit_digit_char zdiv_int zmod_int)

lemma ParseFloat_2f:
  assumes "\<bar>x\<bar> \<le> 300000"
  shows "strconv_ParseFloat (sprintf_2f (Fin x)) \<noteq> None" and "sprintf_2f (Fin x) \<noteq> ''''"
proof -
  define n where "n = nat (round_even (\<bar>x\<bar> * 100))"
  let ?whole = "dec_digits (n div 100)" and ?fpart = "[digit_char (n mod 100 div 10), digit_char (n mod 10)]"
  have written: "sprintf_2f (Fin x) = (if x < 0 then ''-'' else '''') @ decimal_text ?whole ?fpart"
    by (simp add: n_def Let_def decimal_text_def)
  have "n mod 100 mod 10 = n mod 10" by (simp add: mod_mod_cancel)
  then have "digits_value (int (n div 100)) ?fpart = Some (int (n div 100) * 100 + int (n mod 100))"
    using two_digits [of "n mod 100" "int (n div 100)"] by simp
  moreover have "int (n div 100) * 100 + int (n mod 100) = int n" by (simp add: zdiv_int zmod_int)
  ultimately have v: "digits_value 0 (?whole @ ?fpart) = Some (int n)"
    by (simp add: digits_value_append digits_value_dec_digits)
  have whole: "?whole \<noteq> []" "list_all is_digit ?whole" by (simp_all add: dec_digits_not_Nil dec_digits_are_digits)
  have "round_even (\<bar>x\<bar> * 100) \<le> 30000000" using assms by (intro round_even_le_int) simp
  then have "n \<le> 30000000" by (simp add: n_def)
  then have "\<bar>dec_value (int n) (- int (length ?fpart))\<bar> \<le> of_int 30000000"
    by (simp add: dec_value_def rpow_def)
  from fl_abs_le_int [OF this] have "fl (dec_value (int n) (- int (length ?fpart))) \<noteq> PosInf" by auto
  then show "strconv_ParseFloat (sprintf_2f (Fin x)) \<noteq> None"
    unfolding written strconv_ParseFloat_def float_special_decimal [OF whole(2,1)] readFloat_decimal [OF v whole(1)]
    by (simp add: Let_def)
  show "sprintf_2f (Fin x) \<noteq> ''''" unfolding written using whole(1) by (simp add: decimal_text_def)
qed

lemma sprintf_2f_utf8: "utf8_ValidString (sprintf_2f f)"
proof (rule utf8_ValidString_ascii)
  have digits: "c \<in> set (dec_digits n) \<Longrightarrow> is_ascii c" for c n
    using dec_digits_are_digits [of n] by (auto simp: list_all_iff is_digit_def is_ascii_def)
  have digit: "d < 10 \<Longrightarrow> is_ascii (digit_char d)" for d by (simp add: digit_char_def is_ascii_def)
  have ascii_sign: "is_ascii CHR ''-''" "is_ascii CHR ''.''" "is_ascii CHR ''+''" "is_ascii CHR ''N''" "is_ascii CHR ''a''"
    "is_ascii CHR ''I''" "is_ascii CHR ''n''" "is_ascii CHR ''f''" by (simp_all add: is_ascii_def)
  show "list_all is_ascii (sprintf_2f f)"
    by (cases f) (auto simp: Let_def list_all_iff ascii_sign digit intro: digits)
qed

section \<open>Assets\<close>

lemma asset_text_object: "asset_text me symbol price x = json_object (asset_fields me symbol price x)"
  by (simp add: asset_text_def asset_fields_def json_map_def json_object_def sort_keys_def)

lemma plain_id_ascii: "plain_id s \<Longrightarrow> list_all is_ascii s"
  unfolding plain_id_def by (auto simp: list_all_iff id_char_def is_ascii_def Let_def)

lemma plain_id_no_comma: "plain_id s \<Longrightarrow> CHR '','' \<notin> set s"
  unfolding plain_id_def by (auto simp: list_all_iff id_char_def Let_def)

lemma plain_upper: "plain_id s \<Longrightarrow> strings_ToUpper f (take 3 s) = map char_upper (take 3 s)"
  using plain_id_ascii [of s] by (auto simp: strings_ToUpper_def list_all_iff dest: in_set_takeD)

lemma char_upper_ascii: "is_ascii c \<Longrightarrow> is_ascii (char_upper c)"
  by (auto simp: char_upper_def is_ascii_def)

lemma asset_fields_utf8:
  assumes "plain_id s"
  shows "asset_fields me s price x \<noteq> [] \<and> length (asset_fields me s price x) \<le> 11 \<and>
    list_all (\<lambda>(k, v). utf8_ValidString k \<and> utf8_ValidString v) (asset_fields me s price x)"
proof -
  have s: "utf8_ValidString s" using plain_id_ascii [OF assms] by (rule utf8_ValidString_ascii)
  have up: "utf8_ValidString (strings_ToUpper (me_upper me) (take 3 s))"
    unfolding plain_upper [OF assms]
    by (rule utf8_ValidString_ascii)
      (use plain_id_ascii [OF assms] in \<open>auto simp: list_all_iff intro: char_upper_ascii dest: in_set_takeD\<close>)
  have keys: "list_all utf8_ValidString [''changePercent24Hr'', ''id'', ''marketCapUsd'', ''maxSupply'', ''name'', ''priceUsd'',
      ''rank'', ''supply'', ''symbol'', ''volumeUsd24Hr'', ''vwap24Hr'', ''21000000'', ''19000000'', ''1'']"
    by (auto simp: is_ascii_def intro!: utf8_ValidString_ascii)
  then show ?thesis using s up by (simp add: asset_fields_def sprintf_2f_utf8)
qed

text \<open>What the adapter makes of an asset.\<close>

lemma asset_decodes:
  "decode_struct coincap_fields coincap_zero (object_of (asset_fields me s price x)) =
     Some \<lparr>cc_ID = s, cc_Symbol = strings_ToUpper (me_upper me) (take 3 s), cc_PriceUSD = sprintf_2f price,
       cc_MarketCapUSD = sprintf_2f (f_mul price (Fin 19000000)), cc_VolumeUsd24Hr = sprintf_2f (f_mul price (Fin 500000)),
       cc_ChangePercent24Hr = sprintf_2f (f_mul (f_sub x (fl (1 / 2))) (Fin 10))\<rparr>"
  unfolding asset_fields_def object_of_def
  by (simp add: decode_struct_def coincap_fields_def coincap_zero_def char_upper_def)

section \<open>Requests\<close>

lemma trim_plain:
  assumes "list_all (\<lambda>p. p \<noteq> [] \<and> \<not> id_char (hd p)) ps" and "list_all id_char s"
  shows "trim_prefixes n ps s = s"
proof -
  have "take (length p) s \<noteq> p" if "p \<in> set ps" for p
  proof
    assume *: "take (length p) s = p"
    have p: "p \<noteq> []" "\<not> id_char (hd p)" using assms(1) that by (auto simp: list_all_iff)
    then have "hd p \<in> set s" using * by (metis hd_in_set in_set_takeD)
    with assms(2) p(2) show False by (auto simp: list_all_iff)
  qed
  then have "filter (\<lambda>p. take (length p) s = p) ps = []" by (simp add: filter_empty_conv)
  then show ?thesis by (cases n) (simp_all add: strip_first_def)
qed

lemma no_space_id:
  "list_all (\<lambda>p. p \<noteq> [] \<and> \<not> id_char (hd p)) space_encodings"
  "list_all (\<lambda>p. p \<noteq> [] \<and> \<not> id_char (hd p)) (map rev space_encodings)"
  by code_simp+

lemma clean_plain: "plain_id s \<Longrightarrow> clean_symbol me s = s"
proof -
  assume s: "plain_id s"
  have "char_lower c = c" if "id_char c" for c using that by (auto simp: char_lower_def id_char_def Let_def)
  then have "map char_lower s = s" using s by (auto simp: plain_id_def list_all_iff intro: map_idI)
  then have "strings_ToLower (me_lower me) s = s" using plain_id_ascii [OF s] by (simp add: strings_ToLower_def)
  moreover have "strings_TrimSpace s = s"
    using s trim_plain [OF no_space_id(1), of s] trim_plain [OF no_space_id(2), of "rev s"]
    by (simp add: strings_TrimSpace_def plain_id_def)
  ultimately show ?thesis by (simp add: clean_symbol_def)
qed

lemma Split_Join:
  "ss \<noteq> [] \<Longrightarrow> list_all (\<lambda>s. c \<notin> set s) ss \<Longrightarrow> strings_Split c (strings_Join ss [c]) = ss"
proof (induction ss)
  case (Cons s ss)
  then show ?case by (cases ss) (simp_all add: strings_Split_no_char strings_Split_append)
qed simp

lemma coincap_data_assets:
  assumes "unit_random me" and "list_all plain_id ss"
  shows "\<exists>objs w1. coincap_data me ss w = (map json_object objs, w1) \<and> list_all2 (priced_asset me) ss objs"
  using assms(2)
proof (induction ss arbitrary: w)
  case (Cons s ss)
  obtain v w1 where v: "getPrice me s w = (Fin v, w1)" "\<bar>v\<bar> \<le> 300000"
    using getPrice_bounded [OF assms(1), of s w] by (metis prod.collapse)
  obtain x w2 where x: "me_Float64 me w1 = (x, w2)" by (metis surj_pair)
  obtain objs w3 where rest: "coincap_data me ss w2 = (map json_object objs, w3)" "list_all2 (priced_asset me) ss objs"
    using Cons by fastforce
  have "priced_asset me s (asset_fields me s (Fin v) x)" using v(2) by (auto simp: priced_asset_def)
  with rest Cons.prems show ?case
    by (intro exI [of _ "asset_fields me s (Fin v) x # objs"] exI [of _ w3])
      (simp add: v(1) x clean_plain asset_text_object Let_def)
qed simp

lemma assets_decode:
  assumes "list_all2 (priced_asset me) ss objs" and "list_all plain_id ss"
  shows "\<exists>items. decode_elements (decode_struct coincap_fields) coincap_zero [] (map object_of objs) = Some items \<and>
    list_all2 mock_item ss items"
  using assms
proof (induction rule: list_all2_induct)
  case (Cons s ss fs objs)
  obtain v x where fs: "fs = asset_fields me s (Fin v) x" "\<bar>v\<bar> \<le> 300000" using Cons.hyps(1) by (auto simp: priced_asset_def)
  obtain items where items: "decode_elements (decode_struct coincap_fields) coincap_zero [] (map object_of objs) = Some items"
      "list_all2 mock_item ss items"
    using Cons by auto
  obtain a where a: "decode_struct coincap_fields coincap_zero (object_of fs) = Some a" "mock_item s a"
    using Cons.prems ParseFloat_2f [OF fs(2)] unfolding fs(1) asset_decodes
    by (auto simp: mock_item_def coincap_numeric_def plain_upper simp del: sprintf_2f.simps)
  from a items show ?case by simp
qed simp

lemma items_symbols:
  "list_all2 mock_item ss items \<Longrightarrow> list_all plain_id ss \<Longrightarrow>
   map md_Symbol (coincap_items env now items) = map (\<lambda>s. map char_upper (take 3 s)) ss"
proof (induction rule: list_all2_induct)
  case (Cons s ss a items)
  have "strings_ToUpper (ae_unicode env) (map char_upper (take 3 s)) = map char_upper (take 3 s)"
    using Cons.prems plain_id_ascii [of s]
    by (auto simp: strings_ToUpper_def list_all_iff char_upper_def is_ascii_def dest!: in_set_takeD)
  then show ?case using Cons by (auto simp: mock_item_def coincap_numeric_def)
qed simp

text \<open>The body of a successful answer, and what the adapter decodes from it.\<close>

lemma applyMode_goes_on: "mode_exchange mode = None \<Longrightarrow> \<exists>w1. applyMode me mode w = (None, w1)"
  by (auto simp: mode_exchange_def applyMode_def Let_def split: if_splits)

lemma answer_decodes:
  assumes "list_all2 (priced_asset me) ss objs" and "list_all plain_id ss" and "ss \<noteq> []" and "0 \<le> t"
    and "rs_Body resp = line (json_map [(''data'', ''['' @ strings_Join (map json_object objs) '','' @ '']''),
      (''timestamp'', strconv_Itoa t)])"
  shows "\<exists>items. decodeCoinCap env resp = Inr items \<and> list_all2 mock_item ss items"
proof -
  obtain items where items: "decode_elements (decode_struct coincap_fields) coincap_zero [] (map object_of objs) = Some items"
      "list_all2 mock_item ss items"
    using assets_decode [OF assms(1,2)] by blast
  have objs: "objs \<noteq> []" "length items = length objs" 
    using assms(3) list_all2_lengthD [OF assms(1)] list_all2_lengthD [OF items(2)] by auto
  have "list_all (\<lambda>fs. fs \<noteq> [] \<and> length fs \<le> 11 \<and> list_all (\<lambda>(k, v). utf8_ValidString k \<and> utf8_ValidString v) fs) objs"
    using assms(1,2)
    by (induction rule: list_all2_induct) (auto simp: priced_asset_def asset_fields_utf8 simp del: sprintf_2f.simps)
  from mock_body_decodes [OF objs(1) assms(4) this]
  have "Decoder_value (rs_Body resp) =
      Some (JObject [(''data'', JArray (map object_of objs)), (''timestamp'', JNumber (strconv_Itoa t))])"
    unfolding assms(5) .
  with items objs show ?thesis
    by (simp add: decodeCoinCap_def decode_defs)
qed

lemma mock_reply_assets:
  assumes "mode_exchange mode = None" and "unit_random me" and "\<forall>w. 0 \<le> fst (me_Now me w)"
    and "list_all plain_id ss" and "ss \<noteq> []"
  shows "\<exists>objs t reply st1. handleCoinCap me (''ids='' @ QueryEscape (strings_Join ss '','')) mode st = (reply, st1) \<and>
    mr_status reply = 200 \<and> list_all2 (priced_asset me) ss objs \<and> 0 \<le> t \<and>
    mr_body reply = line (json_map [(''data'', ''['' @ strings_Join (map json_object objs) '','' @ '']''),
      (''timestamp'', strconv_Itoa t)])"
proof -
  obtain count w where st: "st = (count, w)" by (cases st)
  obtain w1 where w1: "applyMode me mode w = (None, w1)" using applyMode_goes_on [OF assms(1), of me w] by blast
  obtain objs w2 where data: "coincap_data me ss w1 = (map json_object objs, w2)" "list_all2 (priced_asset me) ss objs"
    using coincap_data_assets [OF assms(2,4)] by blast
  obtain now w3 where now: "me_Now me w2 = (now, w3)" "0 \<le> now" using assms(3) by (metis prod.collapse)
  have ids: "strings_Split CHR '','' (Values_Get (url_Query (''ids='' @ QueryEscape (strings_Join ss '',''))) ''ids'') = ss"
    unfolding query_ids using assms(4,5)
    by (simp add: Values_Get_def Split_Join list.pred_mono_strong [OF assms(4)] plain_id_no_comma)
  show ?thesis
    unfolding handleCoinCap_def st default_mode ids
    by (intro exI [of _ objs] exI [of _ "now div 1000000"])
      (use data now in \<open>simp add: w1 json_reply_of_def Let_def pos_imp_zdiv_nonneg_iff\<close>)
qed

text \<open>For closed examples: the mock in its default mode.\<close>

lemma demo_mock_random: "unit_random (demo_mock mode)" "\<forall>w. 0 \<le> fst (me_Now (demo_mock mode) w)"
  by (auto simp: unit_random_def demo_mock_def intro!: exI [of _ "1 / 2"])

section \<open>Property\<close>



end
