(* ===== verification/Feature_Flags.thy ===== *)
theory Feature_Flags
  imports Config
begin

text \<open>
  \<open>internal/featureflags/flags.go\<close>: named switches from \<open>FEATURE_FLAGS\<close>, changed at run
  time. Every method runs under the lock, so that each is one step. The flags refine a
  function from names to switches: \<open>Set\<close> and every assignment of the variable overwrite one
  name, in order, and nothing else ever changes.
\<close>

type_synonym Flags = "(string, bool) gomap"

text \<open>One element of the list: a name and whether it is switched on.\<close>

definition parse_flag :: "string \<Rightarrow> (string \<times> bool) option" where
  "parse_flag pair0 =
     (let pair = strings_TrimSpace pair0
      in if pair = '''' then None
         else
           let parts = strings_SplitN2 (CHR ''='') pair
           in if length parts \<noteq> 2 then None
              else
                let key = strings_TrimSpace (parts ! 0);
                    val = strings_TrimSpace (ascii_lower (parts ! 1))
                in Some (key, val = ''true'' \<or> val = ''1'' \<or> val = ''yes''))"

fun load_pairs :: "string list \<Rightarrow> Flags \<Rightarrow> Flags" where
  "load_pairs [] f = f"
| "load_pairs (pair # pairs) f =
     (case parse_flag pair of
        None \<Rightarrow> load_pairs pairs f
      | Some (key, b) \<Rightarrow> load_pairs pairs (gm_put key b f))"

definition loadFromEnv :: "environment \<Rightarrow> Flags \<Rightarrow> Flags" where
  "loadFromEnv env f =
     (let raw = env ''FEATURE_FLAGS''
      in if raw = '''' then f else load_pairs (strings_Split (CHR '','') raw) f)"

definition flags_New :: "environment \<Rightarrow> Flags" where
  "flags_New env = loadFromEnv env []"

definition NewWithDefaults :: "(string, bool) gomap \<Rightarrow> environment \<Rightarrow> Flags" where
  "NewWithDefaults defaults env = loadFromEnv env (fold (\<lambda>(k, v). gm_put k v) defaults [])"

definition IsEnabled :: "string \<Rightarrow> Flags \<Rightarrow> bool" where
  "IsEnabled name f = gm_true f name"

definition flags_Set :: "string \<Rightarrow> bool \<Rightarrow> Flags \<Rightarrow> Flags" where
  "flags_Set name enabled f = gm_put name enabled f"

definition flags_All :: "Flags \<Rightarrow> (string, bool) gomap" where
  "flags_All f = fold (\<lambda>(k, v). gm_put k v) f []"

definition Reload :: "environment \<Rightarrow> Flags \<Rightarrow> Flags" where
  "Reload env f = loadFromEnv env f"

definition default_flag_names :: "string list" where
  "default_flag_names =
     [''new_pricing_algorithm'', ''beta_providers'', ''experimental_cache'', ''detailed_metrics'', ''maintenance_mode'']"

definition DefaultFlags :: "environment \<Rightarrow> Flags" where
  "DefaultFlags env = NewWithDefaults (map (\<lambda>n. (n, False)) default_flag_names) env"

section \<open>Specification\<close>

text \<open>The assignments of an environment, in order.\<close>

definition assignments :: "environment \<Rightarrow> (string \<times> bool) list" where
  "assignments env = List.map_filter parse_flag (strings_Split (CHR '','') (env ''FEATURE_FLAGS''))"

datatype flag_op = SetFlag string bool | ReloadFlags environment

fun flag_step :: "flag_op \<Rightarrow> Flags \<Rightarrow> Flags" where
  "flag_step (SetFlag name b) f = flags_Set name b f"
| "flag_step (ReloadFlags env) f = Reload env f"

text \<open>The assignments an operation makes.\<close>

fun op_assigns :: "flag_op \<Rightarrow> (string \<times> bool) list" where
  "op_assigns (SetFlag name b) = [(name, b)]"
| "op_assigns (ReloadFlags env) = assignments env"

definition flag_astep :: "flag_op \<Rightarrow> (string \<Rightarrow> bool option) \<Rightarrow> string \<Rightarrow> bool option" where
  "flag_astep x m = m ++ map_of (rev (op_assigns x))"

section \<open>Lemmas\<close>

lemma load_pairs_get: "gm_get (load_pairs ps f) = gm_get f ++ map_of (rev (List.map_filter parse_flag ps))"
proof (induction ps arbitrary: f)
  case (Cons p ps)
  show ?case
  proof (cases "parse_flag p")
    case (Some kb)
    obtain k b where kb: "kb = (k, b)" by (cases kb)
    have "gm_get (gm_put k b f) = gm_get f ++ [k \<mapsto> b]" by (rule ext) (simp add: gm_simps map_add_def)
    then show ?thesis using Some Cons.IH by (simp add: kb map_filter_simps fun_upd_def)
  qed (simp add: Cons.IH map_filter_simps)
qed (simp add: map_filter_simps)

lemma loadFromEnv_get: "gm_get (loadFromEnv env f) = gm_get f ++ map_of (rev (assignments env))"
proof (cases "env ''FEATURE_FLAGS'' = ''''")
  case True
  have "parse_flag '''' = None" by code_simp
  then show ?thesis using True by (simp add: loadFromEnv_def assignments_def map_filter_simps)
qed (simp add: loadFromEnv_def assignments_def load_pairs_get)

lemma load_pairs_wf: "gm_wf f \<Longrightarrow> gm_wf (load_pairs ps f)"
  by (induction ps arbitrary: f) (auto simp: gm_wf_put split: option.split)

lemma flag_step_wf: "gm_wf f \<Longrightarrow> gm_wf (flag_step x f)"
  by (cases x) (simp_all add: flags_Set_def Reload_def loadFromEnv_def load_pairs_wf gm_wf_put Let_def)

lemma flag_step_get: "gm_get (flag_step x f) = flag_astep x (gm_get f)"
proof (cases x)
  case (SetFlag name b)
  show ?thesis by (rule ext) (simp add: SetFlag flag_astep_def flags_Set_def gm_simps map_add_def)
qed (simp add: flag_astep_def Reload_def loadFromEnv_get)

interpretation ff: refined_machine flag_step "\<lambda>f. f = []" gm_wf gm_get flag_astep
  by unfold_locales (simp_all add: flag_step_wf flag_step_get)

lemma fold_flag_astep: "fold flag_astep ops m = m ++ map_of (rev (concat (map op_assigns ops)))"
  by (induction ops arbitrary: m) (simp_all add: flag_astep_def)

lemma gm_get_empty: "gm_get [] = Map.empty"
  by (rule ext) (simp add: gm_get_def)

lemma flags_All_get:
  assumes "gm_wf f"
  shows "gm_get (flags_All f) name = gm_get f name"
proof -
  have puts: "gm_get (fold (\<lambda>(k, v). gm_put k v) kvs m) k = (gm_get m ++ map_of (rev kvs)) k" for kvs m k
    by (induction kvs arbitrary: m) (auto simp: gm_simps map_add_def split: option.split)
  have "map_of (rev f) = map_of f"
    using assms by (intro iffD2 [OF map_of_inject_set]) (simp_all add: gm_wf_def rev_map [symmetric])
  then show ?thesis unfolding flags_All_def puts gm_get_empty by (simp add: gm_get_def)
qed

lemma flags_New_step: "flags_New env = flag_step (ReloadFlags env) []"
  by (simp add: flags_New_def Reload_def)

section \<open>Properties\<close>

text \<open>
  C39: Over any sequence of calls of \<open>Set\<close> and \<open>Reload\<close> a flag is on exactly when the last
  assignment to its name, by a call or by an element of the variable, switched it on; a flag
  that was never assigned is off. In particular a reload keeps flags the variable no longer
  mentions. The copy \<open>All\<close> returns agrees with the flags.
\<close>

theorem flags_last_assignment:
  "IsEnabled name (fold flag_step ops (flags_New env))
       = (map_of (rev (assignments env @ concat (map op_assigns ops))) name = Some True) \<and>
   gm_get (flags_All (fold flag_step ops (flags_New env))) name
       = map_of (rev (assignments env @ concat (map op_assigns ops))) name"
proof -
  have "gm_get (fold flag_step (ReloadFlags env # ops) []) = fold flag_astep (ReloadFlags env # ops) (gm_get [])"
    by (rule ff.reachable_refines) simp
  then have "gm_get (fold flag_step ops (flags_New env)) =
      Map.empty ++ map_of (rev (assignments env @ concat (map op_assigns ops)))"
    unfolding fold_flag_astep gm_get_empty by (simp add: flags_New_step)
  moreover have "gm_wf (fold flag_step (ReloadFlags env # ops) [])" by (rule ff.reachable_inv) simp
  then have "gm_wf (fold flag_step ops (flags_New env))" by (simp add: flags_New_step)
  ultimately show ?thesis by (auto simp: IsEnabled_def gm_true_def flags_All_get split: option.split)
qed

end
