(* ===== verification/Spec2Isabelle.thy ===== *)
theory Spec2Isabelle
  imports Prometheus Data_Path Mock_Answers Feature_Flags
begin

text \<open>
  \<^bold>\<open>Verification of a cryptocurrency market-data platform.\<close>

  \<^bold>\<open>The program.\<close> Three Go services share the packages under \<open>src/internal\<close>; a mock provider
  stands in for the sources of prices in tests. The
  \<^emph>\<open>ingestor\<close> runs a cycle on a schedule: it reads the active coins from PostgreSQL, asks a
  provider for prices through the fallback orchestrator (circuit breakers, rate-limit
  tracking, retries), validates the answers, stores snapshots, and publishes every value to a
  Redis key and a Redis stream. The \<^emph>\<open>realtime gateway\<close> consumes the stream, drops duplicates
  and sends events to bounded per-client buffers over server-sent events. The \<^emph>\<open>API\<close> answers
  queries from the cache and the database behind a chain of middleware.

  \<^bold>\<open>Conventions.\<close> Go integers are \<open>int\<close> with the 64-bit wrap written out (\<open>wrap64\<close>);
  times and durations are nanoseconds; \<open>float64\<close> is IEEE binary64 with exact rounding;
  strings are lists of bytes; maps are association lists (\<open>gomap\<close>), and what a loop over a
  map does is shown for every order where the order shows; errors are values
  (\<open>go_error\<close>, \<open>option\<close>, sums). A section that holds a lock is one step, and goroutines are
  sequences of steps. Redis, PostgreSQL, HTTP transport, the clock, the random source and the
  file system are parameters; what a theorem needs of them is one of its hypotheses.

  \<^bold>\<open>The language and its library.\<close>
  \<^item> \<open>Go_Prelude\<close>: integers, time, maps, errors, metrics; the locales \<open>finite_map\<close> and
    \<open>machine\<close> (operations that keep an invariant), and the collections of rewrite rules.
  \<^item> \<open>Go_Strings\<close>, \<open>Float64\<close>, \<open>Strconv_Float\<close>, \<open>Strconv_Format\<close>: strings and UTF-8, query
    strings, binary64 arithmetic with monotonicity and error bounds, \<open>strconv.ParseFloat\<close> and
    \<open>strconv.FormatFloat\<close>, and that what is formatted parses back.
  \<^item> \<open>Go_Encoding\<close>, \<open>Go_Json\<close>, \<open>Go_Decode\<close>, \<open>Go_Time\<close>: base64, SHA-256, HMAC; the JSON parser
    and writer with their round trip; decoding into structs and slices; calendar dates and
    RFC 3339 with their round trips.
  \<^item> \<open>Go_Duration\<close>: \<open>time.ParseDuration\<close>; whole numbers of a unit are read exactly.
  \<^item> \<open>Go_Runtime\<close>: clock, context and waiting as functions on a world.

  \<^bold>\<open>The components.\<close>
  \<^item> \<open>Circuit_Breaker\<close>, \<open>Rate_Limit_Tracker\<close>, \<open>Retry\<close> (\<open>internal/resilience\<close>): the breaker
    refines an abstract machine and keeps its invariant; back-off windows; retries are
    bounded and pick the outcome the policy names; delays are bounded.
  \<^item> \<open>Market_Model\<close>, \<open>Freshness\<close>, \<open>Anomaly\<close> (\<open>internal/market\<close>): validation against a
    declarative specification; summaries; the bounded anomaly log.
  \<^item> \<open>Provider_Selection\<close>, \<open>Provider_Adapters\<close>, \<open>Fallback\<close> (\<open>internal/provider\<close>): error
    policy of the adapters, and that numbers pass through them without loss; the orchestrator
    keeps its invariant, reaches a healthy provider,
    spares blocked ones and names the source of its data.
  \<^item> \<open>Stream_Event\<close>, \<open>Event_Codec\<close>, \<open>Market_Cache\<close>, \<open>Stream_Consumer\<close> (\<open>internal/stream\<close>,
    \<open>internal/cache\<close>): what is published parses back; events are handled once and
    acknowledged exactly when they should be; the read loop ends with its context.
  \<^item> \<open>Consumer_Concurrency\<close>: the reading and the claiming goroutine of the consumer as an
    inductive interleaving of the pieces of \<open>processEntry\<close>; nothing is acknowledged that was
    not handled (by the locale \<open>invariant_system\<close>), and an event can be handled twice.
  \<^item> \<open>Subscriber\<close>, \<open>Realtime_Server\<close> (\<open>internal/subscriber\<close>, \<open>internal/realtime\<close>): latest
    state wins in every buffer; the hub's invariant under any interleaving; replay.
  \<^item> \<open>Gateway\<close> (\<open>cmd/realtime\<close>): the start of the gateway, its routes, and the consumer with
    the server's handler: a published value reaches the buffer of every client, a connected
    client ends up with the latest event of every symbol, and no broadcast blocks.
  \<^item> \<open>Ingestor\<close> (\<open>internal/worker\<close>, \<open>internal/scheduler\<close>): cycles are logged once, publish
    nothing on failure, store only validated data and never overlap.
  \<^item> \<open>API_Http\<close>, \<open>API_Auth\<close>, \<open>API_Rate_Limit\<close>, \<open>API_Middleware\<close>, \<open>API_Handlers\<close>
    (\<open>internal/api\<close>): requests and responses; who is let in, down to the bytes of a signed
    token; the token buckets in floating point and how much they admit; the middleware chain
    and the headers every response carries; the endpoints, the bound on a page, the status
    document and what an outage of Redis does.
  \<^item> \<open>Repository\<close>, \<open>Migrations\<close> (\<open>internal/repository\<close>): the queries and their scans over a
    database that is a parameter; the text of the history query and what it selects; batches
    are stored as a whole; migrations run in order, once, and the last one can be taken back.
  \<^item> \<open>Config\<close>, \<open>Feature_Flags\<close> (\<open>internal/config\<close>, \<open>internal/featureflags\<close>): which
    environments are accepted; the last assignment to a flag decides.
  \<^item> \<open>Commands\<close> (\<open>cmd/api\<close>, \<open>cmd/ingestor\<close>, \<open>internal/telemetry/logger.go\<close>): what the
    services build from their configuration, and the subcommands.
  \<^item> \<open>Services\<close> (\<open>cmd/ingestor\<close>, \<open>cmd/api\<close>): the \<open>main\<close> functions up to the running service;
    the scheduled ingestor over its database stores whole batches of validated snapshots.
  \<^item> \<open>Data_Path\<close>: ingestor, Redis and API together: the API serves what the last cycle stored.
  \<^item> \<open>Prometheus\<close> (\<open>internal/telemetry\<close>, \<open>internal/realtime/metrics.go\<close> and the variables of the
    other packages): the metrics; registration succeeds, and updates fit the declarations.
  \<^item> \<open>Mock_Provider\<close>, \<open>Mock_Answers\<close> (\<open>cmd/mockprovider\<close>): the mock server and the adapters
    talking to it: failure modes arrive as the errors they simulate, other answers are decoded.

  This theory imports them all and holds the properties that span components.

  \<^bold>\<open>Bounds and fuel.\<close> The JSON parser takes fuel; \<open>Go_Json.json_fuel\<close> shows that twice the
  length of the text plus two, which is what the callers pass, is enough. The consumer's read
  loop may run for ever: it is a \<open>partial_function (option)\<close>, and that it returns once the
  context has ended is proved. Every other loop is structural or has a termination proof.

  \<^bold>\<open>Not modelled.\<close> Connection pools, listening, signals and the shutdown of the services at the
  end of the \<open>main\<close> functions are I/O. \<open>internal/testutil\<close> starts containers for integration
  tests. Log messages are left out. The HTTP, routing and SQL libraries, Redis,
  PostgreSQL and the profiling endpoints are not part of the source: they are parameters, and
  what is needed of them is written out as a definition (\<open>migration_db\<close>, \<open>tx_begin\<close>,
  \<open>tx_end\<close>, \<open>inserts_snapshots\<close>, \<open>keeps_snapshots\<close>, \<open>honours_limit\<close>, \<open>redis_down\<close>,
  \<open>header_safe\<close>, \<open>uuid_source\<close>, \<open>redis_table\<close>, \<open>unit_random\<close>, \<open>registry_law\<close>) that an
  example instance satisfies.
\<close>

section \<open>Definitions\<close>

text \<open>The data a call returned carries the name of one provider.\<close>

definition labelled_by :: "string \<Rightarrow> MarketData list \<Rightarrow> bool" where
  "labelled_by name mds \<longleftrightarrow> list_all (\<lambda>d. md_Provider d = name) mds"

text \<open>The adapters over one environment, in the order of a selector, minus the disabled names.\<close>

definition adapter_selector ::
    "'w adapter_env \<Rightarrow> CoinGeckoProvider \<Rightarrow> CoinCapProvider \<Rightarrow> string list \<Rightarrow> 'w Selector" where
  "adapter_selector env p q disabled =
     NewSelector [coingecko_Provider env p, coincap_Provider env q] disabled"

text \<open>Closed examples: CoinCap alone enabled and answering, and one valid record of an active coin.\<close>

definition demo_adapters :: "int FallbackOrchestrator" where
  "demo_adapters =
     NewFallbackOrchestrator
       (adapter_selector (demo_env (demo_answer ''null''))
          (NewCoinGeckoProvider ''http://gecko'' 5) (NewCoinCapProvider ''http://cap'' 5) [''coingecko''])
       (NewManager (DefaultCircuitBreakerConfig ''default'')) NewRateLimitTracker DefaultRetryConfig"

definition demo_published :: LatestMarketData where
  "demo_published = make_latest demo_coin 5 (btc_data ''42'')"

section \<open>Lemmas\<close>

lemma adapter_selector_eligible:
  "set (Eligible (adapter_selector env p q disabled))
     \<subseteq> {coingecko_Provider env p, coincap_Provider env q}"
  by (auto simp: adapter_selector_def sel.eligible_filter Selector_All_def NewSelector_def)

lemma adapters_label:
  assumes "prov \<in> {coingecko_Provider env p, coincap_Provider env q}"
    and "pv_Fetch prov syms w = ((data, None), w')"
  shows "labelled_by (pv_Name prov) data"
  using assms gecko.labelled cap.labelled by (auto simp: labelled_by_def list_all_iff)

lemma demo_adapters_eligible: "Eligible (fo_selector demo_adapters) = [demo_cap]"
proof -
  have "fo_selector (NewFallbackOrchestrator sel mgr t rc) = sel" for sel :: "int Selector" and mgr t rc
    by (simp add: NewFallbackOrchestrator_def Let_def split: sum.split)
  then show ?thesis
    by (simp add: demo_adapters_def adapter_selector_def sel.eligible_filter IsDisabled_NewSelector)
      (simp add: NewSelector_def Selector_All_def demo_cap_def coingecko_Provider_def
        coincap_Provider_def providerName_def coincapProviderName_def)
qed

lemma demo_adapters_answer:
  "snd (fst (orchestrator_FetchMarketData quiet_runtime [''bitcoin''] demo_adapters 0)) = None"
proof -
  have "available ''coincap'' demo_adapters" "1 \<le> MaxAttempts (fo_retryConfig demo_adapters)"
    by (simp_all add: demo_adapters_def demo_defs available_def split: sum.split)
  then have "snd (fst (Fetch_loop quiet_runtime [''bitcoin''] [demo_cap] 0 [demo_cap] None demo_adapters 0)) = None"
    by (intro Fetch_loop_reaches [where prov = demo_cap])
      (auto simp: demo_names demo_cap_answers quiet_runtime_def)
  then show ?thesis
    by (simp add: orchestrator_FetchMarketData_def demo_adapters_eligible Let_def del: Fetch_loop.simps)
qed

lemma demo_snapshots:
  "\<exists>snaps m' w'. build_snapshots (demo_ingest []) [demo_coin] 5 [btc_data ''42''] m_empty ([], 0)
     = ((snaps, [demo_published]), m', w')"
proof -
  obtain m1 where "MarketData_Validate (\<lambda>_. '''') (\<lambda>_. '''') 0 (btc_data ''42'') m_empty = (None, m1)"
    using btc_data_validates by (metis prod.collapse)
  then show ?thesis
    by (simp add: demo_ingest_def demo_published_def demo_coin_def) (simp add: btc_data_def)
qed

section \<open>Properties across components\<close>

text \<open>
  C1: The provider name the orchestrator reports is the name on the data: over the two adapters,
  whichever are disabled, data returned without an error is labelled with the provider that is
  active afterwards.
\<close>

theorem active_provider_labels_data:
  assumes "fo_selector fo = adapter_selector env p q disabled"
    and "orchestrator_FetchMarketData rt syms fo w = ((data, None), fo', w')"
    and "1 \<le> MaxAttempts (fo_retryConfig fo)"
  shows "labelled_by (ActiveProvider fo') data"
proof -
  have "Fetch_loop rt syms (Eligible (fo_selector fo)) 0 (Eligible (fo_selector fo)) None fo w
      = ((data, None), fo', w')"
    using assms(2) by (auto simp: orchestrator_FetchMarketData_def Let_def split: if_splits)
  from Fetch_loop_success [OF this assms(3)] obtain prov w0 w1 where
    "prov \<in> set (Eligible (fo_selector fo))" "fo_activeProvider fo' = pv_Name prov"
    "pv_Fetch prov syms w0 = ((data, None), w1)" by blast
  with adapters_label [of prov env p q] adapter_selector_eligible [of env p q disabled] assms(1)
  show ?thesis by (auto simp: ActiveProvider_def)
qed

theorem active_provider_labels_data_witness:
  "labelled_by
     (ActiveProvider (fst (snd (orchestrator_FetchMarketData quiet_runtime [''bitcoin''] demo_adapters 0))))
     (fst (fst (orchestrator_FetchMarketData quiet_runtime [''bitcoin''] demo_adapters 0)))"
proof -
  let ?r = "orchestrator_FetchMarketData quiet_runtime [''bitcoin''] demo_adapters 0"
  have sel: "fo_selector demo_adapters = adapter_selector
      (demo_env (demo_answer ''null''))
      (NewCoinGeckoProvider ''http://gecko'' 5) (NewCoinCapProvider ''http://cap'' 5) [''coingecko'']"
    and retry: "1 \<le> MaxAttempts (fo_retryConfig demo_adapters)"
    by (simp_all add: demo_adapters_def demo_defs split: sum.split)
  have "snd (fst ?r) = None" by (rule demo_adapters_answer)
  then have "?r = ((fst (fst ?r), None), fst (snd ?r), snd (snd ?r))" by (simp add: prod_eq_iff)
  from active_provider_labels_data [OF sel this retry] show ?thesis .
qed

text \<open>
  Every value a cycle publishes reaches the gateway: for each of the latest values built from the
  fetched data, the stream entry that \<open>PublishEvent\<close> writes is one the consumer accepts, as
  an event with that value's symbol and price (in well-formed UTF-8, before the year 10000).
\<close>

theorem ingested_events_accepted:
  assumes "uuid \<noteq> ''''" and "utf8_ValidString uuid"
    and "build_snapshots env coins now mds m w = ((snaps, latest), m', w')" and "ld \<in> set latest"
    and "list_all utf8_ValidString (latest_strings ld)" and "rfc3339_time t" and "rfc3339_time now"
  shows "\<exists>e. parseEntry (go_codec je mv) t'
      \<lparr>xm_ID = i, xm_Values = stream_values (lmd_Symbol ld)
         (marshal_event (published_event (go_codec je mv) uuid t ld))\<rparr> = Inr e \<and>
    ev_Symbol e = lmd_Symbol ld \<and> ev_PriceUSD e = lmd_PriceUSD ld"
proof -
  note fields = comes_from_publishable [OF build_snapshots_sound [OF assms(3)] assms(4)]
  have "jc_MarshalEvent (go_codec je mv) e = Inr (marshal_event e)" for e by (simp add: go_codec_def)
  from gc.parse_published [OF assms(1) _ _ _ assms(2,5,6) _ this] fields assms(7) show ?thesis
    by (auto simp: published_event_def)
qed

theorem ingested_events_accepted_witness:
  "\<exists>e. parseEntry plain_codec 0
      \<lparr>xm_ID = ''1-0'', xm_Values = stream_values ''BTC''
         (marshal_event (published_event plain_codec ''uuid-1'' 0 demo_published))\<rparr> = Inr e \<and>
     ev_PriceUSD e = ''42''"
proof -
  obtain snaps m' w' where b: "build_snapshots (demo_ingest []) [demo_coin] 5 [btc_data ''42''] m_empty ([], 0)
      = ((snaps, [demo_published]), m', w')" using demo_snapshots by blast
  have "list_all utf8_ValidString (''uuid-1'' # latest_strings demo_published)"
    by (auto simp: demo_published_def make_latest_def demo_coin_def btc_data_def latest_strings_def
        is_ascii_def intro!: utf8_ValidString_ascii)
  then show ?thesis
    using ingested_events_accepted [OF _ _ b, of "''uuid-1''" demo_published 0
        "\<lambda>_. ErrorString ''invalid''" "\<lambda>_. Inl (ErrorString ''unsupported'')" 0 "''1-0''"] rfc3339_time_early
    unfolding plain_codec_def [symmetric]
    by (auto simp: demo_published_def make_latest_def demo_coin_def btc_data_def)
qed

end
